theory Spec2Isabelle
  imports Main "HOL-Library.Char_ord" "HOL-Library.List_Lexorder" "HOL-Library.Product_Lexorder"
begin

section \<open>The migration script (scripts/migrate-mongo-to-sqlite.ts)\<close>

subsection \<open>Source documents and target rows\<close>

text \<open>
  The interfaces \<^verbatim>\<open>MongoTextbook\<close>, \<^verbatim>\<open>MongoPassageSet\<close>, \<^verbatim>\<open>MongoQuestion\<close>,
  \<^verbatim>\<open>MongoSystemPrompt\<close> and \<^verbatim>\<open>MongoSystemPromptVersion\<close> of the script, field by
  field. An \<^verbatim>\<open>ObjectId\<close> is represented by its \<^verbatim>\<open>toString()\<close> (the only way the
  script uses it), a \<^verbatim>\<open>Date\<close> and a \<^verbatim>\<open>number\<close> by an integer.
\<close>

record MongoTextbook =
  mt_id :: string
  mt_title :: string
  mt_publisher :: string
  mt_subject :: string
  mt_level :: string
  mt_grade :: string
  mt_createdAt :: int
  mt_updatedAt :: int

record MongoPassageSet =
  mp_id :: string
  mp_title :: string
  mp_passage :: string
  mp_passageComment :: string
  mp_qrCode :: string
  mp_textbooks :: "string list"
  mp_createdAt :: int
  mp_updatedAt :: int

record MongoQuestion =
  mq_id :: string
  mq_setId :: string
  mq_questionNumber :: int
  mq_questionText :: string
  mq_options :: "string list"
  mq_correctAnswer :: string
  mq_explanation :: string
  mq_createdAt :: int
  mq_updatedAt :: int

record MongoSystemPrompt =
  ms_id :: string
  ms_key :: string
  ms_name :: string
  ms_description :: string
  ms_content :: string
  ms_isActive :: bool
  ms_version :: int
  ms_createdAt :: int
  ms_updatedAt :: int

record MongoSystemPromptVersion =
  mv_id :: string
  mv_promptKey :: string
  mv_content :: string
  mv_version :: int
  mv_description :: string
  mv_createdBy :: string
  mv_createdAt :: int

text \<open>
  The source database: one list of documents per collection, under the collection names
  the script passes to \<^verbatim>\<open>db.collection\<close>. \<^verbatim>\<open>find({}).toArray()\<close> is the list,
  \<^verbatim>\<open>countDocuments()\<close> its length (the source is one consistent snapshot).
\<close>

record mongo =
  textbooks :: "MongoTextbook list"
  passagesets :: "MongoPassageSet list"
  questions :: "MongoQuestion list"
  systemprompts :: "MongoSystemPrompt list"
  systemprompversions :: "MongoSystemPromptVersion list"

text \<open>The rows the script writes: the \<^verbatim>\<open>data\<close> objects of its \<^verbatim>\<open>create\<close> calls.\<close>

record Textbook =
  t_id :: string
  t_title :: string
  t_publisher :: string
  t_subject :: string
  t_level :: string
  t_grade :: string
  t_createdAt :: int
  t_updatedAt :: int

record PassageSet =
  p_id :: string
  p_title :: string
  p_passage :: string
  p_passageComment :: string
  p_qrCode :: string
  p_createdAt :: int
  p_updatedAt :: int

record Question =
  q_id :: string
  q_setId :: string
  q_questionNumber :: int
  q_questionText :: string
  q_optionsJson :: string
  q_correctAnswer :: string
  q_explanation :: string
  q_createdAt :: int
  q_updatedAt :: int

record SystemPrompt =
  s_id :: string
  s_key :: string
  s_name :: string
  s_description :: string
  s_content :: string
  s_isActive :: bool
  s_version :: int
  s_createdAt :: int
  s_updatedAt :: int

record SystemPromptVersion =
  v_id :: string
  v_promptKey :: string
  v_content :: string
  v_version :: int
  v_description :: string
  v_createdBy :: string
  v_createdAt :: int

record PassageSetTextbook =
  l_textbookId :: string
  l_passageSetId :: string

text \<open>The target store behind the Prisma client: one table per model.\<close>

record sqlite =
  textbook :: "Textbook list"
  passageSet :: "PassageSet list"
  question :: "Question list"
  systemPrompt :: "SystemPrompt list"
  systemPromptVersion :: "SystemPromptVersion list"
  passageSetTextbook :: "PassageSetTextbook list"

datatype error =
    MongoConnectError
  | PrismaConnectError
  | BackupWriteError
  | UniqueConstraintFailed
  | ForeignKeyConstraintFailed
  | CountMismatch

text \<open>
  \<open>CountMismatch\<close> is the \<^verbatim>\<open>Error\<close> that \<^verbatim>\<open>verifyMigration\<close> throws. Its message is one
  constant string (a data count mismatch, the migration needs review); it has no
  argument because the script puts no kind and no count into it.
\<close>

definition thenE :: "error + 'a \<Rightarrow> ('a \<Rightarrow> error + 'b) \<Rightarrow> error + 'b" where
  "thenE r f = (case r of Inl e \<Rightarrow> Inl e | Inr x \<Rightarrow> f x)"

subsection \<open>The create calls\<close>

text \<open>
  The Prisma schema (prisma/schema.prisma) is not among the sources, so what makes a
  \<^verbatim>\<open>create\<close> call throw is taken from the spec's data model: identifiers are unique
  per table, the access code of a PassageSet and the key of a SystemPrompt are unique, a
  Question references an existing PassageSet, and a junction row has the pair of its two
  foreign keys as identity, both referencing existing rows (the script turns foreign keys
  on in \<^verbatim>\<open>setupConnections\<close>; the database layer addresses a junction row by the
  compound key \<^verbatim>\<open>textbookId_passageSetId\<close>). A successful \<^verbatim>\<open>create\<close> appends the
  row.
\<close>

text \<open>
  Modelled from the spec: the schema of Textbook is missing; the identifier is the
  primary key.
\<close>

definition textbook_create :: "Textbook \<Rightarrow> sqlite \<Rightarrow> error + sqlite" where
  "textbook_create r d =
     (if t_id r \<in> set (map t_id (textbook d)) then Inl UniqueConstraintFailed
      else Inr (d\<lparr>textbook := textbook d @ [r]\<rparr>))"

text \<open>
  Modelled from the spec: the schema of PassageSet is missing; the identifier is the
  primary key and the access code is unique across the store.
\<close>

definition passageSet_create :: "PassageSet \<Rightarrow> sqlite \<Rightarrow> error + sqlite" where
  "passageSet_create r d =
     (if p_id r \<in> set (map p_id (passageSet d)) then Inl UniqueConstraintFailed
      else if p_qrCode r \<in> set (map p_qrCode (passageSet d)) then Inl UniqueConstraintFailed
      else Inr (d\<lparr>passageSet := passageSet d @ [r]\<rparr>))"

text \<open>
  Modelled from the spec: the schema of Question is missing; the identifier is the
  primary key and the question's foreign key references an existing PassageSet.
\<close>

definition question_create :: "Question \<Rightarrow> sqlite \<Rightarrow> error + sqlite" where
  "question_create r d =
     (if q_id r \<in> set (map q_id (question d)) then Inl UniqueConstraintFailed
      else if q_setId r \<notin> set (map p_id (passageSet d)) then Inl ForeignKeyConstraintFailed
      else Inr (d\<lparr>question := question d @ [r]\<rparr>))"

text \<open>
  Modelled from the spec: the schema of SystemPrompt is missing; the identifier is the
  primary key and the key is unique.
\<close>

definition systemPrompt_create :: "SystemPrompt \<Rightarrow> sqlite \<Rightarrow> error + sqlite" where
  "systemPrompt_create r d =
     (if s_id r \<in> set (map s_id (systemPrompt d)) then Inl UniqueConstraintFailed
      else if s_key r \<in> set (map s_key (systemPrompt d)) then Inl UniqueConstraintFailed
      else Inr (d\<lparr>systemPrompt := systemPrompt d @ [r]\<rparr>))"

text \<open>
  Modelled from the spec: the schema of SystemPromptVersion is missing; the identifier
  is the primary key (a version names its prompt by key, with no constraint modelled).
\<close>

definition systemPromptVersion_create :: "SystemPromptVersion \<Rightarrow> sqlite \<Rightarrow> error + sqlite" where
  "systemPromptVersion_create r d =
     (if v_id r \<in> set (map v_id (systemPromptVersion d)) then Inl UniqueConstraintFailed
      else Inr (d\<lparr>systemPromptVersion := systemPromptVersion d @ [r]\<rparr>))"

text \<open>
  Modelled from the spec: the schema of the junction table is missing; its identity is
  the pair of foreign keys, and both reference existing rows.
\<close>

definition passageSetTextbook_create :: "PassageSetTextbook \<Rightarrow> sqlite \<Rightarrow> error + sqlite" where
  "passageSetTextbook_create r d =
     (if r \<in> set (passageSetTextbook d) then Inl UniqueConstraintFailed
      else if l_textbookId r \<notin> set (map t_id (textbook d)) then Inl ForeignKeyConstraintFailed
      else if l_passageSetId r \<notin> set (map p_id (passageSet d)) then Inl ForeignKeyConstraintFailed
      else Inr (d\<lparr>passageSetTextbook := passageSetTextbook d @ [r]\<rparr>))"

subsection \<open>The migrator\<close>

text \<open>
  The libraries the script calls: \<open>uuidv4 lib n\<close> is what the \<open>n\<close>-th call of
  \<^verbatim>\<open>uuidv4()\<close> of the run returns, \<open>JSON_stringify\<close> is \<^verbatim>\<open>JSON.stringify\<close> on an
  array of strings.
\<close>

record lib =
  uuidv4 :: "nat \<Rightarrow> string"
  JSON_stringify :: "string list \<Rightarrow> string"

text \<open>
  What the run meets outside the two databases' contents: whether
  \<^verbatim>\<open>mongoClient.connect()\<close> and \<^verbatim>\<open>prisma.$connect()\<close> succeed, and whether the
  JSON dump of \<^verbatim>\<open>backupExistingData\<close> can be written.
\<close>

record world =
  mongo_connects :: bool
  prisma_connects :: bool
  backup_writes :: bool

record MigrationConfig =
  backup_enabled :: bool

text \<open>
  The fields of \<^verbatim>\<open>MongoToSQLiteMigrator\<close> that change during a run: the map
  \<^verbatim>\<open>idMapping\<close>, the target store behind \<^verbatim>\<open>prisma\<close>, and the number of
  \<^verbatim>\<open>uuidv4()\<close> calls made so far.
\<close>

record migrator =
  idMapping :: "string \<rightharpoonup> string"
  uuid_calls :: nat
  prisma :: sqlite

definition new_migrator :: "sqlite \<Rightarrow> migrator" where
  "new_migrator d = \<lparr>idMapping = Map.empty, uuid_calls = 0, prisma = d\<rparr>"

text \<open>
  \<^verbatim>\<open>this.idMapping.get(sourceId)\<close>, the lookup by which the script resolves a source
  identifier: the entry of the map, the migrator being left as it is.
\<close>

definition idMapping_get :: "string \<Rightarrow> migrator \<Rightarrow> string option \<times> migrator" where
  "idMapping_get sourceId st = (idMapping st sourceId, st)"

definition setupConnections :: "world \<Rightarrow> migrator \<Rightarrow> error + migrator" where
  "setupConnections w st =
     (if \<not> mongo_connects w then Inl MongoConnectError
      else if \<not> prisma_connects w then Inl PrismaConnectError
      else Inr st)"

definition backupExistingData :: "world \<Rightarrow> migrator \<Rightarrow> error + migrator" where
  "backupExistingData w st = (if backup_writes w then Inr st else Inl BackupWriteError)"

definition initializeSQLite :: "migrator \<Rightarrow> error + migrator" where
  "initializeSQLite st = Inr st"

fun migrateTextbooks_loop :: "lib \<Rightarrow> MongoTextbook list \<Rightarrow> migrator \<Rightarrow> error + migrator" where
  "migrateTextbooks_loop lb [] st = Inr st"
| "migrateTextbooks_loop lb (tb # rest) st =
     (let newId = uuidv4 lb (uuid_calls st);
          st1 = st\<lparr>uuid_calls := Suc (uuid_calls st),
                    idMapping := (idMapping st)(mt_id tb \<mapsto> newId)\<rparr>
      in case textbook_create
                \<lparr>t_id = newId, t_title = mt_title tb, t_publisher = mt_publisher tb,
                 t_subject = mt_subject tb, t_level = mt_level tb,
                 t_grade = mt_grade tb, t_createdAt = mt_createdAt tb,
                 t_updatedAt = mt_updatedAt tb\<rparr> (prisma st1) of
           Inl e \<Rightarrow> Inl e
         | Inr d \<Rightarrow> migrateTextbooks_loop lb rest (st1\<lparr>prisma := d\<rparr>))"

definition migrateTextbooks :: "lib \<Rightarrow> mongo \<Rightarrow> migrator \<Rightarrow> error + migrator" where
  "migrateTextbooks lb m st = migrateTextbooks_loop lb (textbooks m) st"

fun migratePassageSets_loop :: "lib \<Rightarrow> MongoPassageSet list \<Rightarrow> migrator \<Rightarrow> error + migrator" where
  "migratePassageSets_loop lb [] st = Inr st"
| "migratePassageSets_loop lb (ps # rest) st =
     (let newId = uuidv4 lb (uuid_calls st);
          st1 = st\<lparr>uuid_calls := Suc (uuid_calls st),
                    idMapping := (idMapping st)(mp_id ps \<mapsto> newId)\<rparr>
      in case passageSet_create
                \<lparr>p_id = newId, p_title = mp_title ps, p_passage = mp_passage ps,
                 p_passageComment = mp_passageComment ps,
                 p_qrCode = mp_qrCode ps, p_createdAt = mp_createdAt ps,
                 p_updatedAt = mp_updatedAt ps\<rparr> (prisma st1) of
           Inl e \<Rightarrow> Inl e
         | Inr d \<Rightarrow> migratePassageSets_loop lb rest (st1\<lparr>prisma := d\<rparr>))"

definition migratePassageSets :: "lib \<Rightarrow> mongo \<Rightarrow> migrator \<Rightarrow> error + migrator" where
  "migratePassageSets lb m st = migratePassageSets_loop lb (passagesets m) st"

text \<open>
  \<^verbatim>\<open>if (!passageSetId)\<close> is JavaScript's truthiness test on the result of
  \<^verbatim>\<open>idMapping.get\<close>: \<^verbatim>\<open>undefined\<close> and the empty string are falsy.
\<close>

definition falsy :: "string option \<Rightarrow> bool" where
  "falsy r = (case r of None \<Rightarrow> True | Some s \<Rightarrow> s = [])"

fun migrateQuestions_loop :: "lib \<Rightarrow> MongoQuestion list \<Rightarrow> migrator \<Rightarrow> error + migrator" where
  "migrateQuestions_loop lb [] st = Inr st"
| "migrateQuestions_loop lb (q # rest) st =
     (let newId = uuidv4 lb (uuid_calls st);
          st1 = st\<lparr>uuid_calls := Suc (uuid_calls st)\<rparr>;
          passageSetId = idMapping st1 (mq_setId q)
      in if falsy passageSetId then migrateQuestions_loop lb rest st1
         else case question_create
                \<lparr>q_id = newId, q_setId = the passageSetId,
                 q_questionNumber = mq_questionNumber q,
                 q_questionText = mq_questionText q,
                 q_optionsJson = JSON_stringify lb (mq_options q),
                 q_correctAnswer = mq_correctAnswer q,
                 q_explanation = mq_explanation q,
                 q_createdAt = mq_createdAt q,
                 q_updatedAt = mq_updatedAt q\<rparr> (prisma st1) of
           Inl e \<Rightarrow> Inl e
         | Inr d \<Rightarrow> migrateQuestions_loop lb rest (st1\<lparr>prisma := d\<rparr>))"

definition migrateQuestions :: "lib \<Rightarrow> mongo \<Rightarrow> migrator \<Rightarrow> error + migrator" where
  "migrateQuestions lb m st = migrateQuestions_loop lb (questions m) st"

fun migrateSystemPrompts_loop :: "lib \<Rightarrow> MongoSystemPrompt list \<Rightarrow> migrator \<Rightarrow> error + migrator" where
  "migrateSystemPrompts_loop lb [] st = Inr st"
| "migrateSystemPrompts_loop lb (prompt # rest) st =
     (let newId = uuidv4 lb (uuid_calls st);
          st1 = st\<lparr>uuid_calls := Suc (uuid_calls st)\<rparr>
      in case systemPrompt_create
                \<lparr>s_id = newId, s_key = ms_key prompt, s_name = ms_name prompt,
                 s_description = ms_description prompt, s_content = ms_content prompt,
                 s_isActive = ms_isActive prompt, s_version = ms_version prompt,
                 s_createdAt = ms_createdAt prompt, s_updatedAt = ms_updatedAt prompt\<rparr>
                (prisma st1) of
           Inl e \<Rightarrow> Inl e
         | Inr d \<Rightarrow> migrateSystemPrompts_loop lb rest (st1\<lparr>prisma := d\<rparr>))"

definition migrateSystemPrompts :: "lib \<Rightarrow> mongo \<Rightarrow> migrator \<Rightarrow> error + migrator" where
  "migrateSystemPrompts lb m st = migrateSystemPrompts_loop lb (systemprompts m) st"

fun migrateSystemPromptVersions_loop ::
  "lib \<Rightarrow> MongoSystemPromptVersion list \<Rightarrow> migrator \<Rightarrow> error + migrator" where
  "migrateSystemPromptVersions_loop lb [] st = Inr st"
| "migrateSystemPromptVersions_loop lb (version # rest) st =
     (let newId = uuidv4 lb (uuid_calls st);
          st1 = st\<lparr>uuid_calls := Suc (uuid_calls st)\<rparr>
      in case systemPromptVersion_create
                \<lparr>v_id = newId, v_promptKey = mv_promptKey version,
                 v_content = mv_content version, v_version = mv_version version,
                 v_description = mv_description version, v_createdBy = mv_createdBy version,
                 v_createdAt = mv_createdAt version\<rparr> (prisma st1) of
           Inl e \<Rightarrow> Inl e
         | Inr d \<Rightarrow> migrateSystemPromptVersions_loop lb rest (st1\<lparr>prisma := d\<rparr>))"

definition migrateSystemPromptVersions :: "lib \<Rightarrow> mongo \<Rightarrow> migrator \<Rightarrow> error + migrator" where
  "migrateSystemPromptVersions lb m st =
     migrateSystemPromptVersions_loop lb (systemprompversions m) st"

text \<open>
  \<^verbatim>\<open>establishRelationships\<close>: the inner loop over \<^verbatim>\<open>passageSet.textbooks\<close>, with the
  \<^verbatim>\<open>try\<close>/\<^verbatim>\<open>catch\<close> around the junction insert (any error of the insert is caught
  and the pair is skipped), then the outer loop over the passage sets. The local counter
  \<^verbatim>\<open>relationCount\<close> is only printed and is left out.
\<close>

fun link_textbooks :: "string \<Rightarrow> string list \<Rightarrow> migrator \<Rightarrow> migrator" where
  "link_textbooks passageSetId [] st = st"
| "link_textbooks passageSetId (textbookObjectId # rest) st =
     (let textbookId = idMapping st textbookObjectId
      in if falsy textbookId then link_textbooks passageSetId rest st
         else case passageSetTextbook_create
                \<lparr>l_textbookId = the textbookId, l_passageSetId = passageSetId\<rparr> (prisma st) of
           Inl e \<Rightarrow> link_textbooks passageSetId rest st
         | Inr d \<Rightarrow> link_textbooks passageSetId rest (st\<lparr>prisma := d\<rparr>))"

fun establishRelationships_loop :: "MongoPassageSet list \<Rightarrow> migrator \<Rightarrow> migrator" where
  "establishRelationships_loop [] st = st"
| "establishRelationships_loop (ps # rest) st =
     (let passageSetId = idMapping st (mp_id ps)
      in if falsy passageSetId then establishRelationships_loop rest st
         else establishRelationships_loop rest
                (link_textbooks (the passageSetId) (mp_textbooks ps) st))"

definition establishRelationships :: "mongo \<Rightarrow> migrator \<Rightarrow> error + migrator" where
  "establishRelationships m st = Inr (establishRelationships_loop (passagesets m) st)"

definition verifyMigration :: "mongo \<Rightarrow> migrator \<Rightarrow> error + migrator" where
  "verifyMigration m st =
     (if length (textbooks m) \<noteq> length (textbook (prisma st)) \<or>
         length (passagesets m) \<noteq> length (passageSet (prisma st)) \<or>
         length (questions m) \<noteq> length (question (prisma st)) \<or>
         length (systemprompts m) \<noteq> length (systemPrompt (prisma st))
      then Inl CountMismatch
      else Inr st)"

text \<open>
  \<^verbatim>\<open>migrate\<close>: the steps in the order of the \<^verbatim>\<open>try\<close> block. The \<^verbatim>\<open>catch\<close> logs
  and rethrows, the \<^verbatim>\<open>finally\<close> closes the two connections; neither changes the
  result. \<open>import_entities\<close> is steps 4 (the five entity kinds), \<open>before_verify\<close> steps
  1 to 5.
\<close>

definition import_entities :: "lib \<Rightarrow> mongo \<Rightarrow> migrator \<Rightarrow> error + migrator" where
  "import_entities lb m st =
     thenE (migrateTextbooks lb m st) (\<lambda>st.
     thenE (migratePassageSets lb m st) (\<lambda>st.
     thenE (migrateQuestions lb m st) (\<lambda>st.
     thenE (migrateSystemPrompts lb m st) (\<lambda>st.
     migrateSystemPromptVersions lb m st))))"

definition before_verify ::
  "lib \<Rightarrow> world \<Rightarrow> MigrationConfig \<Rightarrow> mongo \<Rightarrow> migrator \<Rightarrow> error + migrator" where
  "before_verify lb w config m st =
     thenE (setupConnections w st) (\<lambda>st.
     thenE (if backup_enabled config then backupExistingData w st else Inr st) (\<lambda>st.
     thenE (initializeSQLite st) (\<lambda>st.
     thenE (import_entities lb m st) (\<lambda>st.
     establishRelationships m st))))"

definition migrate ::
  "lib \<Rightarrow> world \<Rightarrow> MigrationConfig \<Rightarrow> mongo \<Rightarrow> migrator \<Rightarrow> error + migrator" where
  "migrate lb w config m st = thenE (before_verify lb w config m st) (verifyMigration m)"

text \<open>
  The entry point: \<^verbatim>\<open>main().catch(console.error)\<close>. A rejection of \<^verbatim>\<open>main()\<close> is
  handled by printing the error; nothing sets an exit code, so the process ends with
  status 0 on both paths.
\<close>

record process_result =
  exit_code :: nat
  stderr :: "error list"

definition main_config :: MigrationConfig where
  "main_config = \<lparr>backup_enabled = True\<rparr>"

definition main :: "lib \<Rightarrow> world \<Rightarrow> mongo \<Rightarrow> sqlite \<Rightarrow> process_result" where
  "main lb w m d =
     (case migrate lb w main_config m (new_migrator d) of
        Inl e \<Rightarrow> \<lparr>exit_code = 0, stderr = [e]\<rparr>
      | Inr st \<Rightarrow> \<lparr>exit_code = 0, stderr = []\<rparr>)"

subsection \<open>One iteration of each loop, and two invariants\<close>

text \<open>
  The state after one iteration of the textbook, passage set and question loops when the
  insert succeeds: the assignments of the loop body, with the row appended.
\<close>

definition textbook_step :: "lib \<Rightarrow> MongoTextbook \<Rightarrow> migrator \<Rightarrow> migrator" where
  "textbook_step lb tb st =
     st\<lparr>uuid_calls := Suc (uuid_calls st),
        idMapping := (idMapping st)(mt_id tb \<mapsto> uuidv4 lb (uuid_calls st)),
        prisma := (prisma st)\<lparr>textbook := textbook (prisma st) @
          [\<lparr>t_id = uuidv4 lb (uuid_calls st), t_title = mt_title tb,
            t_publisher = mt_publisher tb, t_subject = mt_subject tb, t_level = mt_level tb,
            t_grade = mt_grade tb, t_createdAt = mt_createdAt tb,
            t_updatedAt = mt_updatedAt tb\<rparr>]\<rparr>\<rparr>"

definition passageSet_step :: "lib \<Rightarrow> MongoPassageSet \<Rightarrow> migrator \<Rightarrow> migrator" where
  "passageSet_step lb ps st =
     st\<lparr>uuid_calls := Suc (uuid_calls st),
        idMapping := (idMapping st)(mp_id ps \<mapsto> uuidv4 lb (uuid_calls st)),
        prisma := (prisma st)\<lparr>passageSet := passageSet (prisma st) @
          [\<lparr>p_id = uuidv4 lb (uuid_calls st), p_title = mp_title ps, p_passage = mp_passage ps,
            p_passageComment = mp_passageComment ps, p_qrCode = mp_qrCode ps,
            p_createdAt = mp_createdAt ps, p_updatedAt = mp_updatedAt ps\<rparr>]\<rparr>\<rparr>"

definition question_step :: "lib \<Rightarrow> MongoQuestion \<Rightarrow> migrator \<Rightarrow> migrator" where
  "question_step lb q st =
     st\<lparr>uuid_calls := Suc (uuid_calls st),
        prisma := (prisma st)\<lparr>question := question (prisma st) @
          [\<lparr>q_id = uuidv4 lb (uuid_calls st), q_setId = the (idMapping st (mq_setId q)),
            q_questionNumber = mq_questionNumber q, q_questionText = mq_questionText q,
            q_optionsJson = JSON_stringify lb (mq_options q),
            q_correctAnswer = mq_correctAnswer q, q_explanation = mq_explanation q,
            q_createdAt = mq_createdAt q, q_updatedAt = mq_updatedAt q\<rparr>]\<rparr>\<rparr>"

text \<open>
  One iteration of the inner and of the outer loop of \<^verbatim>\<open>establishRelationships\<close>;
  the loops are folds of them.
\<close>

definition link_step :: "string \<Rightarrow> string \<Rightarrow> migrator \<Rightarrow> migrator" where
  "link_step passageSetId textbookObjectId st =
     (if falsy (idMapping st textbookObjectId) then st
      else case passageSetTextbook_create
                  \<lparr>l_textbookId = the (idMapping st textbookObjectId),
                   l_passageSetId = passageSetId\<rparr> (prisma st) of
             Inl e \<Rightarrow> st
           | Inr d \<Rightarrow> st\<lparr>prisma := d\<rparr>)"

definition passageSet_links :: "MongoPassageSet \<Rightarrow> migrator \<Rightarrow> migrator" where
  "passageSet_links ps st =
     (if falsy (idMapping st (mp_id ps)) then st
      else link_textbooks (the (idMapping st (mp_id ps))) (mp_textbooks ps) st)"

text \<open>
  Invariant of the identifier map: every target identifier in it was returned by one of
  the \<^verbatim>\<open>uuidv4()\<close> calls made so far, and no two source identifiers map to the same
  target identifier.
\<close>

definition mapping_inv :: "lib \<Rightarrow> migrator \<Rightarrow> bool" where
  "mapping_inv lb st =
     ((\<forall>k v. idMapping st k = Some v \<longrightarrow> (\<exists>j<uuid_calls st. v = uuidv4 lb j)) \<and>
      (\<forall>k k' v. idMapping st k = Some v \<longrightarrow> idMapping st k' = Some v \<longrightarrow> k = k'))"

text \<open>
  What the relationship step leaves alone (the map, the entity tables), and what it
  keeps of the junction table (its rows, and that no pair occurs twice).
\<close>

definition same_entities :: "migrator \<Rightarrow> migrator \<Rightarrow> bool" where
  "same_entities st st' =
     (idMapping st' = idMapping st \<and> uuid_calls st' = uuid_calls st \<and>
      textbook (prisma st') = textbook (prisma st) \<and>
      passageSet (prisma st') = passageSet (prisma st) \<and>
      question (prisma st') = question (prisma st) \<and>
      systemPrompt (prisma st') = systemPrompt (prisma st) \<and>
      systemPromptVersion (prisma st') = systemPromptVersion (prisma st) \<and>
      set (passageSetTextbook (prisma st)) \<subseteq> set (passageSetTextbook (prisma st')) \<and>
      (distinct (passageSetTextbook (prisma st)) \<longrightarrow>
         distinct (passageSetTextbook (prisma st'))))"

section \<open>The backup script (scripts/backup-restore.sh)\<close>

subsection \<open>Configuration, shell state and external tools\<close>

definition PROJECT_NAME :: string where
  "PROJECT_NAME = ''edutech-chatbot''"

definition PROJECT_PATH :: string where
  "PROJECT_PATH = ''/var/www/'' @ PROJECT_NAME"

definition BACKUP_BASE_PATH :: string where
  "BACKUP_BASE_PATH = ''/var/backups/'' @ PROJECT_NAME"

definition DATABASE_PATH :: string where
  "DATABASE_PATH = PROJECT_PATH @ ''/data/edutech.db''"

definition FILES_PATH :: string where
  "FILES_PATH = PROJECT_PATH @ ''/data/files''"

definition MAX_LOCAL_BACKUPS :: nat where
  "MAX_LOCAL_BACKUPS = 30"

definition MAX_CLOUD_BACKUPS :: nat where
  "MAX_CLOUD_BACKUPS = 90"

text \<open>
  What the script prints: a line of \<^verbatim>\<open>log_info\<close>, \<^verbatim>\<open>log_success\<close>,
  \<^verbatim>\<open>log_warning\<close> or \<^verbatim>\<open>log_error\<close> (all four write to standard output), or a
  plain \<^verbatim>\<open>echo\<close>.
\<close>

datatype level = INFO | SUCCESS | WARNING | ERROR

datatype line = Log level string | Echo string

text \<open>
  How a shell function ends: it returns a status to its caller, or the shell that runs it
  exits (an \<^verbatim>\<open>exit\<close>, or a failing command under \<^verbatim>\<open>set -e\<close>).
\<close>

datatype outcome = Return nat | Exit nat

text \<open>
  The file system as the restore and backup functions see it: regular files by path
  (what \<^verbatim>\<open>[[ -f p ]]\<close> tests), directories of file assets by path (what
  \<^verbatim>\<open>[[ -d p ]]\<close> tests) with their content as a list of relative names and file
  contents, and the lines printed so far (\<open>console\<close>). Paths are compared as strings.
\<close>

type_synonym tree = "(string \<times> string) list"

record console =
  stdout :: "line list"

record sh = console +
  files :: "string \<rightharpoonup> string"
  dirs :: "string \<rightharpoonup> tree"

text \<open>
  The programs the script runs. Each is a function of the file it works on (\<open>None\<close>: no
  such file), so that the theorems hold for whatever these programs do:
  \<open>integrity_check\<close> is the standard output of
  \<^verbatim>\<open>sqlite3 FILE "PRAGMA integrity_check;"\<close>; \<open>wal_checkpoint\<close>, \<open>dot_backup\<close> and
  \<open>db_push\<close> give the exit status of \<^verbatim>\<open>sqlite3 DB "PRAGMA wal_checkpoint(FULL);"\<close>,
  of \<^verbatim>\<open>sqlite3 DB ".backup 'COPY'"\<close> and of \<^verbatim>\<open>npx prisma db push\<close> together with
  the file they leave (the database for the first and the last, the copy for the second,
  \<open>None\<close> there meaning that no copy was written); \<open>wal_checkpoint_out\<close> is the
  standard output of the checkpoint command, which prints its result row (such as
  \<^verbatim>\<open>0|0|0\<close>) and which the script does not redirect; \<open>untar\<close> decodes an archive
  into its top-level directory name and content (\<open>None\<close>: not a readable archive).
  \<^verbatim>\<open>pm2 stop\<close> and \<^verbatim>\<open>pm2 start\<close> are run with \<^verbatim>\<open>|| true\<close> and touch no file
  of this model; they are left out.
\<close>

record tools =
  integrity_check :: "string option \<Rightarrow> string"
  wal_checkpoint :: "string option \<Rightarrow> nat \<times> string option"
  wal_checkpoint_out :: "string option \<Rightarrow> string list"
  dot_backup :: "string option \<Rightarrow> nat \<times> string option"
  db_push :: "string option \<Rightarrow> nat \<times> string option"
  untar :: "string \<Rightarrow> (string \<times> tree) option"

definition log :: "level \<Rightarrow> string \<Rightarrow> 'a console_scheme \<Rightarrow> 'a console_scheme" where
  "log l msg s = s\<lparr>stdout := stdout s @ [Log l msg]\<rparr>"

definition echo :: "string \<Rightarrow> 'a console_scheme \<Rightarrow> 'a console_scheme" where
  "echo msg s = s\<lparr>stdout := stdout s @ [Echo msg]\<rparr>"

text \<open>
  \<^verbatim>\<open>cp SRC DST\<close> for a regular file: status 1 and no change when the source is not
  a regular file, otherwise the destination holds the source's content (the script's
  destinations are file names, never existing directories). \<^verbatim>\<open>rm -f\<close> removes a
  regular file and succeeds also when there is none.
\<close>

definition cp :: "string \<Rightarrow> string \<Rightarrow> sh \<Rightarrow> nat \<times> sh" where
  "cp src dst s =
     (case files s src of
        None \<Rightarrow> (1, s)
      | Some c \<Rightarrow> (0, s\<lparr>files := (files s)(dst \<mapsto> c)\<rparr>))"

definition rm_f :: "string \<Rightarrow> sh \<Rightarrow> sh" where
  "rm_f p s = s\<lparr>files := (files s)(p := None)\<rparr>"

text \<open>
  \<^verbatim>\<open>grep -q PATTERN\<close> for a pattern without a newline: the pattern occurs somewhere
  in the input. The script's consistency check is this test with the pattern \<open>ok\<close> on
  what \<^verbatim>\<open>sqlite3\<close> prints, so it passes for every report in which the letters \<open>ok\<close>
  occur, not only for the report \<open>ok\<close>; the properties below are about this test.
\<close>

fun starts_with :: "string \<Rightarrow> string \<Rightarrow> bool" where
  "starts_with [] s = True"
| "starts_with (p # ps) [] = False"
| "starts_with (p # ps) (c # cs) = (p = c \<and> starts_with ps cs)"

fun grep_q :: "string \<Rightarrow> string \<Rightarrow> bool" where
  "grep_q pat [] = (pat = [])"
| "grep_q pat (c # cs) = (starts_with pat (c # cs) \<or> grep_q pat cs)"

definition integrity_ok :: "tools \<Rightarrow> string option \<Rightarrow> bool" where
  "integrity_ok T f = grep_q ''ok'' (integrity_check T f)"

subsection \<open>Backup and restore of the database and the files\<close>

definition database_backup_path :: "string \<Rightarrow> string" where
  "database_backup_path backup_name = BACKUP_BASE_PATH @ ''/database/'' @ backup_name @ ''.db''"

definition files_backup_path :: "string \<Rightarrow> string" where
  "files_backup_path backup_name = BACKUP_BASE_PATH @ ''/files/'' @ backup_name @ ''.tar.gz''"

definition pre_restore_path :: "string \<Rightarrow> string \<Rightarrow> string" where
  "pre_restore_path p ts = p @ ''.pre-restore-'' @ ts"

text \<open>
  \<^verbatim>\<open>backup_database\<close>. The script calls it only inside command substitutions
  (\<^verbatim>\<open>backup_path=$(backup_database ...)\<close>, \<^verbatim>\<open>local db_backup=$(backup_database ...)\<close>),
  where bash turns \<^verbatim>\<open>set -e\<close> off; \<open>errexit\<close> says whether \<^verbatim>\<open>set -e\<close> is in
  force, so both readings are covered. Its \<^verbatim>\<open>exit 1\<close> ends the shell that runs it.
  What it prints goes to its standard output: the lines of \<^verbatim>\<open>log_info\<close>,
  \<^verbatim>\<open>log_success\<close> and \<^verbatim>\<open>log_error\<close>, the result row of the checkpoint, and the
  path of the copy.
\<close>

definition backup_database :: "bool \<Rightarrow> tools \<Rightarrow> string \<Rightarrow> sh \<Rightarrow> outcome \<times> sh" where
  "backup_database errexit T backup_name s =
     (let backup_path = database_backup_path backup_name;
          s1 = log INFO (''Creating database backup: '' @ backup_name) s;
          checkpoint = wal_checkpoint T (files s1 DATABASE_PATH);
          s2 = s1\<lparr>stdout := stdout s1 @ map Echo (wal_checkpoint_out T (files s1 DATABASE_PATH)),
                  files := (files s1)(DATABASE_PATH := snd checkpoint)\<rparr>
      in if errexit \<and> fst checkpoint \<noteq> 0 then (Exit (fst checkpoint), s2)
         else
           let copy = dot_backup T (files s2 DATABASE_PATH);
               s3 = (case snd copy of
                       None \<Rightarrow> s2
                     | Some c \<Rightarrow> s2\<lparr>files := (files s2)(backup_path \<mapsto> c)\<rparr>)
           in if errexit \<and> fst copy \<noteq> 0 then (Exit (fst copy), s3)
              else if integrity_ok T (files s3 backup_path)
              then (Return 0,
                    echo backup_path
                      (log SUCCESS (''Database backup verified: '' @ backup_name @ ''.db'') s3))
              else (Exit 1,
                    rm_f backup_path (log ERROR ''Database backup integrity check failed'' s3)))"

text \<open>
  For \<^verbatim>\<open>backup_database\<close>: the file at the backup path once the checkpoint and the
  \<^verbatim>\<open>.backup\<close> command have run, and whether the function gets as far as its check
  (always without \<^verbatim>\<open>set -e\<close>; with it, only when both commands succeed).
\<close>

definition copy_produced :: "tools \<Rightarrow> string \<Rightarrow> sh \<Rightarrow> string option" where
  "copy_produced T backup_name s =
     (case snd (dot_backup T (snd (wal_checkpoint T (files s DATABASE_PATH)))) of
        None \<Rightarrow> files s (database_backup_path backup_name)
      | Some c \<Rightarrow> Some c)"

definition reaches_check :: "bool \<Rightarrow> tools \<Rightarrow> sh \<Rightarrow> bool" where
  "reaches_check errexit T s =
     (errexit \<longrightarrow>
        fst (wal_checkpoint T (files s DATABASE_PATH)) = 0 \<and>
        fst (dot_backup T (snd (wal_checkpoint T (files s DATABASE_PATH)))) = 0)"

text \<open>
  \<^verbatim>\<open>restore_database\<close>, called from \<^verbatim>\<open>main\<close> as a plain command, so with
  \<^verbatim>\<open>set -e\<close> in force: a failing \<^verbatim>\<open>cp\<close> ends the script with its status. \<open>ts\<close> is
  what \<^verbatim>\<open>date +%Y%m%d_%H%M%S\<close> prints.
\<close>

definition restore_database :: "tools \<Rightarrow> string \<Rightarrow> string \<Rightarrow> sh \<Rightarrow> outcome \<times> sh" where
  "restore_database T ts backup_name s =
     (let backup_path = database_backup_path backup_name
      in if files s backup_path = None
         then (Return 1, log ERROR (''Database backup not found: '' @ backup_path) s)
         else
           let s1 = log INFO (''Restoring database from: '' @ backup_name) s;
               current_backup = pre_restore_path DATABASE_PATH ts;
               saved = cp DATABASE_PATH current_backup s1
           in if fst saved \<noteq> 0 then (Exit (fst saved), snd saved)
              else
                let s2 = log INFO (''Current database backed up to: '' @ current_backup) (snd saved);
                    restored = cp backup_path DATABASE_PATH s2
                in if fst restored \<noteq> 0 then (Exit (fst restored), snd restored)
                   else
                     let s3 = snd restored
                     in if integrity_ok T (files s3 DATABASE_PATH)
                        then
                          let s4 = log SUCCESS ''Database restored successfully'' s3
                          in if files s4 (PROJECT_PATH @ ''/prisma/schema.prisma'') \<noteq> None
                             then
                               let pushed = db_push T (files s4 DATABASE_PATH);
                                   s5 = s4\<lparr>files := (files s4)(DATABASE_PATH := snd pushed)\<rparr>
                               in if fst pushed \<noteq> 0
                                  then (Return 0, log WARNING ''Schema update failed'' s5)
                                  else (Return 0, s5)
                             else (Return 0, s4)
                        else
                          let s4 = log ERROR
                                     ''Restored database integrity check failed, rolling back...'' s3;
                              rolled = cp current_backup DATABASE_PATH s4
                          in if fst rolled \<noteq> 0 then (Exit (fst rolled), snd rolled)
                             else (Return 1, snd rolled))"

text \<open>
  \<^verbatim>\<open>restore_files\<close>, also under \<^verbatim>\<open>set -e\<close>. \<^verbatim>\<open>mv\<close> renames the directory;
  \<^verbatim>\<open>mkdir -p\<close> of the parent changes nothing here; \<^verbatim>\<open>tar -xzf ... -C parent\<close>
  writes the archive's top-level directory below the parent, over what is there.
\<close>

definition merge_tree :: "tree option \<Rightarrow> tree \<Rightarrow> tree" where
  "merge_tree old new =
     (case old of
        None \<Rightarrow> new
      | Some t \<Rightarrow> new @ filter (\<lambda>e. fst e \<notin> set (map fst new)) t)"

definition mv_dir :: "string \<Rightarrow> string \<Rightarrow> sh \<Rightarrow> sh" where
  "mv_dir src dst s = s\<lparr>dirs := ((dirs s)(dst := dirs s src))(src := None)\<rparr>"

definition tar_xzf :: "tools \<Rightarrow> string \<Rightarrow> string \<Rightarrow> sh \<Rightarrow> nat \<times> sh" where
  "tar_xzf T archive parent s =
     (case untar T archive of
        None \<Rightarrow> (2, s)
      | Some e \<Rightarrow>
          (0, s\<lparr>dirs := (dirs s)(parent @ ''/'' @ fst e :=
                           Some (merge_tree (dirs s (parent @ ''/'' @ fst e)) (snd e)))\<rparr>))"

definition restore_files :: "tools \<Rightarrow> string \<Rightarrow> string \<Rightarrow> sh \<Rightarrow> outcome \<times> sh" where
  "restore_files T ts backup_name s =
     (let backup_path = files_backup_path backup_name
      in case files s backup_path of
           None \<Rightarrow> (Return 1, log ERROR (''Files backup not found: '' @ backup_path) s)
         | Some archive \<Rightarrow>
             let s1 = log INFO (''Restoring files from: '' @ backup_name) s;
                 current_backup = pre_restore_path FILES_PATH ts;
                 s2 = (if dirs s1 FILES_PATH \<noteq> None
                       then log INFO (''Current files backed up to: '' @ current_backup)
                              (mv_dir FILES_PATH current_backup s1)
                       else s1);
                 extracted = tar_xzf T archive (PROJECT_PATH @ ''/data'') s2
             in if fst extracted \<noteq> 0 then (Exit (fst extracted), snd extracted)
                else (Return 0, log SUCCESS ''Files restored successfully'' (snd extracted)))"

text \<open>
  The \<^verbatim>\<open>restore\<close> case of \<^verbatim>\<open>main\<close>. \<open>args\<close> are the words after \<^verbatim>\<open>restore\<close>;
  the last of \<^verbatim>\<open>--db-only\<close> and \<^verbatim>\<open>--files-only\<close> decides the scope, which starts
  as full. Under \<^verbatim>\<open>set -e\<close> a function that returns a non-zero status ends the script
  with that status (\<open>errexit_call\<close>); \<open>ts1\<close> and \<open>ts2\<close> are the two readings of
  \<^verbatim>\<open>date\<close>.
\<close>

datatype restore_type = RestoreFull | RestoreDatabase | RestoreFiles

fun parse_restore_type :: "restore_type \<Rightarrow> string list \<Rightarrow> restore_type" where
  "parse_restore_type rt [] = rt"
| "parse_restore_type rt (a # as) =
     (if a = ''--db-only'' then parse_restore_type RestoreDatabase as
      else if a = ''--files-only'' then parse_restore_type RestoreFiles as
      else parse_restore_type rt as)"

definition errexit_call :: "outcome \<times> sh \<Rightarrow> outcome \<times> sh" where
  "errexit_call r =
     (case fst r of
        Return n \<Rightarrow> (if n = 0 then r else (Exit n, snd r))
      | Exit n \<Rightarrow> r)"

definition main_restore :: "tools \<Rightarrow> string \<Rightarrow> string \<Rightarrow> string list \<Rightarrow> sh \<Rightarrow> outcome \<times> sh" where
  "main_restore T ts1 ts2 args s =
     (case args of
        [] \<Rightarrow> (Exit 1, log ERROR ''Please specify backup name'' s)
      | backup_name # flags \<Rightarrow>
          (case parse_restore_type RestoreFull flags of
             RestoreDatabase \<Rightarrow> errexit_call (restore_database T ts1 backup_name s)
           | RestoreFiles \<Rightarrow> errexit_call (restore_files T ts1 backup_name s)
           | RestoreFull \<Rightarrow>
               (let r = errexit_call (restore_database T ts1 backup_name s)
                in case fst r of
                     Exit n \<Rightarrow> r
                   | Return n \<Rightarrow> errexit_call (restore_files T ts2 backup_name (snd r)))))"

text \<open>The status the script ends with: \<^verbatim>\<open>main "$@"\<close> is its last command.\<close>

definition exit_status :: "outcome \<times> sh \<Rightarrow> nat" where
  "exit_status r = (case fst r of Return n \<Rightarrow> n | Exit n \<Rightarrow> n)"

subsection \<open>Cleanup\<close>

text \<open>
  What \<^verbatim>\<open>cleanup_backups\<close> works on: the backup directories by path, each with its
  entries (\<open>None\<close>: the directory does not exist), and the objects below
  \<^verbatim>\<open>CLOUD_BACKUP_PATH\<close> as pairs of the date and time and the key that
  \<^verbatim>\<open>aws s3 ls --recursive\<close> prints (\<open>None\<close>: \<^verbatim>\<open>aws\<close> is not installed or the listing
  fails). An entry has a name, a modification time and a kind: the script writes regular
  files into \<^verbatim>\<open>database\<close> and \<^verbatim>\<open>files\<close>, and \<^verbatim>\<open>backup_full\<close> makes a staging
  directory \<^verbatim>\<open>full/NAME\<close> that it removes only once the archive \<^verbatim>\<open>full/NAME.tar.gz\<close>
  is written.
\<close>

datatype kind = RegularFile | Directory

record entry =
  e_name :: string
  e_mtime :: nat
  e_kind :: kind

record backups = console +
  local_dirs :: "string \<rightharpoonup> entry list"
  cloud :: "(string \<times> string) list option"

text \<open>
  \<^verbatim>\<open>ls -t DIR\<close>: the names that do not start with a dot, newest first, equal times in
  the order of the names. \<^verbatim>\<open>tail -n +K\<close> drops the first \<open>K - 1\<close> lines.
\<close>

definition ls_t :: "entry list \<Rightarrow> string list" where
  "ls_t es = map e_name (sort_key (\<lambda>e. (- int (e_mtime e), e_name e))
                           (filter (\<lambda>e. \<not> starts_with ''.'' (e_name e)) es))"

text \<open>
  \<^verbatim>\<open>for backup in $old_backups\<close>: the captured lines, unquoted, are split into words
  at blanks, tabs and newlines. (The words would also undergo pathname expansion, which
  leaves a word without \<^verbatim>\<open>*\<close>, \<^verbatim>\<open>?\<close> and \<^verbatim>\<open>[\<close> as it is; \<open>plain_name\<close> says
  that a name is one such word and is listed by \<^verbatim>\<open>ls\<close>.)
\<close>

definition unlines :: "string list \<Rightarrow> string" where
  "unlines ls = concat (map (\<lambda>l. l @ [CHR 0x0A]) ls)"

definition is_ifs :: "char \<Rightarrow> bool" where
  "is_ifs c = (c = CHR '' '' \<or> c = CHR 0x09 \<or> c = CHR 0x0A)"

fun split_words :: "string \<Rightarrow> string \<Rightarrow> string list" where
  "split_words w [] = (if w = [] then [] else [w])"
| "split_words w (c # cs) =
     (if is_ifs c then (if w = [] then split_words [] cs else w # split_words [] cs)
      else split_words (w @ [c]) cs)"

definition plain_name :: "string \<Rightarrow> bool" where
  "plain_name n = (n \<noteq> [] \<and> \<not> starts_with ''.'' n \<and>
                   (\<forall>c\<in>set n. \<not> is_ifs c \<and> c \<notin> set ''*?[''))"

definition local_backup_dir :: "string \<Rightarrow> string" where
  "local_backup_dir backup_type = BACKUP_BASE_PATH @ ''/'' @ backup_type"

text \<open>
  \<^verbatim>\<open>rm -f DIR/NAME\<close> on a directory of this state, with its exit status: it removes a
  regular file, succeeds when there is no entry of that name, and fails with status 1,
  removing nothing, when the entry is a directory (there is no \<^verbatim>\<open>-r\<close>) or the name is
  \<^verbatim>\<open>.\<close> or \<^verbatim>\<open>..\<close>.
\<close>

definition rm_f_entry :: "string \<Rightarrow> string \<Rightarrow> backups \<Rightarrow> nat \<times> backups" where
  "rm_f_entry backup_dir backup s =
     (case local_dirs s backup_dir of
        None \<Rightarrow> (0, s)
      | Some es \<Rightarrow>
          if backup = ''.'' \<or> backup = ''..'' \<or>
             (\<exists>e\<in>set es. e_name e = backup \<and> e_kind e = Directory)
          then (1, s)
          else (0, s\<lparr>local_dirs :=
                      (local_dirs s)(backup_dir \<mapsto> filter (\<lambda>e. e_name e \<noteq> backup) es)\<rparr>))"

text \<open>
  The loop over the words of \<^verbatim>\<open>$old_backups\<close>. \<^verbatim>\<open>cleanup_backups\<close> is called from
  \<^verbatim>\<open>main\<close> as a plain command, so \<^verbatim>\<open>set -e\<close> is in force: a failing \<^verbatim>\<open>rm\<close> ends the
  script there with its status.
\<close>

fun delete_local_loop :: "bool \<Rightarrow> string \<Rightarrow> string list \<Rightarrow> backups \<Rightarrow> outcome \<times> backups" where
  "delete_local_loop dry_run backup_dir [] s = (Return 0, s)"
| "delete_local_loop dry_run backup_dir (backup # rest) s =
     (if dry_run
      then delete_local_loop dry_run backup_dir rest
             (echo (''Would delete: '' @ backup_dir @ ''/'' @ backup) s)
      else let r = rm_f_entry backup_dir backup s
           in if fst r \<noteq> 0 then (Exit (fst r), snd r)
              else delete_local_loop dry_run backup_dir rest
                     (log INFO (''Deleted old backup: '' @ backup) (snd r)))"

definition cleanup_local :: "bool \<Rightarrow> string \<Rightarrow> backups \<Rightarrow> outcome \<times> backups" where
  "cleanup_local dry_run backup_type s =
     (let backup_dir = local_backup_dir backup_type
      in case local_dirs s backup_dir of
           None \<Rightarrow> (Return 0, s)
         | Some es \<Rightarrow>
             let old_backups = split_words [] (unlines (drop MAX_LOCAL_BACKUPS (ls_t es)))
             in delete_local_loop dry_run backup_dir old_backups s)"

text \<open>The loop \<^verbatim>\<open>for backup_type in "database" "files" "full"\<close>.\<close>

fun cleanup_local_loop :: "bool \<Rightarrow> string list \<Rightarrow> backups \<Rightarrow> outcome \<times> backups" where
  "cleanup_local_loop dry_run [] s = (Return 0, s)"
| "cleanup_local_loop dry_run (backup_type # rest) s =
     (let r = cleanup_local dry_run backup_type s
      in case fst r of
           Exit n \<Rightarrow> r
         | Return n \<Rightarrow> cleanup_local_loop dry_run rest (snd r))"

text \<open>
  What is left of a directory's entries once every name that \<^verbatim>\<open>ls -t\<close> lists after
  the first \<open>MAX_LOCAL_BACKUPS\<close> has been removed, and the directories the script itself
  fills: every entry a regular file whose name is one plain word.
\<close>

definition keep :: "entry list \<Rightarrow> entry list" where
  "keep es = filter (\<lambda>e. e_name e \<notin> set (drop MAX_LOCAL_BACKUPS (ls_t es))) es"

definition plain_files :: "entry list \<Rightarrow> bool" where
  "plain_files es = (\<forall>e\<in>set es. e_kind e = RegularFile \<and> plain_name (e_name e))"

text \<open>
  The cloud part. \<^verbatim>\<open>sort -k1,2 | head -n -90 | awk '{print $4}'\<close> gives the keys of
  all but the 90 last objects in the order of date and time. The address handed to
  \<^verbatim>\<open>aws s3 rm\<close> is \<^verbatim>\<open>s3://\<close>, then \<^verbatim>\<open>CLOUD_BACKUP_PATH\<close> from its third
  \<^verbatim>\<open>/\<close>-separated field on (\<^verbatim>\<open>your-backup-bucket/edutech-backups\<close>), then a
  \<^verbatim>\<open>/\<close> and the listed key; \<open>s3_rm\<close> removes the object with the given key of the
  bucket, and succeeds also when there is none (a failure of the network is not part of
  this model).
\<close>

definition s3_rm :: "string \<Rightarrow> backups \<Rightarrow> backups" where
  "s3_rm key s = s\<lparr>cloud := map_option (filter (\<lambda>obj. snd obj \<noteq> key)) (cloud s)\<rparr>"

definition delete_cloud :: "bool \<Rightarrow> string \<Rightarrow> backups \<Rightarrow> backups" where
  "delete_cloud dry_run backup s =
     (if dry_run then echo (''Would delete from cloud: '' @ backup) s
      else log INFO (''Deleted old cloud backup: '' @ backup)
             (s3_rm (''edutech-backups/'' @ backup) s))"

definition cleanup_cloud :: "bool \<Rightarrow> backups \<Rightarrow> backups" where
  "cleanup_cloud dry_run s =
     (case cloud s of
        None \<Rightarrow> s
      | Some objs \<Rightarrow>
          let old_cloud_backups =
                split_words [] (unlines (map snd
                  (take (length objs - MAX_CLOUD_BACKUPS) (sort_key (\<lambda>obj. obj) objs))))
          in fold (delete_cloud dry_run) old_cloud_backups s)"

definition cleanup_backups :: "bool \<Rightarrow> backups \<Rightarrow> outcome \<times> backups" where
  "cleanup_backups dry_run s =
     (let s1 = log INFO ''Cleaning up old backups (keeping 30 local, 90 cloud)...'' s;
          r = cleanup_local_loop dry_run [''database'', ''files'', ''full''] s1
      in case fst r of
           Exit n \<Rightarrow> r
         | Return n \<Rightarrow>
             let s3 = cleanup_cloud dry_run (snd r)
             in (Return 0, if \<not> dry_run then log SUCCESS ''Cleanup completed'' s3 else s3))"

text \<open>The \<^verbatim>\<open>cleanup\<close> case of \<^verbatim>\<open>main\<close>: dry run exactly when the first word is \<^verbatim>\<open>--dry-run\<close>.\<close>

definition main_cleanup :: "string list \<Rightarrow> backups \<Rightarrow> outcome \<times> backups" where
  "main_cleanup args s =
     cleanup_backups (case args of [] \<Rightarrow> False | a # _ \<Rightarrow> a = ''--dry-run'') s"

subsection \<open>Example data\<close>

text \<open>
  Concrete inputs for the evaluations below: a library whose \<open>n\<close>-th identifier is
  \<open>n + 1\<close> letters \<open>u\<close>, a world where every connection succeeds, an empty target store
  and small source databases.
\<close>

definition ex_lib :: lib where
  "ex_lib = \<lparr>uuidv4 = (\<lambda>n. replicate (Suc n) (CHR ''u'')), JSON_stringify = concat\<rparr>"

definition ok_world :: world where
  "ok_world = \<lparr>mongo_connects = True, prisma_connects = True, backup_writes = True\<rparr>"

definition empty_sqlite :: sqlite where
  "empty_sqlite = \<lparr>textbook = [], passageSet = [], question = [], systemPrompt = [],
     systemPromptVersion = [], passageSetTextbook = []\<rparr>"

definition empty_mongo :: mongo where
  "empty_mongo = \<lparr>textbooks = [], passagesets = [], questions = [], systemprompts = [],
     systemprompversions = []\<rparr>"

definition mk_textbook :: "string \<Rightarrow> MongoTextbook" where
  "mk_textbook oid = \<lparr>mt_id = oid, mt_title = ''title'', mt_publisher = ''publisher'',
     mt_subject = ''subject'', mt_level = ''level'', mt_grade = ''grade'',
     mt_createdAt = 0, mt_updatedAt = 0\<rparr>"

definition mk_passageSet :: "string \<Rightarrow> string \<Rightarrow> string list \<Rightarrow> MongoPassageSet" where
  "mk_passageSet oid qr tbs = \<lparr>mp_id = oid, mp_title = ''title'', mp_passage = ''passage'',
     mp_passageComment = ''comment'', mp_qrCode = qr, mp_textbooks = tbs,
     mp_createdAt = 0, mp_updatedAt = 0\<rparr>"

definition mk_question :: "string \<Rightarrow> string \<Rightarrow> MongoQuestion" where
  "mk_question oid setId = \<lparr>mq_id = oid, mq_setId = setId, mq_questionNumber = 1,
     mq_questionText = ''text'', mq_options = [''a'', ''b''], mq_correctAnswer = ''a'',
     mq_explanation = ''because'', mq_createdAt = 0, mq_updatedAt = 0\<rparr>"

text \<open>One textbook and nothing else.\<close>

definition src_one_textbook :: mongo where
  "src_one_textbook = empty_mongo\<lparr>textbooks := [mk_textbook ''t1'']\<rparr>"

text \<open>Two questions that reference a passage set the source does not have.\<close>

definition src_orphans :: mongo where
  "src_orphans = empty_mongo\<lparr>questions := [mk_question ''q1'' ''gone'', mk_question ''q2'' ''gone'']\<rparr>"

text \<open>A textbook and a passage set that carry the same source identifier.\<close>

definition src_same_id :: mongo where
  "src_same_id = empty_mongo\<lparr>textbooks := [mk_textbook ''a''],
     passagesets := [mk_passageSet ''a'' ''qr1'' []]\<rparr>"

text \<open>A passage set with one question that references it.\<close>

definition src_question :: mongo where
  "src_question = empty_mongo\<lparr>passagesets := [mk_passageSet ''p1'' ''qr1'' []],
     questions := [mk_question ''q1'' ''p1'']\<rparr>"

text \<open>
  A textbook, a passage set that lists this textbook twice, and a question of the
  passage set.
\<close>

definition src_linked :: mongo where
  "src_linked = empty_mongo\<lparr>textbooks := [mk_textbook ''t1''],
     passagesets := [mk_passageSet ''p1'' ''qr1'' [''t1'', ''t1'']],
     questions := [mk_question ''q1'' ''p1'']\<rparr>"

text \<open>One question that references a passage set the source does not have.\<close>

definition src_one_orphan :: mongo where
  "src_one_orphan = empty_mongo\<lparr>questions := [mk_question ''q1'' ''gone'']\<rparr>"

text \<open>
  A target store that already holds one question row, whose passage set is not in the
  store.
\<close>

definition sqlite_dangling_question :: sqlite where
  "sqlite_dangling_question = empty_sqlite\<lparr>question :=
     [\<lparr>q_id = ''q0'', q_setId = ''nowhere'', q_questionNumber = 1, q_questionText = ''text'',
       q_optionsJson = ''[]'', q_correctAnswer = ''a'', q_explanation = ''because'',
       q_createdAt = 0, q_updatedAt = 0\<rparr>]\<rparr>"

text \<open>A target store that already holds one prompt version before the run.\<close>

definition sqlite_one_version :: sqlite where
  "sqlite_one_version = empty_sqlite\<lparr>systemPromptVersion :=
     [\<lparr>v_id = ''v0'', v_promptKey = ''key'', v_content = ''content'', v_version = 1,
       v_description = ''description'', v_createdBy = ''admin'', v_createdAt = 0\<rparr>]\<rparr>"


text \<open>
  Tools for the evaluations: a database file is sound when it starts with \<open>SQLite\<close>
  (and \<^verbatim>\<open>sqlite3\<close> answers \<open>ok\<close> for a file that does not exist, which it creates
  empty); checkpoint, copy and schema push succeed and keep the content, the checkpoint
  printing the row \<open>0|0|0\<close>; an archive is
  the text \<open>tar:\<close> followed by the content of one file \<open>a.png\<close> in the directory
  \<open>files\<close>.
\<close>

definition ex_tools :: tools where
  "ex_tools = \<lparr>
     integrity_check = (\<lambda>f. case f of
                               None \<Rightarrow> ''ok''
                             | Some c \<Rightarrow> if starts_with ''SQLite'' c then ''ok''
                                        else ''*** in database main ***''),
     wal_checkpoint = (\<lambda>f. (0, f)),
     wal_checkpoint_out = (\<lambda>f. [''0|0|0'']),
     dot_backup = (\<lambda>f. (0, f)),
     db_push = (\<lambda>f. (0, f)),
     untar = (\<lambda>a. if starts_with ''tar:'' a then Some (''files'', [(''a.png'', drop 4 a)])
                    else None)\<rparr>"

text \<open>
  The same tools where the report on a damaged file is one line of the kind
  \<^verbatim>\<open>sqlite3\<close> prints for a damaged index, here an index of the table \<open>textbooks\<close>.
\<close>

definition ex_tools_index :: tools where
  "ex_tools_index = ex_tools\<lparr>
     integrity_check := (\<lambda>f. case f of
                               None \<Rightarrow> ''ok''
                             | Some c \<Rightarrow> if starts_with ''SQLite'' c then ''ok''
                                        else ''wrong # of entries in index sqlite_autoindex_textbooks_1'')\<rparr>"

text \<open>
  A machine with a sound live database, a sound backup \<open>b1\<close> with its files archive, a
  damaged backup \<open>bad\<close>, and one file in the assets directory.
\<close>

definition ex_sh :: sh where
  "ex_sh = \<lparr>stdout = [],
     files = [DATABASE_PATH \<mapsto> ''SQLite live'',
              database_backup_path ''b1'' \<mapsto> ''SQLite b1'',
              files_backup_path ''b1'' \<mapsto> ''tar:old'',
              database_backup_path ''bad'' \<mapsto> ''damaged'',
              files_backup_path ''bad'' \<mapsto> ''tar:bad''],
     dirs = [FILES_PATH \<mapsto> [(''a.png'', ''new'')]]\<rparr>"

text \<open>The same machine with a damaged live database.\<close>

definition ex_sh_damaged :: sh where
  "ex_sh_damaged = ex_sh\<lparr>files := (files ex_sh)(DATABASE_PATH \<mapsto> ''damaged live'')\<rparr>"


text \<open>
  Thirty-five nightly database backups, one per day from 1 November to 5 December, with
  the day's number as modification time, in the only backup directory of the machine.
\<close>

definition ex_entries :: "entry list" where
  "ex_entries =
    [\<lparr>e_name = ''backup_20241118_020000.db'', e_mtime = 18, e_kind = RegularFile\<rparr>,
     \<lparr>e_name = ''backup_20241119_020000.db'', e_mtime = 19, e_kind = RegularFile\<rparr>,
     \<lparr>e_name = ''backup_20241120_020000.db'', e_mtime = 20, e_kind = RegularFile\<rparr>,
     \<lparr>e_name = ''backup_20241121_020000.db'', e_mtime = 21, e_kind = RegularFile\<rparr>,
     \<lparr>e_name = ''backup_20241122_020000.db'', e_mtime = 22, e_kind = RegularFile\<rparr>,
     \<lparr>e_name = ''backup_20241123_020000.db'', e_mtime = 23, e_kind = RegularFile\<rparr>,
     \<lparr>e_name = ''backup_20241124_020000.db'', e_mtime = 24, e_kind = RegularFile\<rparr>,
     \<lparr>e_name = ''backup_20241125_020000.db'', e_mtime = 25, e_kind = RegularFile\<rparr>,
     \<lparr>e_name = ''backup_20241126_020000.db'', e_mtime = 26, e_kind = RegularFile\<rparr>,
     \<lparr>e_name = ''backup_20241127_020000.db'', e_mtime = 27, e_kind = RegularFile\<rparr>,
     \<lparr>e_name = ''backup_20241128_020000.db'', e_mtime = 28, e_kind = RegularFile\<rparr>,
     \<lparr>e_name = ''backup_20241129_020000.db'', e_mtime = 29, e_kind = RegularFile\<rparr>,
     \<lparr>e_name = ''backup_20241130_020000.db'', e_mtime = 30, e_kind = RegularFile\<rparr>,
     \<lparr>e_name = ''backup_20241201_020000.db'', e_mtime = 31, e_kind = RegularFile\<rparr>,
     \<lparr>e_name = ''backup_20241202_020000.db'', e_mtime = 32, e_kind = RegularFile\<rparr>,
     \<lparr>e_name = ''backup_20241203_020000.db'', e_mtime = 33, e_kind = RegularFile\<rparr>,
     \<lparr>e_name = ''backup_20241204_020000.db'', e_mtime = 34, e_kind = RegularFile\<rparr>,
     \<lparr>e_name = ''backup_20241205_020000.db'', e_mtime = 35, e_kind = RegularFile\<rparr>,
     \<lparr>e_name = ''backup_20241101_020000.db'', e_mtime = 1, e_kind = RegularFile\<rparr>,
     \<lparr>e_name = ''backup_20241102_020000.db'', e_mtime = 2, e_kind = RegularFile\<rparr>,
     \<lparr>e_name = ''backup_20241103_020000.db'', e_mtime = 3, e_kind = RegularFile\<rparr>,
     \<lparr>e_name = ''backup_20241104_020000.db'', e_mtime = 4, e_kind = RegularFile\<rparr>,
     \<lparr>e_name = ''backup_20241105_020000.db'', e_mtime = 5, e_kind = RegularFile\<rparr>,
     \<lparr>e_name = ''backup_20241106_020000.db'', e_mtime = 6, e_kind = RegularFile\<rparr>,
     \<lparr>e_name = ''backup_20241107_020000.db'', e_mtime = 7, e_kind = RegularFile\<rparr>,
     \<lparr>e_name = ''backup_20241108_020000.db'', e_mtime = 8, e_kind = RegularFile\<rparr>,
     \<lparr>e_name = ''backup_20241109_020000.db'', e_mtime = 9, e_kind = RegularFile\<rparr>,
     \<lparr>e_name = ''backup_20241110_020000.db'', e_mtime = 10, e_kind = RegularFile\<rparr>,
     \<lparr>e_name = ''backup_20241111_020000.db'', e_mtime = 11, e_kind = RegularFile\<rparr>,
     \<lparr>e_name = ''backup_20241112_020000.db'', e_mtime = 12, e_kind = RegularFile\<rparr>,
     \<lparr>e_name = ''backup_20241113_020000.db'', e_mtime = 13, e_kind = RegularFile\<rparr>,
     \<lparr>e_name = ''backup_20241114_020000.db'', e_mtime = 14, e_kind = RegularFile\<rparr>,
     \<lparr>e_name = ''backup_20241115_020000.db'', e_mtime = 15, e_kind = RegularFile\<rparr>,
     \<lparr>e_name = ''backup_20241116_020000.db'', e_mtime = 16, e_kind = RegularFile\<rparr>,
     \<lparr>e_name = ''backup_20241117_020000.db'', e_mtime = 17, e_kind = RegularFile\<rparr>]"

definition ex_backups :: backups where
  "ex_backups = \<lparr>stdout = [],
     local_dirs = [local_backup_dir ''database'' \<mapsto> ex_entries], cloud = None\<rparr>"

text \<open>
  Thirty-one entries of the directory of full backups, newest first: thirty archives, and
  as the oldest entry the staging directory of a full backup that was interrupted before
  its archive was written. The other two directories are empty, and \<^verbatim>\<open>aws\<close> is not
  installed.
\<close>

definition ex_full_entries :: "entry list" where
  "ex_full_entries =
    [\<lparr>e_name = ''backup_20241201_030000.tar.gz'', e_mtime = 31, e_kind = RegularFile\<rparr>,
     \<lparr>e_name = ''backup_20241130_030000.tar.gz'', e_mtime = 30, e_kind = RegularFile\<rparr>,
     \<lparr>e_name = ''backup_20241129_030000.tar.gz'', e_mtime = 29, e_kind = RegularFile\<rparr>,
     \<lparr>e_name = ''backup_20241128_030000.tar.gz'', e_mtime = 28, e_kind = RegularFile\<rparr>,
     \<lparr>e_name = ''backup_20241127_030000.tar.gz'', e_mtime = 27, e_kind = RegularFile\<rparr>,
     \<lparr>e_name = ''backup_20241126_030000.tar.gz'', e_mtime = 26, e_kind = RegularFile\<rparr>,
     \<lparr>e_name = ''backup_20241125_030000.tar.gz'', e_mtime = 25, e_kind = RegularFile\<rparr>,
     \<lparr>e_name = ''backup_20241124_030000.tar.gz'', e_mtime = 24, e_kind = RegularFile\<rparr>,
     \<lparr>e_name = ''backup_20241123_030000.tar.gz'', e_mtime = 23, e_kind = RegularFile\<rparr>,
     \<lparr>e_name = ''backup_20241122_030000.tar.gz'', e_mtime = 22, e_kind = RegularFile\<rparr>,
     \<lparr>e_name = ''backup_20241121_030000.tar.gz'', e_mtime = 21, e_kind = RegularFile\<rparr>,
     \<lparr>e_name = ''backup_20241120_030000.tar.gz'', e_mtime = 20, e_kind = RegularFile\<rparr>,
     \<lparr>e_name = ''backup_20241119_030000.tar.gz'', e_mtime = 19, e_kind = RegularFile\<rparr>,
     \<lparr>e_name = ''backup_20241118_030000.tar.gz'', e_mtime = 18, e_kind = RegularFile\<rparr>,
     \<lparr>e_name = ''backup_20241117_030000.tar.gz'', e_mtime = 17, e_kind = RegularFile\<rparr>,
     \<lparr>e_name = ''backup_20241116_030000.tar.gz'', e_mtime = 16, e_kind = RegularFile\<rparr>,
     \<lparr>e_name = ''backup_20241115_030000.tar.gz'', e_mtime = 15, e_kind = RegularFile\<rparr>,
     \<lparr>e_name = ''backup_20241114_030000.tar.gz'', e_mtime = 14, e_kind = RegularFile\<rparr>,
     \<lparr>e_name = ''backup_20241113_030000.tar.gz'', e_mtime = 13, e_kind = RegularFile\<rparr>,
     \<lparr>e_name = ''backup_20241112_030000.tar.gz'', e_mtime = 12, e_kind = RegularFile\<rparr>,
     \<lparr>e_name = ''backup_20241111_030000.tar.gz'', e_mtime = 11, e_kind = RegularFile\<rparr>,
     \<lparr>e_name = ''backup_20241110_030000.tar.gz'', e_mtime = 10, e_kind = RegularFile\<rparr>,
     \<lparr>e_name = ''backup_20241109_030000.tar.gz'', e_mtime = 9, e_kind = RegularFile\<rparr>,
     \<lparr>e_name = ''backup_20241108_030000.tar.gz'', e_mtime = 8, e_kind = RegularFile\<rparr>,
     \<lparr>e_name = ''backup_20241107_030000.tar.gz'', e_mtime = 7, e_kind = RegularFile\<rparr>,
     \<lparr>e_name = ''backup_20241106_030000.tar.gz'', e_mtime = 6, e_kind = RegularFile\<rparr>,
     \<lparr>e_name = ''backup_20241105_030000.tar.gz'', e_mtime = 5, e_kind = RegularFile\<rparr>,
     \<lparr>e_name = ''backup_20241104_030000.tar.gz'', e_mtime = 4, e_kind = RegularFile\<rparr>,
     \<lparr>e_name = ''backup_20241103_030000.tar.gz'', e_mtime = 3, e_kind = RegularFile\<rparr>,
     \<lparr>e_name = ''backup_20241102_030000.tar.gz'', e_mtime = 2, e_kind = RegularFile\<rparr>,
     \<lparr>e_name = ''backup_20241101_030000'', e_mtime = 1, e_kind = Directory\<rparr>]"

definition ex_backups_staging :: backups where
  "ex_backups_staging = \<lparr>stdout = [],
     local_dirs = [local_backup_dir ''database'' \<mapsto> [], local_backup_dir ''files'' \<mapsto> [],
                   local_backup_dir ''full'' \<mapsto> ex_full_entries],
     cloud = None\<rparr>"

text \<open>
  Thirty-one regular files of the directory of database backups, newest first, the oldest
  one a copy made by hand whose name holds a blank. The other two directories are empty.
\<close>

definition ex_blank_entries :: "entry list" where
  "ex_blank_entries =
    [\<lparr>e_name = ''backup_20241201_020000.db'', e_mtime = 31, e_kind = RegularFile\<rparr>,
     \<lparr>e_name = ''backup_20241130_020000.db'', e_mtime = 30, e_kind = RegularFile\<rparr>,
     \<lparr>e_name = ''backup_20241129_020000.db'', e_mtime = 29, e_kind = RegularFile\<rparr>,
     \<lparr>e_name = ''backup_20241128_020000.db'', e_mtime = 28, e_kind = RegularFile\<rparr>,
     \<lparr>e_name = ''backup_20241127_020000.db'', e_mtime = 27, e_kind = RegularFile\<rparr>,
     \<lparr>e_name = ''backup_20241126_020000.db'', e_mtime = 26, e_kind = RegularFile\<rparr>,
     \<lparr>e_name = ''backup_20241125_020000.db'', e_mtime = 25, e_kind = RegularFile\<rparr>,
     \<lparr>e_name = ''backup_20241124_020000.db'', e_mtime = 24, e_kind = RegularFile\<rparr>,
     \<lparr>e_name = ''backup_20241123_020000.db'', e_mtime = 23, e_kind = RegularFile\<rparr>,
     \<lparr>e_name = ''backup_20241122_020000.db'', e_mtime = 22, e_kind = RegularFile\<rparr>,
     \<lparr>e_name = ''backup_20241121_020000.db'', e_mtime = 21, e_kind = RegularFile\<rparr>,
     \<lparr>e_name = ''backup_20241120_020000.db'', e_mtime = 20, e_kind = RegularFile\<rparr>,
     \<lparr>e_name = ''backup_20241119_020000.db'', e_mtime = 19, e_kind = RegularFile\<rparr>,
     \<lparr>e_name = ''backup_20241118_020000.db'', e_mtime = 18, e_kind = RegularFile\<rparr>,
     \<lparr>e_name = ''backup_20241117_020000.db'', e_mtime = 17, e_kind = RegularFile\<rparr>,
     \<lparr>e_name = ''backup_20241116_020000.db'', e_mtime = 16, e_kind = RegularFile\<rparr>,
     \<lparr>e_name = ''backup_20241115_020000.db'', e_mtime = 15, e_kind = RegularFile\<rparr>,
     \<lparr>e_name = ''backup_20241114_020000.db'', e_mtime = 14, e_kind = RegularFile\<rparr>,
     \<lparr>e_name = ''backup_20241113_020000.db'', e_mtime = 13, e_kind = RegularFile\<rparr>,
     \<lparr>e_name = ''backup_20241112_020000.db'', e_mtime = 12, e_kind = RegularFile\<rparr>,
     \<lparr>e_name = ''backup_20241111_020000.db'', e_mtime = 11, e_kind = RegularFile\<rparr>,
     \<lparr>e_name = ''backup_20241110_020000.db'', e_mtime = 10, e_kind = RegularFile\<rparr>,
     \<lparr>e_name = ''backup_20241109_020000.db'', e_mtime = 9, e_kind = RegularFile\<rparr>,
     \<lparr>e_name = ''backup_20241108_020000.db'', e_mtime = 8, e_kind = RegularFile\<rparr>,
     \<lparr>e_name = ''backup_20241107_020000.db'', e_mtime = 7, e_kind = RegularFile\<rparr>,
     \<lparr>e_name = ''backup_20241106_020000.db'', e_mtime = 6, e_kind = RegularFile\<rparr>,
     \<lparr>e_name = ''backup_20241105_020000.db'', e_mtime = 5, e_kind = RegularFile\<rparr>,
     \<lparr>e_name = ''backup_20241104_020000.db'', e_mtime = 4, e_kind = RegularFile\<rparr>,
     \<lparr>e_name = ''backup_20241103_020000.db'', e_mtime = 3, e_kind = RegularFile\<rparr>,
     \<lparr>e_name = ''backup_20241102_020000.db'', e_mtime = 2, e_kind = RegularFile\<rparr>,
     \<lparr>e_name = ''backup copy.db'', e_mtime = 1, e_kind = RegularFile\<rparr>]"

definition ex_backups_blank :: backups where
  "ex_backups_blank = \<lparr>stdout = [],
     local_dirs = [local_backup_dir ''database'' \<mapsto> ex_blank_entries,
                   local_backup_dir ''files'' \<mapsto> [], local_backup_dir ''full'' \<mapsto> []],
     cloud = None\<rparr>"

section \<open>Properties of the backup script\<close>

lemmas path_defs = PROJECT_NAME_def PROJECT_PATH_def BACKUP_BASE_PATH_def DATABASE_PATH_def
  FILES_PATH_def database_backup_path_def files_backup_path_def pre_restore_path_def

lemmas ex_sh_defs = ex_sh_def ex_sh_damaged_def ex_tools_def integrity_ok_def path_defs

lemma paths_distinct [simp]:
  "database_backup_path n \<noteq> DATABASE_PATH"
  "DATABASE_PATH \<noteq> database_backup_path n"
  "pre_restore_path DATABASE_PATH ts \<noteq> DATABASE_PATH"
  "DATABASE_PATH \<noteq> pre_restore_path DATABASE_PATH ts"
  "pre_restore_path DATABASE_PATH ts \<noteq> database_backup_path n"
  "database_backup_path n \<noteq> pre_restore_path DATABASE_PATH ts"
  by (simp_all add: path_defs)

subsection \<open>The four ways through \<^verbatim>\<open>restore_database\<close>\<close>

lemma restore_missing:
  "files s (database_backup_path n) = None \<Longrightarrow>
   restore_database T ts n s =
     (Return 1, log ERROR (''Database backup not found: '' @ database_backup_path n) s)"
  by (simp add: restore_database_def Let_def)

lemma restore_no_live:
  "files s (database_backup_path n) = Some b \<Longrightarrow> files s DATABASE_PATH = None \<Longrightarrow>
   restore_database T ts n s = (Exit 1, log INFO (''Restoring database from: '' @ n) s)"
  by (simp add: restore_database_def Let_def cp_def log_def)

lemma restore_bad:
  "files s (database_backup_path n) = Some b \<Longrightarrow> files s DATABASE_PATH = Some live \<Longrightarrow>
   \<not> integrity_ok T (Some b) \<Longrightarrow>
   fst (restore_database T ts n s) = Return 1 \<and>
   files (snd (restore_database T ts n s)) =
     (files s)(pre_restore_path DATABASE_PATH ts \<mapsto> live) \<and>
   dirs (snd (restore_database T ts n s)) = dirs s"
  by (simp add: restore_database_def Let_def cp_def log_def fun_eq_iff)

lemma restore_good:
  "files s (database_backup_path n) = Some b \<Longrightarrow> files s DATABASE_PATH = Some live \<Longrightarrow>
   integrity_ok T (Some b) \<Longrightarrow>
   fst (restore_database T ts n s) = Return 0 \<and>
   files (snd (restore_database T ts n s)) (pre_restore_path DATABASE_PATH ts) = Some live \<and>
   dirs (snd (restore_database T ts n s)) = dirs s"
  by (simp add: restore_database_def Let_def cp_def log_def)

lemma restore_database_dirs: "dirs (snd (restore_database T ts n s)) = dirs s"
proof (cases "files s (database_backup_path n)")
  case None
  then show ?thesis by (simp add: restore_missing log_def)
next
  case (Some b)
  show ?thesis
  proof (cases "files s DATABASE_PATH")
    case None
    with Some show ?thesis by (simp add: restore_no_live log_def)
  next
    case live: (Some live)
    show ?thesis
      using restore_bad [OF Some live] restore_good [OF Some live]
      by (cases "integrity_ok T (Some b)") simp_all
  qed
qed

lemma restore_database_exit_nonzero:
  assumes e: "fst (restore_database T ts n s) = Exit k"
  shows "k \<noteq> 0"
proof (cases "files s (database_backup_path n)")
  case None
  with e show ?thesis by (simp add: restore_missing)
next
  case (Some b)
  show ?thesis
  proof (cases "files s DATABASE_PATH")
    case None
    with Some e show ?thesis by (simp add: restore_no_live)
  next
    case live: (Some live)
    show ?thesis
      using e restore_bad [OF Some live, of T ts] restore_good [OF Some live, of T ts]
      by (cases "integrity_ok T (Some b)") simp_all
  qed
qed

subsection \<open>Restore with rollback\<close>

text \<open>
  What \<^verbatim>\<open>restore_database\<close> does relative to its own test. Whenever it leaves the
  live store different from what it was, the timestamped pre-restore copy holds the live
  store's content from before the restore. When the report on the chosen backup, once it
  is in place, holds the letters \<open>ok\<close> nowhere, the function returns 1, the live store
  holds its pre-restore content again, the safety copy is kept, and
  \<^verbatim>\<open>restore NAME --db-only\<close> ends with status 1.
\<close>

lemma restore_database_rollback:
  "(files (snd (restore_database T ts n s)) DATABASE_PATH \<noteq> files s DATABASE_PATH \<longrightarrow>
      files (snd (restore_database T ts n s)) (pre_restore_path DATABASE_PATH ts) =
        files s DATABASE_PATH) \<and>
   (files s (database_backup_path n) = Some b \<and> files s DATABASE_PATH = Some live \<and>
    \<not> integrity_ok T (Some b) \<longrightarrow>
      fst (restore_database T ts n s) = Return 1 \<and>
      files (snd (restore_database T ts n s)) DATABASE_PATH = Some live \<and>
      files (snd (restore_database T ts n s)) (pre_restore_path DATABASE_PATH ts) = Some live \<and>
      exit_status (main_restore T ts ts2 [n, ''--db-only''] s) = 1)"
proof (intro conjI impI)
  assume ch: "files (snd (restore_database T ts n s)) DATABASE_PATH \<noteq> files s DATABASE_PATH"
  show "files (snd (restore_database T ts n s)) (pre_restore_path DATABASE_PATH ts) =
          files s DATABASE_PATH"
  proof (cases "files s (database_backup_path n)")
    case None
    with ch show ?thesis by (simp add: restore_missing log_def)
  next
    case (Some b')
    show ?thesis
    proof (cases "files s DATABASE_PATH")
      case None
      with Some ch show ?thesis by (simp add: restore_no_live log_def)
    next
      case live: (Some l)
      show ?thesis
        using restore_bad [OF Some live, of T ts] restore_good [OF Some live, of T ts] live
        by (cases "integrity_ok T (Some b')") simp_all
    qed
  qed
next
  assume a: "files s (database_backup_path n) = Some b \<and> files s DATABASE_PATH = Some live \<and>
    \<not> integrity_ok T (Some b)"
  then have r: "fst (restore_database T ts n s) = Return 1"
    and f: "files (snd (restore_database T ts n s)) =
              (files s)(pre_restore_path DATABASE_PATH ts \<mapsto> live)"
    using restore_bad [of s n b live T ts] by simp_all
  show "fst (restore_database T ts n s) = Return 1" by (rule r)
  show "files (snd (restore_database T ts n s)) DATABASE_PATH = Some live" using a f by simp
  show "files (snd (restore_database T ts n s)) (pre_restore_path DATABASE_PATH ts) = Some live"
    using f by simp
  show "exit_status (main_restore T ts ts2 [n, ''--db-only''] s) = 1"
    using r by (simp add: main_restore_def errexit_call_def exit_status_def)
qed

text \<open>
  On the example machine: restoring the sound backup \<open>b1\<close> changes the live store and
  leaves the safety copy; restoring the damaged backup \<open>bad\<close>, whose report is
  \<^verbatim>\<open>*** in database main ***\<close>, is rolled back and reported with status 1.
\<close>

lemma restore_database_rollback_example:
  "files (snd (restore_database ex_tools ''20241201_143022'' ''b1'' ex_sh)) DATABASE_PATH \<noteq>
     files ex_sh DATABASE_PATH \<and>
   files (snd (restore_database ex_tools ''20241201_143022'' ''b1'' ex_sh))
     (pre_restore_path DATABASE_PATH ''20241201_143022'') = Some ''SQLite live'' \<and>
   files ex_sh (database_backup_path ''bad'') = Some ''damaged'' \<and>
   files ex_sh DATABASE_PATH = Some ''SQLite live'' \<and>
   \<not> integrity_ok ex_tools (Some ''damaged'') \<and>
   fst (restore_database ex_tools ''20241201_143022'' ''bad'' ex_sh) = Return 1 \<and>
   files (snd (restore_database ex_tools ''20241201_143022'' ''bad'' ex_sh)) DATABASE_PATH =
     Some ''SQLite live'' \<and>
   exit_status (main_restore ex_tools ''20241201_143022'' ''20241201_143023''
     [''bad'', ''--db-only''] ex_sh) = 1"
proof -
  have good: "files ex_sh (database_backup_path ''b1'') = Some ''SQLite b1''"
    and bad: "files ex_sh (database_backup_path ''bad'') = Some ''damaged''"
    and live: "files ex_sh DATABASE_PATH = Some ''SQLite live''"
    by (simp_all add: ex_sh_defs)
  have ok: "integrity_ok ex_tools (Some ''SQLite b1'')"
    and nok: "\<not> integrity_ok ex_tools (Some ''damaged'')"
    by (simp_all add: ex_sh_defs)
  have changed: "files (snd (restore_database ex_tools ''20241201_143022'' ''b1'' ex_sh))
      DATABASE_PATH = Some ''SQLite b1''"
    using good live ok by (simp add: restore_database_def Let_def cp_def log_def ex_tools_def)
  show ?thesis
    using restore_database_rollback [of ex_tools "''20241201_143022''" "''b1''" ex_sh
        "''SQLite b1''" "''SQLite live''" "''20241201_143023''"]
      restore_database_rollback [of ex_tools "''20241201_143022''" "''bad''" ex_sh
        "''damaged''" "''SQLite live''" "''20241201_143023''"]
      bad live nok changed
    by simp
qed

text \<open>
  C1 does not hold of the script. Its test \<^verbatim>\<open>grep -q "ok"\<close> looks for the letters
  \<open>ok\<close> anywhere in the report of \<^verbatim>\<open>PRAGMA integrity_check\<close>, and a report of damage
  that names the table \<open>textbooks\<close> holds them. On the example machine, with such a report
  for the damaged backup \<open>bad\<close>: the consistency check fails (the report is not \<open>ok\<close>),
  yet the script's test passes, \<^verbatim>\<open>restore_database\<close> prints
  \<open>Database restored successfully\<close> and returns 0, the live store is left with the
  damaged content, nothing is copied back, and \<^verbatim>\<open>restore bad --db-only\<close> ends with
  status 0.
\<close>

theorem restore_database_keeps_damaged_store:
  "files ex_sh (database_backup_path ''bad'') = Some ''damaged'' \<and>
   files ex_sh DATABASE_PATH = Some ''SQLite live'' \<and>
   integrity_check ex_tools_index (Some ''damaged'') =
     ''wrong # of entries in index sqlite_autoindex_textbooks_1'' \<and>
   integrity_ok ex_tools_index (Some ''damaged'') \<and>
   fst (restore_database ex_tools_index ''20241201_143022'' ''bad'' ex_sh) = Return 0 \<and>
   files (snd (restore_database ex_tools_index ''20241201_143022'' ''bad'' ex_sh)) DATABASE_PATH =
     Some ''damaged'' \<and>
   files (snd (restore_database ex_tools_index ''20241201_143022'' ''bad'' ex_sh))
     (pre_restore_path DATABASE_PATH ''20241201_143022'') = Some ''SQLite live'' \<and>
   stdout (snd (restore_database ex_tools_index ''20241201_143022'' ''bad'' ex_sh)) =
     [Log INFO ''Restoring database from: bad'',
      Log INFO (''Current database backed up to: '' @
        pre_restore_path DATABASE_PATH ''20241201_143022''),
      Log SUCCESS ''Database restored successfully''] \<and>
   exit_status (main_restore ex_tools_index ''20241201_143022'' ''20241201_143023''
     [''bad'', ''--db-only''] ex_sh) = 0"
  by code_simp

subsection \<open>Backup of the database\<close>

lemma backup_fst:
  "fst (backup_database errexit T n s) =
     (if errexit \<and> fst (wal_checkpoint T (files s DATABASE_PATH)) \<noteq> 0
      then Exit (fst (wal_checkpoint T (files s DATABASE_PATH)))
      else if errexit \<and> fst (dot_backup T (snd (wal_checkpoint T (files s DATABASE_PATH)))) \<noteq> 0
      then Exit (fst (dot_backup T (snd (wal_checkpoint T (files s DATABASE_PATH)))))
      else if integrity_ok T (copy_produced T n s) then Return 0 else Exit 1)"
  by (cases "snd (dot_backup T (snd (wal_checkpoint T (files s DATABASE_PATH))))")
     (simp_all add: backup_database_def Let_def log_def copy_produced_def)

lemma backup_snd_ok:
  "\<not> (errexit \<and> fst (wal_checkpoint T (files s DATABASE_PATH)) \<noteq> 0) \<Longrightarrow>
   \<not> (errexit \<and> fst (dot_backup T (snd (wal_checkpoint T (files s DATABASE_PATH)))) \<noteq> 0) \<Longrightarrow>
   integrity_ok T (copy_produced T n s) \<Longrightarrow>
   files (snd (backup_database errexit T n s)) (database_backup_path n) = copy_produced T n s"
  by (cases "snd (dot_backup T (snd (wal_checkpoint T (files s DATABASE_PATH))))"; cases errexit)
     (simp_all add: backup_database_def Let_def log_def echo_def copy_produced_def)

lemma backup_snd_bad:
  "\<not> (errexit \<and> fst (wal_checkpoint T (files s DATABASE_PATH)) \<noteq> 0) \<Longrightarrow>
   \<not> (errexit \<and> fst (dot_backup T (snd (wal_checkpoint T (files s DATABASE_PATH)))) \<noteq> 0) \<Longrightarrow>
   \<not> integrity_ok T (copy_produced T n s) \<Longrightarrow>
   files (snd (backup_database errexit T n s)) (database_backup_path n) = None \<and>
   Log ERROR ''Database backup integrity check failed'' \<in> set (stdout (snd (backup_database errexit T n s)))"
  by (cases "snd (dot_backup T (snd (wal_checkpoint T (files s DATABASE_PATH))))"; cases errexit)
     (simp_all add: backup_database_def Let_def log_def rm_f_def copy_produced_def)

lemma backup_ok:
  assumes "fst (backup_database errexit T n s) = Return 0"
  shows "integrity_ok T (files (snd (backup_database errexit T n s)) (database_backup_path n))"
proof -
  have a: "\<not> (errexit \<and> fst (wal_checkpoint T (files s DATABASE_PATH)) \<noteq> 0)"
    and b: "\<not> (errexit \<and> fst (dot_backup T (snd (wal_checkpoint T (files s DATABASE_PATH)))) \<noteq> 0)"
    and c: "integrity_ok T (copy_produced T n s)"
    using assms by (simp_all add: backup_fst split: if_splits)
  show ?thesis using c by (simp add: backup_snd_ok [OF a b c])
qed

lemma backup_bad:
  assumes "reaches_check errexit T s" and "\<not> integrity_ok T (copy_produced T n s)"
  shows "fst (backup_database errexit T n s) = Exit 1 \<and>
      files (snd (backup_database errexit T n s)) (database_backup_path n) = None \<and>
      Log ERROR ''Database backup integrity check failed'' \<in> set (stdout (snd (backup_database errexit T n s)))"
proof -
  have a: "\<not> (errexit \<and> fst (wal_checkpoint T (files s DATABASE_PATH)) \<noteq> 0)"
    and b: "\<not> (errexit \<and> fst (dot_backup T (snd (wal_checkpoint T (files s DATABASE_PATH)))) \<noteq> 0)"
    using assms(1) by (auto simp add: reaches_check_def)
  have "fst (backup_database errexit T n s) = Exit 1"
    using a b assms(2) by (simp add: backup_fst)
  then show ?thesis using backup_snd_bad [OF a b assms(2)] by simp
qed

text \<open>
  What \<^verbatim>\<open>backup_database\<close> does relative to its own test. A backup that it reports
  (status 0) passes the test. When the function gets to its test and the report on the
  copy it produced holds the letters \<open>ok\<close> nowhere, the copy is deleted, the error is
  printed to the standard output and the function ends the shell that runs it with
  status 1. This holds with and without \<^verbatim>\<open>set -e\<close>.
\<close>

lemma backup_database_corrupt_copy_deleted:
  "(fst (backup_database errexit T n s) = Return 0 \<longrightarrow>
      integrity_ok T (files (snd (backup_database errexit T n s)) (database_backup_path n))) \<and>
   (reaches_check errexit T s \<and> \<not> integrity_ok T (copy_produced T n s) \<longrightarrow>
      fst (backup_database errexit T n s) = Exit 1 \<and>
      files (snd (backup_database errexit T n s)) (database_backup_path n) = None \<and>
      Log ERROR ''Database backup integrity check failed'' \<in> set (stdout (snd (backup_database errexit T n s))))"
  using backup_ok [of errexit T n s] backup_bad [of errexit T s n] by blast

text \<open>
  On the example machine: with a damaged live database whose report is
  \<^verbatim>\<open>*** in database main ***\<close> the copy is deleted and the shell exits with 1; with a
  sound one the copy is kept and passes the test.
\<close>

lemma backup_database_corrupt_copy_deleted_example:
  "reaches_check False ex_tools ex_sh_damaged \<and>
   \<not> integrity_ok ex_tools (copy_produced ex_tools ''backup_20241201_143022'' ex_sh_damaged) \<and>
   fst (backup_database False ex_tools ''backup_20241201_143022'' ex_sh_damaged) = Exit 1 \<and>
   files (snd (backup_database False ex_tools ''backup_20241201_143022'' ex_sh_damaged))
     (database_backup_path ''backup_20241201_143022'') = None \<and>
   fst (backup_database False ex_tools ''backup_20241201_143022'' ex_sh) = Return 0 \<and>
   integrity_ok ex_tools (files (snd (backup_database False ex_tools ''backup_20241201_143022'' ex_sh))
     (database_backup_path ''backup_20241201_143022''))"
proof -
  have bad: "\<not> integrity_ok ex_tools (copy_produced ex_tools ''backup_20241201_143022'' ex_sh_damaged)"
    by (simp add: ex_sh_defs copy_produced_def)
  have good: "integrity_ok ex_tools (copy_produced ex_tools ''backup_20241201_143022'' ex_sh)"
    by (simp add: ex_sh_defs copy_produced_def)
  have r: "fst (backup_database False ex_tools ''backup_20241201_143022'' ex_sh) = Return 0"
    using good by (simp add: backup_fst)
  show ?thesis
    using backup_database_corrupt_copy_deleted [of False ex_tools "''backup_20241201_143022''" ex_sh_damaged]
      backup_database_corrupt_copy_deleted [of False ex_tools "''backup_20241201_143022''" ex_sh] bad r
    by (simp add: reaches_check_def)
qed

text \<open>
  C8 does not hold of the script, for the same test \<^verbatim>\<open>grep -q "ok"\<close>. On the example
  machine with a damaged live database whose report names the table \<open>textbooks\<close>: the
  copy is damaged and its consistency check fails (the report is not \<open>ok\<close>), yet
  \<^verbatim>\<open>backup_database\<close>, with and without \<^verbatim>\<open>set -e\<close>, prints
  \<open>Database backup verified\<close>, returns 0 and keeps the damaged copy.
\<close>

theorem backup_database_keeps_damaged_copy:
  "files ex_sh_damaged DATABASE_PATH = Some ''damaged live'' \<and>
   copy_produced ex_tools_index ''backup_20241201_143022'' ex_sh_damaged =
     Some ''damaged live'' \<and>
   integrity_check ex_tools_index (Some ''damaged live'') =
     ''wrong # of entries in index sqlite_autoindex_textbooks_1'' \<and>
   fst (backup_database False ex_tools_index ''backup_20241201_143022'' ex_sh_damaged) =
     Return 0 \<and>
   files (snd (backup_database False ex_tools_index ''backup_20241201_143022'' ex_sh_damaged))
     (database_backup_path ''backup_20241201_143022'') = Some ''damaged live'' \<and>
   stdout (snd (backup_database False ex_tools_index ''backup_20241201_143022'' ex_sh_damaged)) =
     [Log INFO ''Creating database backup: backup_20241201_143022'',
      Echo ''0|0|0'',
      Log SUCCESS ''Database backup verified: backup_20241201_143022.db'',
      Echo (database_backup_path ''backup_20241201_143022'')] \<and>
   fst (backup_database True ex_tools_index ''backup_20241201_143022'' ex_sh_damaged) =
     Return 0 \<and>
   files (snd (backup_database True ex_tools_index ''backup_20241201_143022'' ex_sh_damaged))
     (database_backup_path ''backup_20241201_143022'') = Some ''damaged live''"
  by code_simp

subsection \<open>Full restore\<close>

lemma parse_restore_type_full:
  "''--db-only'' \<notin> set flags \<Longrightarrow> ''--files-only'' \<notin> set flags \<Longrightarrow>
   parse_restore_type rt flags = rt"
  by (induction flags arbitrary: rt) auto

text \<open>
  C10. In a restore with neither \<^verbatim>\<open>--db-only\<close> nor \<^verbatim>\<open>--files-only\<close>: when
  \<^verbatim>\<open>restore_database\<close> does not return 0, the script ends there with a non-zero status,
  in the state \<^verbatim>\<open>restore_database\<close> left, with every directory of file assets as it
  was; when it returns 0, the command is \<^verbatim>\<open>restore_files\<close> run on the state that
  \<^verbatim>\<open>restore_database\<close> left.
\<close>

theorem full_restore_database_first:
  assumes "''--db-only'' \<notin> set flags" and "''--files-only'' \<notin> set flags"
  shows "(fst (restore_database T ts1 n s) \<noteq> Return 0 \<longrightarrow>
            snd (main_restore T ts1 ts2 (n # flags) s) = snd (restore_database T ts1 n s) \<and>
            dirs (snd (main_restore T ts1 ts2 (n # flags) s)) = dirs s \<and>
            exit_status (main_restore T ts1 ts2 (n # flags) s) \<noteq> 0 \<and>
            (\<exists>k. fst (main_restore T ts1 ts2 (n # flags) s) = Exit k)) \<and>
         (fst (restore_database T ts1 n s) = Return 0 \<longrightarrow>
            main_restore T ts1 ts2 (n # flags) s =
              errexit_call (restore_files T ts2 n (snd (restore_database T ts1 n s))))"
proof -
  have p: "parse_restore_type RestoreFull flags = RestoreFull"
    using assms by (rule parse_restore_type_full)
  show ?thesis
  proof (cases "fst (restore_database T ts1 n s)")
    case (Return k)
    then show ?thesis
      using restore_database_dirs [of T ts1 n s]
      by (simp add: main_restore_def p errexit_call_def exit_status_def Let_def)
  next
    case (Exit k)
    then show ?thesis
      using restore_database_dirs [of T ts1 n s] restore_database_exit_nonzero [of T ts1 n s k]
      by (simp add: main_restore_def p errexit_call_def exit_status_def Let_def)
  qed
qed

text \<open>
  Witness for C10: the damaged backup stops the command before the files are touched; the
  sound backup is followed by the files restore, which replaces the assets directory.
\<close>

theorem full_restore_database_first_witness:
  "''--db-only'' \<notin> set [] \<and> ''--files-only'' \<notin> set [] \<and>
   fst (restore_database ex_tools ''20241201_143022'' ''bad'' ex_sh) \<noteq> Return 0 \<and>
   dirs (snd (main_restore ex_tools ''20241201_143022'' ''20241201_143023'' [''bad''] ex_sh)) = dirs ex_sh \<and>
   fst (main_restore ex_tools ''20241201_143022'' ''20241201_143023'' [''bad''] ex_sh) = Exit 1 \<and>
   fst (restore_database ex_tools ''20241201_143022'' ''b1'' ex_sh) = Return 0 \<and>
   dirs (snd (main_restore ex_tools ''20241201_143022'' ''20241201_143023'' [''b1''] ex_sh)) FILES_PATH =
     Some [(''a.png'', ''old'')]"
proof -
  have good: "files ex_sh (database_backup_path ''b1'') = Some ''SQLite b1''"
    and bad: "files ex_sh (database_backup_path ''bad'') = Some ''damaged''"
    and live: "files ex_sh DATABASE_PATH = Some ''SQLite live''"
    by (simp_all add: ex_sh_defs)
  have ok: "integrity_ok ex_tools (Some ''SQLite b1'')"
    and nok: "\<not> integrity_ok ex_tools (Some ''damaged'')"
    by (simp_all add: ex_sh_defs)
  have r1: "fst (restore_database ex_tools ''20241201_143022'' ''bad'' ex_sh) = Return 1"
    using restore_bad [OF bad live nok] by simp
  have r2: "fst (restore_database ex_tools ''20241201_143022'' ''b1'' ex_sh) = Return 0"
    and d2: "dirs (snd (restore_database ex_tools ''20241201_143022'' ''b1'' ex_sh)) = dirs ex_sh"
    using restore_good [OF good live ok] by simp_all
  have ar: "files (snd (restore_database ex_tools ''20241201_143022'' ''b1'' ex_sh)) (files_backup_path ''b1'') = Some ''tar:old''"
    using good live ok by (simp add: restore_database_def Let_def cp_def log_def ex_sh_defs)
  have f: "dirs (snd (errexit_call (restore_files ex_tools ''20241201_143023'' ''b1''
        (snd (restore_database ex_tools ''20241201_143022'' ''b1'' ex_sh))))) FILES_PATH = Some [(''a.png'', ''old'')]"
    using ar d2
    by (simp add: restore_files_def Let_def errexit_call_def tar_xzf_def mv_dir_def log_def merge_tree_def ex_sh_defs)
  show ?thesis
    using full_restore_database_first [of "[]" ex_tools "''20241201_143022''" "''bad''" ex_sh "''20241201_143023''"]
      full_restore_database_first [of "[]" ex_tools "''20241201_143022''" "''b1''" ex_sh "''20241201_143023''"] r1 r2 f
    by (simp add: exit_status_def main_restore_def errexit_call_def)
qed


subsection \<open>Cleanup\<close>

lemma split_words_plain:
  "\<forall>c\<in>set n. \<not> is_ifs c \<Longrightarrow> split_words w (n @ rest) = split_words (w @ n) rest"
  by (induction n arbitrary: w) simp_all

lemma split_words_unlines:
  "\<forall>n\<in>set ns. n \<noteq> [] \<and> (\<forall>c\<in>set n. \<not> is_ifs c) \<Longrightarrow> split_words [] (unlines ns) = ns"
proof (induction ns)
  case Nil
  then show ?case by (simp add: unlines_def)
next
  case (Cons n ns)
  then have n: "n \<noteq> []" "\<forall>c\<in>set n. \<not> is_ifs c" by simp_all
  have "split_words [] (unlines (n # ns)) = split_words [] (n @ (CHR 0x0A # unlines ns))"
    by (simp add: unlines_def)
  also have "\<dots> = split_words n (CHR 0x0A # unlines ns)"
    using split_words_plain [OF n(2), of "[]"] by simp
  also have "\<dots> = n # split_words [] (unlines ns)"
    using n(1) by (simp add: is_ifs_def)
  finally show ?case using Cons by simp
qed

lemma plain_name_word: "plain_name n \<Longrightarrow> n \<noteq> [] \<and> (\<forall>c\<in>set n. \<not> is_ifs c)"
  by (simp add: plain_name_def)

lemma plain_name_not_dots: "\<not> plain_name ''.''" "\<not> plain_name ''..''"
  by (simp_all add: plain_name_def)

lemma ls_t_plain:
  "\<forall>e\<in>set es. plain_name (e_name e) \<Longrightarrow>
   ls_t es = map e_name (sort_key (\<lambda>e. (- int (e_mtime e), e_name e)) es)"
  by (simp add: ls_t_def plain_name_def)

lemma set_ls_t: "set (ls_t es) \<subseteq> e_name ` set es"
  by (auto simp add: ls_t_def)

text \<open>The words of \<^verbatim>\<open>$old_backups\<close> are the listed names when every name is one plain word.\<close>

lemma old_backups_plain:
  assumes "plain_files es"
  shows "split_words [] (unlines (drop MAX_LOCAL_BACKUPS (ls_t es))) =
           drop MAX_LOCAL_BACKUPS (ls_t es)"
    and "''.'' \<notin> set (drop MAX_LOCAL_BACKUPS (ls_t es))"
    and "''..'' \<notin> set (drop MAX_LOCAL_BACKUPS (ls_t es))"
proof -
  have names: "\<forall>n\<in>set (drop MAX_LOCAL_BACKUPS (ls_t es)). plain_name n"
  proof
    fix n assume "n \<in> set (drop MAX_LOCAL_BACKUPS (ls_t es))"
    then have "n \<in> set (ls_t es)" by (rule in_set_dropD)
    then have "n \<in> e_name ` set es" using set_ls_t by blast
    then show "plain_name n" using assms by (auto simp add: plain_files_def)
  qed
  then have "\<forall>n\<in>set (drop MAX_LOCAL_BACKUPS (ls_t es)). n \<noteq> [] \<and> (\<forall>c\<in>set n. \<not> is_ifs c)"
    using plain_name_word by blast
  then show "split_words [] (unlines (drop MAX_LOCAL_BACKUPS (ls_t es))) =
      drop MAX_LOCAL_BACKUPS (ls_t es)"
    by (rule split_words_unlines)
  show "''.'' \<notin> set (drop MAX_LOCAL_BACKUPS (ls_t es))"
  proof
    assume "''.'' \<in> set (drop MAX_LOCAL_BACKUPS (ls_t es))"
    with names have "plain_name ''.''" by (rule bspec)
    then show False by (simp add: plain_name_not_dots)
  qed
  show "''..'' \<notin> set (drop MAX_LOCAL_BACKUPS (ls_t es))"
  proof
    assume "''..'' \<in> set (drop MAX_LOCAL_BACKUPS (ls_t es))"
    with names have "plain_name ''..''" by (rule bspec)
    then show False by (simp add: plain_name_not_dots)
  qed
qed

lemma rm_f_entry_file:
  assumes "local_dirs s d = Some es" and "\<forall>e\<in>set es. e_kind e = RegularFile"
    and "b \<noteq> ''.''" and "b \<noteq> ''..''"
  shows "rm_f_entry d b s =
           (0, s\<lparr>local_dirs := (local_dirs s)(d \<mapsto> filter (\<lambda>e. e_name e \<noteq> b) es)\<rparr>)"
  using assms by (auto simp add: rm_f_entry_def)

lemma delete_local_loop_files:
  assumes "local_dirs s d = Some es" and "\<forall>e\<in>set es. e_kind e = RegularFile"
    and "''.'' \<notin> set ns" and "''..'' \<notin> set ns"
  shows "fst (delete_local_loop False d ns s) = Return 0 \<and>
         local_dirs (snd (delete_local_loop False d ns s)) =
           (local_dirs s)(d \<mapsto> filter (\<lambda>e. e_name e \<notin> set ns) es) \<and>
         cloud (snd (delete_local_loop False d ns s)) = cloud s"
  using assms
proof (induction ns arbitrary: s es)
  case Nil
  then show ?case by (simp add: fun_eq_iff)
next
  case (Cons b ns)
  define s' where "s' = log INFO (''Deleted old backup: '' @ b)
    (s\<lparr>local_dirs := (local_dirs s)(d \<mapsto> filter (\<lambda>e. e_name e \<noteq> b) es)\<rparr>)"
  have rm: "rm_f_entry d b s =
      (0, s\<lparr>local_dirs := (local_dirs s)(d \<mapsto> filter (\<lambda>e. e_name e \<noteq> b) es)\<rparr>)"
    using Cons.prems by (intro rm_f_entry_file) auto
  have step: "delete_local_loop False d (b # ns) s = delete_local_loop False d ns s'"
    by (simp add: rm s'_def)
  have d': "local_dirs s' d = Some (filter (\<lambda>e. e_name e \<noteq> b) es)"
    and l': "local_dirs s' = (local_dirs s)(d \<mapsto> filter (\<lambda>e. e_name e \<noteq> b) es)"
    and c': "cloud s' = cloud s"
    by (simp_all add: s'_def log_def)
  have r': "\<forall>e\<in>set (filter (\<lambda>e. e_name e \<noteq> b) es). e_kind e = RegularFile"
    using Cons.prems(2) by simp
  have n': "''.'' \<notin> set ns" "''..'' \<notin> set ns" using Cons.prems(3,4) by simp_all
  have f: "filter (\<lambda>e. e_name e \<notin> set ns) (filter (\<lambda>e. e_name e \<noteq> b) es) =
      filter (\<lambda>e. e_name e \<notin> set (b # ns)) es"
    by (auto intro: filter_cong)
  show ?case
    using Cons.IH [OF d' r' n'] by (simp only: step l' c' f fun_upd_upd)
qed

lemma delete_local_loop_dry:
  "delete_local_loop True d ns s =
     (Return 0, s\<lparr>stdout := stdout s @ map (\<lambda>b. Echo (''Would delete: '' @ d @ ''/'' @ b)) ns\<rparr>)"
  by (induction ns arbitrary: s) (simp_all add: echo_def)

lemma fold_delete_cloud_dry:
  "fold (delete_cloud True) ns s =
     s\<lparr>stdout := stdout s @ map (\<lambda>b. Echo (''Would delete from cloud: '' @ b)) ns\<rparr>"
proof (induction ns arbitrary: s)
  case Nil
  show ?case by simp
next
  case (Cons b ns)
  have "delete_cloud True b s = s\<lparr>stdout := stdout s @ [Echo (''Would delete from cloud: '' @ b)]\<rparr>"
    by (simp add: delete_cloud_def echo_def)
  then show ?case by (simp add: Cons)
qed

lemma delete_cloud_local: "local_dirs (delete_cloud dry b s) = local_dirs s"
  by (simp add: delete_cloud_def s3_rm_def log_def echo_def)

lemma fold_delete_cloud_local: "local_dirs (fold (delete_cloud dry) ns s) = local_dirs s"
  by (induction ns arbitrary: s) (simp_all add: delete_cloud_local)

lemma cleanup_cloud_local: "local_dirs (cleanup_cloud dry s) = local_dirs s"
  by (simp add: cleanup_cloud_def Let_def fold_delete_cloud_local split: option.splits)

lemma local_backup_dir_inj [simp]: "local_backup_dir a = local_backup_dir b \<longleftrightarrow> a = b"
  by (simp add: local_backup_dir_def)

text \<open>One backup directory, without dry run, when it holds only plain regular files.\<close>

lemma cleanup_local_files:
  assumes "\<forall>es. local_dirs s (local_backup_dir bt) = Some es \<longrightarrow> plain_files es"
  shows "fst (cleanup_local False bt s) = Return 0 \<and>
         local_dirs (snd (cleanup_local False bt s)) =
           (local_dirs s)(local_backup_dir bt := map_option keep (local_dirs s (local_backup_dir bt)))"
proof (cases "local_dirs s (local_backup_dir bt)")
  case None
  then show ?thesis by (simp add: cleanup_local_def fun_eq_iff)
next
  case (Some es)
  then have p: "plain_files es" using assms by simp
  then have r: "\<forall>e\<in>set es. e_kind e = RegularFile" by (simp add: plain_files_def)
  note w = old_backups_plain [OF p]
  have "cleanup_local False bt s =
      delete_local_loop False (local_backup_dir bt) (drop MAX_LOCAL_BACKUPS (ls_t es)) s"
    using Some by (simp add: cleanup_local_def w(1))
  then show ?thesis
    using delete_local_loop_files [OF Some r w(2) w(3)] Some by (simp add: keep_def)
qed

lemma cleanup_local_dry:
  "fst (cleanup_local True bt s) = Return 0 \<and>
   local_dirs (snd (cleanup_local True bt s)) = local_dirs s \<and>
   cloud (snd (cleanup_local True bt s)) = cloud s \<and>
   set (stdout s) \<subseteq> set (stdout (snd (cleanup_local True bt s)))"
  by (simp add: cleanup_local_def Let_def delete_local_loop_dry split: option.splits)

lemma cleanup_cloud_dry: "cloud (cleanup_cloud True s) = cloud s"
  by (simp add: cleanup_cloud_def Let_def fold_delete_cloud_dry split: option.splits)

lemma cleanup_cloud_dry_stdout: "set (stdout s) \<subseteq> set (stdout (cleanup_cloud True s))"
  by (simp add: cleanup_cloud_def Let_def fold_delete_cloud_dry split: option.splits)

lemma cleanup_local_dry_reports:
  assumes "local_dirs s (local_backup_dir bt) = Some es" and "plain_files es"
    and "n \<in> set (drop MAX_LOCAL_BACKUPS (ls_t es))"
  shows "Echo (''Would delete: '' @ local_backup_dir bt @ ''/'' @ n) \<in>
           set (stdout (snd (cleanup_local True bt s)))"
  using assms(1,3)
  by (simp add: cleanup_local_def Let_def delete_local_loop_dry old_backups_plain(1) [OF assms(2)])

lemma kept_newest:
  assumes d: "distinct (map e_name es)" and p: "plain_files es"
  shows "set (keep es) \<subseteq> set es"
    and "length (keep es) = min MAX_LOCAL_BACKUPS (length es)"
    and "\<forall>k\<in>set (keep es). \<forall>e\<in>set es - set (keep es). e_mtime e \<le> e_mtime k"
    and "\<forall>e\<in>set es - set (keep es). e_name e \<in> set (drop MAX_LOCAL_BACKUPS (ls_t es))"
proof -
  define key :: "entry \<Rightarrow> int \<times> string" where "key = (\<lambda>e. (- int (e_mtime e), e_name e))"
  define srt where "srt = sort_key key es"
  define new where "new = take MAX_LOCAL_BACKUPS srt"
  define old where "old = drop MAX_LOCAL_BACKUPS srt"
  have ls: "ls_t es = map e_name srt"
    using p by (simp add: ls_t_plain srt_def key_def plain_files_def)
  have srt: "srt = new @ old" by (simp add: new_def old_def)
  have set_srt: "set srt = set es" by (simp add: srt_def)
  have "distinct (map e_name srt)"
    using d by (simp add: distinct_map srt_def)
  then have disj: "e_name ` set new \<inter> e_name ` set old = {}" and dnew: "distinct new"
    by (auto simp add: srt distinct_map)
  have dropn: "drop MAX_LOCAL_BACKUPS (ls_t es) = map e_name old"
    by (simp add: ls old_def drop_map)
  have keep: "set (keep es) = set new"
    using disj set_srt by (auto simp add: keep_def dropn srt)
  show "set (keep es) \<subseteq> set es" by (simp add: keep_def)
  have "distinct (keep es)" using d by (simp add: keep_def distinct_map)
  then have "length (keep es) = card (set new)"
    using distinct_card [of "keep es"] keep by simp
  also have "\<dots> = length new" using dnew by (rule distinct_card)
  also have "\<dots> = min MAX_LOCAL_BACKUPS (length es)" by (simp add: new_def srt_def min.commute)
  finally show "length (keep es) = min MAX_LOCAL_BACKUPS (length es)" .
  have rest: "set es - set (keep es) \<subseteq> set old"
    using set_srt by (auto simp add: keep srt)
  have "sorted (map key srt)" by (simp add: srt_def)
  then have "\<forall>k\<in>set new. \<forall>e\<in>set old. key k \<le> key e"
    by (auto simp add: srt sorted_append)
  then have "\<forall>k\<in>set new. \<forall>e\<in>set old. e_mtime e \<le> e_mtime k"
    by (fastforce simp add: key_def less_eq_prod_def)
  then show "\<forall>k\<in>set (keep es). \<forall>e\<in>set es - set (keep es). e_mtime e \<le> e_mtime k"
    using rest keep by blast
  show "\<forall>e\<in>set es - set (keep es). e_name e \<in> set (drop MAX_LOCAL_BACKUPS (ls_t es))"
    using rest by (auto simp add: dropn)
qed

text \<open>The three directories in turn, without dry run.\<close>

lemma cleanup_backups_local:
  assumes bt: "bt \<in> {''database'', ''files'', ''full''}"
    and dir: "local_dirs s (local_backup_dir bt) = Some es"
    and p: "\<forall>t\<in>{''database'', ''files'', ''full''}.
              \<forall>es'. local_dirs s (local_backup_dir t) = Some es' \<longrightarrow> plain_files es'"
  shows "fst (cleanup_backups False s) = Return 0"
    and "local_dirs (snd (cleanup_backups False s)) (local_backup_dir bt) = Some (keep es)"
proof -
  define s1 where "s1 = log INFO ''Cleaning up old backups (keeping 30 local, 90 cloud)...'' s"
  define s2 where "s2 = snd (cleanup_local False ''database'' s1)"
  define s3 where "s3 = snd (cleanup_local False ''files'' s2)"
  define s4 where "s4 = snd (cleanup_local False ''full'' s3)"
  have l1: "local_dirs s1 = local_dirs s" by (simp add: s1_def log_def)
  have p1: "\<forall>es'. local_dirs s1 (local_backup_dir ''database'') = Some es' \<longrightarrow> plain_files es'"
    using p l1 by simp
  note c1 = cleanup_local_files [OF p1]
  have l2: "local_dirs s2 = (local_dirs s)(local_backup_dir ''database'' :=
      map_option keep (local_dirs s (local_backup_dir ''database'')))"
    using c1 by (simp add: s2_def l1)
  have p2: "\<forall>es'. local_dirs s2 (local_backup_dir ''files'') = Some es' \<longrightarrow> plain_files es'"
    using p by (simp add: l2)
  note c2 = cleanup_local_files [OF p2]
  have l3: "local_dirs s3 = (local_dirs s2)(local_backup_dir ''files'' :=
      map_option keep (local_dirs s (local_backup_dir ''files'')))"
    using c2 by (simp add: s3_def l2)
  have p3: "\<forall>es'. local_dirs s3 (local_backup_dir ''full'') = Some es' \<longrightarrow> plain_files es'"
    using p by (simp add: l3 l2)
  note c3 = cleanup_local_files [OF p3]
  have l4: "local_dirs s4 = (local_dirs s3)(local_backup_dir ''full'' :=
      map_option keep (local_dirs s (local_backup_dir ''full'')))"
    using c3 by (simp add: s4_def l3 l2)
  have loop: "cleanup_local_loop False [''database'', ''files'', ''full''] s1 = (Return 0, s4)"
    using c1 c2 c3
    by (simp add: s2_def [symmetric] s3_def [symmetric] s4_def [symmetric] Let_def
        prod_eq_iff)
  have run: "cleanup_backups False s =
      (Return 0, log SUCCESS ''Cleanup completed'' (cleanup_cloud False s4))"
    by (simp add: cleanup_backups_def Let_def s1_def [symmetric] loop
        del: cleanup_local_loop.simps)
  show "fst (cleanup_backups False s) = Return 0" by (simp add: run)
  have "local_dirs s4 (local_backup_dir bt) = Some (keep es)"
    using bt dir by (auto simp add: l4 l3 l2)
  then show "local_dirs (snd (cleanup_backups False s)) (local_backup_dir bt) = Some (keep es)"
    by (simp add: run log_def cleanup_cloud_local)
qed

lemma cleanup_local_loop_dry:
  "fst (cleanup_local_loop True ts s) = Return 0 \<and>
   local_dirs (snd (cleanup_local_loop True ts s)) = local_dirs s \<and>
   cloud (snd (cleanup_local_loop True ts s)) = cloud s \<and>
   set (stdout s) \<subseteq> set (stdout (snd (cleanup_local_loop True ts s)))"
proof (induction ts arbitrary: s)
  case Nil
  show ?case by simp
next
  case (Cons t ts)
  note c = cleanup_local_dry [of t s]
  have "cleanup_local_loop True (t # ts) s =
      cleanup_local_loop True ts (snd (cleanup_local True t s))"
    using c by (simp add: Let_def)
  then show ?case
    using Cons [of "snd (cleanup_local True t s)"] c by auto
qed

lemma cleanup_backups_dry_run:
  "cleanup_backups True s =
     (Return 0, cleanup_cloud True (snd (cleanup_local_loop True [''database'', ''files'', ''full'']
        (log INFO ''Cleaning up old backups (keeping 30 local, 90 cloud)...'' s))))"
  using cleanup_local_loop_dry [of "[''database'', ''files'', ''full'']"
      "log INFO ''Cleaning up old backups (keeping 30 local, 90 cloud)...'' s"]
  by (simp add: cleanup_backups_def Let_def del: cleanup_local_loop.simps)

lemma cleanup_backups_dry:
  "fst (cleanup_backups True s) = Return 0 \<and>
   local_dirs (snd (cleanup_backups True s)) = local_dirs s \<and>
   cloud (snd (cleanup_backups True s)) = cloud s"
  using cleanup_local_loop_dry [of "[''database'', ''files'', ''full'']"
      "log INFO ''Cleaning up old backups (keeping 30 local, 90 cloud)...'' s"]
  by (simp add: cleanup_backups_dry_run cleanup_cloud_local cleanup_cloud_dry log_def)

lemma cleanup_local_loop_dry_reports:
  assumes "bt \<in> set ts" and "local_dirs s (local_backup_dir bt) = Some es" and "plain_files es"
    and "n \<in> set (drop MAX_LOCAL_BACKUPS (ls_t es))"
  shows "Echo (''Would delete: '' @ local_backup_dir bt @ ''/'' @ n) \<in>
           set (stdout (snd (cleanup_local_loop True ts s)))"
  using assms(1,2)
proof (induction ts arbitrary: s)
  case Nil
  then show ?case by simp
next
  case (Cons t ts)
  let ?s = "snd (cleanup_local True t s)"
  note c = cleanup_local_dry [of t s]
  have step: "cleanup_local_loop True (t # ts) s = cleanup_local_loop True ts ?s"
    using c by (simp add: Let_def)
  show ?case
  proof (cases "bt = t")
    case True
    have "Echo (''Would delete: '' @ local_backup_dir bt @ ''/'' @ n) \<in> set (stdout ?s)"
      using cleanup_local_dry_reports [OF Cons.prems(2) assms(3,4)] True by simp
    then show ?thesis
      using cleanup_local_loop_dry [of ts ?s] unfolding step by auto
  next
    case False
    then have "bt \<in> set ts" using Cons.prems(1) by simp
    moreover have "local_dirs ?s (local_backup_dir bt) = Some es"
      using c Cons.prems(2) by simp
    ultimately show ?thesis using Cons.IH [of ?s] unfolding step by simp
  qed
qed

lemma cleanup_backups_dry_reports:
  assumes bt: "bt \<in> {''database'', ''files'', ''full''}"
    and dir: "local_dirs s (local_backup_dir bt) = Some es"
    and p: "plain_files es"
    and n: "n \<in> set (drop MAX_LOCAL_BACKUPS (ls_t es))"
  shows "Echo (''Would delete: '' @ local_backup_dir bt @ ''/'' @ n) \<in>
           set (stdout (snd (cleanup_backups True s)))"
proof -
  define s1 where "s1 = log INFO ''Cleaning up old backups (keeping 30 local, 90 cloud)...'' s"
  have d1: "local_dirs s1 (local_backup_dir bt) = Some es"
    using dir by (simp add: s1_def log_def)
  have b: "bt \<in> set [''database'', ''files'', ''full'']" using bt by simp
  have "Echo (''Would delete: '' @ local_backup_dir bt @ ''/'' @ n) \<in>
      set (stdout (snd (cleanup_local_loop True [''database'', ''files'', ''full''] s1)))"
    by (rule cleanup_local_loop_dry_reports [OF b d1 p n])
  then show ?thesis
    using cleanup_cloud_dry_stdout
      [of "snd (cleanup_local_loop True [''database'', ''files'', ''full''] s1)"]
    by (auto simp add: cleanup_backups_dry_run s1_def)
qed

text \<open>
  C9 does not hold of the script, in two ways. In the directory of full backups with
  thirty archives and, older than all of them, the staging directory of an interrupted
  full backup, \<^verbatim>\<open>rm -f\<close> (without \<^verbatim>\<open>-r\<close>) fails on the directory and \<^verbatim>\<open>set -e\<close>
  ends the script with status 1: thirty-one entries remain. In the directory of database
  backups with thirty backups and an older regular file whose name holds a blank, the
  unquoted \<^verbatim>\<open>$old_backups\<close> splits the name in two, the script removes nothing and
  reports success: thirty-one entries remain, and the two lines it prints name files
  that never existed.
\<close>

theorem cleanup_leaves_more_than_max:
  "length ex_full_entries = MAX_LOCAL_BACKUPS + 1 \<and>
   fst (cleanup_backups False ex_backups_staging) = Exit 1 \<and>
   local_dirs (snd (cleanup_backups False ex_backups_staging)) (local_backup_dir ''full'') =
     Some ex_full_entries \<and>
   length ex_blank_entries = MAX_LOCAL_BACKUPS + 1 \<and>
   list_all (\<lambda>e. e_kind e = RegularFile) ex_blank_entries \<and>
   fst (cleanup_backups False ex_backups_blank) = Return 0 \<and>
   local_dirs (snd (cleanup_backups False ex_backups_blank)) (local_backup_dir ''database'') =
     Some ex_blank_entries \<and>
   stdout (snd (cleanup_backups False ex_backups_blank)) =
     [Log INFO ''Cleaning up old backups (keeping 30 local, 90 cloud)...'',
      Log INFO ''Deleted old backup: backup'',
      Log INFO ''Deleted old backup: copy.db'',
      Log SUCCESS ''Cleanup completed'']"
  by code_simp

text \<open>
  What \<^verbatim>\<open>cleanup_backups\<close> does on the directories as the script itself fills them.
  When every entry of the three backup directories is a regular file whose name is one
  plain word, then for each of the three directories, its entries having distinct names:
  \<^verbatim>\<open>cleanup_backups\<close> without dry run returns 0, and afterwards the directory holds
  \<open>min MAX_LOCAL_BACKUPS n\<close> of its \<open>n\<close> entries, and no removed entry is newer than a
  kept one; with \<open>MAX_LOCAL_BACKUPS + 5\<close> entries exactly 5 are removed and
  \<open>MAX_LOCAL_BACKUPS\<close> remain. With dry run every entry that would be removed is printed
  as \<open>Would delete\<close>; and, whatever the directories hold, a dry run returns 0 and
  changes neither a local directory nor the cloud listing.
\<close>

lemma cleanup_keeps_newest:
  assumes bt: "bt \<in> {''database'', ''files'', ''full''}"
    and dir: "local_dirs s (local_backup_dir bt) = Some es"
    and d: "distinct (map e_name es)"
    and p: "\<forall>t\<in>{''database'', ''files'', ''full''}.
              \<forall>es'. local_dirs s (local_backup_dir t) = Some es' \<longrightarrow> plain_files es'"
  shows "fst (cleanup_backups False s) = Return 0 \<and>
         (\<exists>kept. local_dirs (snd (cleanup_backups False s)) (local_backup_dir bt) = Some kept \<and>
           set kept \<subseteq> set es \<and>
           length kept = min MAX_LOCAL_BACKUPS (length es) \<and>
           (\<forall>k\<in>set kept. \<forall>e\<in>set es - set kept. e_mtime e \<le> e_mtime k) \<and>
           (length es = MAX_LOCAL_BACKUPS + 5 \<longrightarrow>
              length kept = MAX_LOCAL_BACKUPS \<and> card (set es - set kept) = 5) \<and>
           (\<forall>e\<in>set es - set kept.
              Echo (''Would delete: '' @ local_backup_dir bt @ ''/'' @ e_name e) \<in>
                set (stdout (snd (cleanup_backups True s))))) \<and>
         fst (cleanup_backups True s) = Return 0 \<and>
         local_dirs (snd (cleanup_backups True s)) = local_dirs s \<and>
         cloud (snd (cleanup_backups True s)) = cloud s"
proof (intro conjI exI)
  have pe: "plain_files es" using p bt dir by blast
  note k = kept_newest [OF d pe]
  show "fst (cleanup_backups False s) = Return 0"
    by (rule cleanup_backups_local(1) [OF bt dir p])
  show "local_dirs (snd (cleanup_backups False s)) (local_backup_dir bt) = Some (keep es)"
    by (rule cleanup_backups_local(2) [OF bt dir p])
  show "set (keep es) \<subseteq> set es" by (rule k(1))
  show "length (keep es) = min MAX_LOCAL_BACKUPS (length es)" by (rule k(2))
  show "\<forall>k\<in>set (keep es). \<forall>e\<in>set es - set (keep es). e_mtime e \<le> e_mtime k" by (rule k(3))
  show "length es = MAX_LOCAL_BACKUPS + 5 \<longrightarrow>
      length (keep es) = MAX_LOCAL_BACKUPS \<and> card (set es - set (keep es)) = 5"
  proof
    assume l: "length es = MAX_LOCAL_BACKUPS + 5"
    have des: "distinct es" using d by (simp add: distinct_map)
    have dk: "distinct (keep es)" using des by (simp add: keep_def)
    have lk: "length (keep es) = MAX_LOCAL_BACKUPS" using k(2) l by simp
    have "card (set es - set (keep es)) = card (set es) - card (set (keep es))"
      using k(1) by (simp add: card_Diff_subset)
    also have "\<dots> = 5" using des dk l lk by (simp add: distinct_card)
    finally show "length (keep es) = MAX_LOCAL_BACKUPS \<and> card (set es - set (keep es)) = 5"
      using lk by simp
  qed
  show "\<forall>e\<in>set es - set (keep es).
      Echo (''Would delete: '' @ local_backup_dir bt @ ''/'' @ e_name e) \<in>
        set (stdout (snd (cleanup_backups True s)))"
    using cleanup_backups_dry_reports [OF bt dir pe] k(4) by blast
  show "fst (cleanup_backups True s) = Return 0"
    and "local_dirs (snd (cleanup_backups True s)) = local_dirs s"
    and "cloud (snd (cleanup_backups True s)) = cloud s"
    using cleanup_backups_dry [of s] by simp_all
qed

text \<open>
  On the example: the thirty-five nightly backups are cut down to thirty, the five
  removed ones being no newer than any kept one; the dry run changes nothing.
\<close>

lemma cleanup_keeps_newest_example:
  "''database'' \<in> {''database'', ''files'', ''full''} \<and>
   local_dirs ex_backups (local_backup_dir ''database'') = Some ex_entries \<and>
   distinct (map e_name ex_entries) \<and>
   plain_files ex_entries \<and>
   local_dirs ex_backups (local_backup_dir ''files'') = None \<and>
   local_dirs ex_backups (local_backup_dir ''full'') = None \<and>
   length ex_entries = MAX_LOCAL_BACKUPS + 5 \<and>
   fst (cleanup_backups False ex_backups) = Return 0 \<and>
   (\<exists>kept. local_dirs (snd (cleanup_backups False ex_backups)) (local_backup_dir ''database'') =
        Some kept \<and>
      set kept \<subseteq> set ex_entries \<and>
      length kept = MAX_LOCAL_BACKUPS \<and> card (set ex_entries - set kept) = 5 \<and>
      (\<forall>k\<in>set kept. \<forall>e\<in>set ex_entries - set kept. e_mtime e \<le> e_mtime k)) \<and>
   local_dirs (snd (cleanup_backups True ex_backups)) = local_dirs ex_backups \<and>
   cloud (snd (cleanup_backups True ex_backups)) = cloud ex_backups"
proof -
  have bt: "''database'' \<in> {''database'', ''files'', ''full''}" by simp
  have dir: "local_dirs ex_backups (local_backup_dir ''database'') = Some ex_entries"
    and nf: "local_dirs ex_backups (local_backup_dir ''files'') = None"
    and nl: "local_dirs ex_backups (local_backup_dir ''full'') = None"
    by (simp_all add: ex_backups_def)
  have d: "distinct (map e_name ex_entries)"
    by (simp add: ex_entries_def)
  have pe: "plain_files ex_entries"
    by (simp add: ex_entries_def plain_files_def plain_name_def is_ifs_def)
  have p: "\<forall>t\<in>{''database'', ''files'', ''full''}.
      \<forall>es'. local_dirs ex_backups (local_backup_dir t) = Some es' \<longrightarrow> plain_files es'"
    using dir nf nl pe by simp
  have l: "length ex_entries = MAX_LOCAL_BACKUPS + 5"
    by (simp add: ex_entries_def MAX_LOCAL_BACKUPS_def)
  note c = cleanup_keeps_newest [OF bt dir d p]
  from c have r: "fst (cleanup_backups False ex_backups) = Return 0" by (rule conjunct1)
  from c obtain kept where
    k1: "local_dirs (snd (cleanup_backups False ex_backups)) (local_backup_dir ''database'') =
           Some kept" and
    k2: "set kept \<subseteq> set ex_entries" and
    k3: "\<forall>k\<in>set kept. \<forall>e\<in>set ex_entries - set kept. e_mtime e \<le> e_mtime k" and
    k4: "length ex_entries = MAX_LOCAL_BACKUPS + 5 \<longrightarrow>
           length kept = MAX_LOCAL_BACKUPS \<and> card (set ex_entries - set kept) = 5"
    by blast
  from c have dl: "local_dirs (snd (cleanup_backups True ex_backups)) = local_dirs ex_backups"
    and dc: "cloud (snd (cleanup_backups True ex_backups)) = cloud ex_backups"
    by blast+
  have k5: "length kept = MAX_LOCAL_BACKUPS" and k6: "card (set ex_entries - set kept) = 5"
    using k4 l by blast+
  have ex: "\<exists>kept. local_dirs (snd (cleanup_backups False ex_backups))
        (local_backup_dir ''database'') = Some kept \<and>
      set kept \<subseteq> set ex_entries \<and>
      length kept = MAX_LOCAL_BACKUPS \<and> card (set ex_entries - set kept) = 5 \<and>
      (\<forall>k\<in>set kept. \<forall>e\<in>set ex_entries - set kept. e_mtime e \<le> e_mtime k)"
    using k1 k2 k5 k6 k3 by blast
  show ?thesis
    using bt dir d pe nf nl l r ex dl dc by (intro conjI) assumption+
qed

section \<open>Properties of the migration script\<close>

lemmas ex_defs = ex_lib_def ok_world_def empty_sqlite_def empty_mongo_def mk_textbook_def
  mk_passageSet_def mk_question_def src_one_textbook_def src_orphans_def src_same_id_def
  src_question_def src_linked_def sqlite_one_version_def src_one_orphan_def
  sqlite_dangling_question_def

lemmas run_defs = migrate_def before_verify_def import_entities_def thenE_def
  setupConnections_def backupExistingData_def initializeSQLite_def migrateTextbooks_def
  migratePassageSets_def migrateQuestions_def migrateSystemPrompts_def
  migrateSystemPromptVersions_def establishRelationships_def verifyMigration_def
  new_migrator_def main_config_def main_def Let_def falsy_def
  textbook_create_def passageSet_create_def question_create_def systemPrompt_create_def
  systemPromptVersion_create_def passageSetTextbook_create_def

subsection \<open>What the verifier raises\<close>

text \<open>
  C3, as stated, fails: the failure names neither the kind nor the counts. A source with
  one textbook and a source with two orphan questions, each run against an empty target,
  mismatch in different kinds with different counts and raise the same error value.
\<close>

theorem verifyMigration_failure_names_nothing:
  "verifyMigration src_one_textbook (new_migrator empty_sqlite) = Inl CountMismatch \<and>
   verifyMigration src_orphans (new_migrator empty_sqlite) = Inl CountMismatch \<and>
   length (textbooks src_one_textbook) = 1 \<and> length (questions src_one_textbook) = 0 \<and>
   length (textbooks src_orphans) = 0 \<and> length (questions src_orphans) = 2 \<and>
   length (textbook (prisma (new_migrator empty_sqlite))) = 0 \<and>
   length (question (prisma (new_migrator empty_sqlite))) = 0"
  by (simp add: ex_defs run_defs)

text \<open>
  C3 (amended). Whenever the counts of Textbooks, PassageSets, Questions or SystemPrompts
  differ between source and target after the import and the relationship step,
  \<^verbatim>\<open>verifyMigration\<close> raises its one fixed count-mismatch error, and the whole run
  (\<^verbatim>\<open>migrate\<close>) fails with that error: nothing is accepted partially.
\<close>

theorem verifyMigration_mismatch_fails_run:
  assumes "before_verify lb w config m st = Inr st'"
    and "length (textbooks m) \<noteq> length (textbook (prisma st')) \<or>
         length (passagesets m) \<noteq> length (passageSet (prisma st')) \<or>
         length (questions m) \<noteq> length (question (prisma st')) \<or>
         length (systemprompts m) \<noteq> length (systemPrompt (prisma st'))"
  shows "verifyMigration m st' = Inl CountMismatch \<and>
         migrate lb w config m st = Inl CountMismatch"
  using assms by (simp add: migrate_def thenE_def verifyMigration_def)

text \<open>Witness for C3 (amended): the two orphan questions are skipped, the run fails.\<close>

theorem verifyMigration_mismatch_fails_run_witness:
  "before_verify ex_lib ok_world main_config src_orphans (new_migrator empty_sqlite) =
     Inr \<lparr>idMapping = Map.empty, uuid_calls = 2, prisma = empty_sqlite\<rparr> \<and>
   length (questions src_orphans) \<noteq> length (question empty_sqlite) \<and>
   verifyMigration src_orphans \<lparr>idMapping = Map.empty, uuid_calls = 2, prisma = empty_sqlite\<rparr> =
     Inl CountMismatch \<and>
   migrate ex_lib ok_world main_config src_orphans (new_migrator empty_sqlite) =
     Inl CountMismatch"
proof -
  have bv: "before_verify ex_lib ok_world main_config src_orphans (new_migrator empty_sqlite) =
      Inr \<lparr>idMapping = Map.empty, uuid_calls = 2, prisma = empty_sqlite\<rparr>"
    by (simp add: ex_defs run_defs)
  have ne: "length (questions src_orphans) \<noteq> length (question empty_sqlite)"
    by (simp add: ex_defs)
  show ?thesis
    using verifyMigration_mismatch_fails_run [OF bv] bv ne by simp
qed

subsection \<open>The exit status of the migration\<close>

text \<open>
  C4 fails on the code: a run that fails verification, and a run that cannot connect to
  the source, both end the process with status 0.
\<close>

theorem main_exits_zero_on_failed_run:
  "migrate ex_lib ok_world main_config src_orphans (new_migrator empty_sqlite) =
     Inl CountMismatch \<and>
   exit_code (main ex_lib ok_world src_orphans empty_sqlite) = 0 \<and>
   migrate ex_lib (ok_world\<lparr>mongo_connects := False\<rparr>) main_config empty_mongo
     (new_migrator empty_sqlite) = Inl MongoConnectError \<and>
   exit_code (main ex_lib (ok_world\<lparr>mongo_connects := False\<rparr>) empty_mongo empty_sqlite) = 0"
  by (simp add: ex_defs run_defs)

subsection \<open>The identifier map\<close>

text \<open>
  C6, as stated, fails: a textbook and a passage set with the same source identifier are
  both imported, the run succeeds, and the second assignment has replaced the first.
\<close>

theorem second_assignment_overwrites:
  "\<not> isl (migrate ex_lib ok_world main_config src_same_id (new_migrator empty_sqlite)) \<and>
   idMapping (projr (migrateTextbooks ex_lib src_same_id (new_migrator empty_sqlite))) ''a'' =
     Some ''u'' \<and>
   idMapping (projr (migrate ex_lib ok_world main_config src_same_id
     (new_migrator empty_sqlite))) ''a'' = Some ''uu''"
  by (simp add: ex_defs run_defs)

text \<open>
  C5, as stated, fails: a question that was imported (its row is in the target, with the
  remapped reference to its passage set) has no entry in the identifier map.
\<close>

theorem imported_question_not_in_idMapping:
  "\<not> isl (import_entities ex_lib src_question (new_migrator empty_sqlite)) \<and>
   map q_setId (question (prisma (projr
     (import_entities ex_lib src_question (new_migrator empty_sqlite))))) = [''u''] \<and>
   idMapping (projr (import_entities ex_lib src_question (new_migrator empty_sqlite))) ''q1'' =
     None"
  by (simp add: ex_defs run_defs)

subsection \<open>Count reconciliation\<close>

text \<open>
  C2, as stated, fails: with an empty source and a target that already holds one prompt
  version the run succeeds, and the SystemPromptVersion counts are 0 and 1. And with one
  orphan question in the source and a target that already holds one question row (which
  references no passage set) the orphan is skipped, the question counts are 1 and 1, and
  the run succeeds.
\<close>

theorem successful_run_version_counts_differ:
  "\<not> isl (migrate ex_lib ok_world main_config empty_mongo (new_migrator sqlite_one_version)) \<and>
   length (systemprompversions empty_mongo) = 0 \<and>
   length (systemPromptVersion (prisma (projr
     (migrate ex_lib ok_world main_config empty_mongo (new_migrator sqlite_one_version))))) = 1 \<and>
   \<not> isl (migrate ex_lib ok_world main_config src_one_orphan
     (new_migrator sqlite_dangling_question)) \<and>
   map mq_setId (questions src_one_orphan) = [''gone''] \<and>
   passagesets src_one_orphan = []"
  by (simp add: ex_defs run_defs)


subsection \<open>The loops, step by step\<close>

lemma migrateTextbooks_loop_Cons:
  "migrateTextbooks_loop lb (tb # rest) st = Inr st' \<longleftrightarrow>
     uuidv4 lb (uuid_calls st) \<notin> set (map t_id (textbook (prisma st))) \<and>
     migrateTextbooks_loop lb rest (textbook_step lb tb st) = Inr st'"
  by (simp add: Let_def textbook_create_def textbook_step_def)

lemma migratePassageSets_loop_Cons:
  "migratePassageSets_loop lb (ps # rest) st = Inr st' \<longleftrightarrow>
     uuidv4 lb (uuid_calls st) \<notin> set (map p_id (passageSet (prisma st))) \<and>
     mp_qrCode ps \<notin> set (map p_qrCode (passageSet (prisma st))) \<and>
     migratePassageSets_loop lb rest (passageSet_step lb ps st) = Inr st'"
  by (simp add: Let_def passageSet_create_def passageSet_step_def)

lemma mapping_inv_assign:
  assumes "inj (uuidv4 lb)" and "mapping_inv lb st"
  shows "mapping_inv lb (st\<lparr>uuid_calls := Suc (uuid_calls st),
            idMapping := (idMapping st)(k \<mapsto> uuidv4 lb (uuid_calls st)), prisma := d\<rparr>)"
proof -
  have fresh: "\<And>k' v. idMapping st k' = Some v \<Longrightarrow> v \<noteq> uuidv4 lb (uuid_calls st)"
  proof
    fix k' v assume m: "idMapping st k' = Some v" and e: "v = uuidv4 lb (uuid_calls st)"
    from assms(2) m have "\<exists>j<uuid_calls st. v = uuidv4 lb j"
      unfolding mapping_inv_def by blast
    then obtain j where "j < uuid_calls st" "v = uuidv4 lb j" by blast
    with e assms(1) show False by (auto dest: injD)
  qed
  show ?thesis
    unfolding mapping_inv_def
  proof (intro conjI allI impI)
    fix k' v
    assume "idMapping (st\<lparr>uuid_calls := Suc (uuid_calls st),
            idMapping := (idMapping st)(k \<mapsto> uuidv4 lb (uuid_calls st)), prisma := d\<rparr>) k' = Some v"
    then show "\<exists>j<uuid_calls (st\<lparr>uuid_calls := Suc (uuid_calls st),
            idMapping := (idMapping st)(k \<mapsto> uuidv4 lb (uuid_calls st)), prisma := d\<rparr>). v = uuidv4 lb j"
      using assms(2) by (auto simp add: mapping_inv_def less_Suc_eq split: if_splits)
  next
    fix k1 k2 v
    assume "idMapping (st\<lparr>uuid_calls := Suc (uuid_calls st),
            idMapping := (idMapping st)(k \<mapsto> uuidv4 lb (uuid_calls st)), prisma := d\<rparr>) k1 = Some v"
      and "idMapping (st\<lparr>uuid_calls := Suc (uuid_calls st),
            idMapping := (idMapping st)(k \<mapsto> uuidv4 lb (uuid_calls st)), prisma := d\<rparr>) k2 = Some v"
    then show "k1 = k2"
      using assms(2) fresh by (auto simp add: mapping_inv_def split: if_splits)
  qed
qed

lemma mapping_inv_textbook_step:
  "inj (uuidv4 lb) \<Longrightarrow> mapping_inv lb st \<Longrightarrow> mapping_inv lb (textbook_step lb tb st)"
  unfolding textbook_step_def by (rule mapping_inv_assign)

lemma mapping_inv_passageSet_step:
  "inj (uuidv4 lb) \<Longrightarrow> mapping_inv lb st \<Longrightarrow> mapping_inv lb (passageSet_step lb ps st)"
  unfolding passageSet_step_def by (rule mapping_inv_assign)

lemma migrateTextbooks_loop_facts:
  "migrateTextbooks_loop lb tbs st = Inr st' \<Longrightarrow>
     uuid_calls st' = uuid_calls st + length tbs \<and>
     passageSet (prisma st') = passageSet (prisma st) \<and>
     question (prisma st') = question (prisma st) \<and>
     length (textbook (prisma st')) = length (textbook (prisma st)) + length tbs \<and>
     set (map t_id (textbook (prisma st))) \<subseteq> set (map t_id (textbook (prisma st'))) \<and>
     (\<forall>k. k \<notin> set (map mt_id tbs) \<longrightarrow> idMapping st' k = idMapping st k) \<and>
     (\<forall>k\<in>set (map mt_id tbs). \<exists>t. idMapping st' k = Some t \<and>
        t \<in> set (map t_id (textbook (prisma st'))))"
proof (induction tbs arbitrary: st)
  case Nil
  then show ?case by simp
next
  case (Cons tb rest)
  let ?st1 = "textbook_step lb tb st"
  from Cons.prems have rec: "migrateTextbooks_loop lb rest ?st1 = Inr st'"
    by (simp only: migrateTextbooks_loop_Cons)
  note ih = Cons.IH [OF rec]
  have s1: "uuid_calls ?st1 = Suc (uuid_calls st)"
    "passageSet (prisma ?st1) = passageSet (prisma st)"
    "question (prisma ?st1) = question (prisma st)"
    "length (textbook (prisma ?st1)) = Suc (length (textbook (prisma st)))"
    "set (map t_id (textbook (prisma ?st1))) =
       insert (uuidv4 lb (uuid_calls st)) (set (map t_id (textbook (prisma st))))"
    "idMapping ?st1 = (idMapping st)(mt_id tb \<mapsto> uuidv4 lb (uuid_calls st))"
    by (simp_all add: textbook_step_def)
  have here: "\<exists>t. idMapping st' (mt_id tb) = Some t \<and> t \<in> set (map t_id (textbook (prisma st')))"
  proof (cases "mt_id tb \<in> set (map mt_id rest)")
    case True
    then show ?thesis using ih by blast
  next
    case False
    then have "idMapping st' (mt_id tb) = Some (uuidv4 lb (uuid_calls st))"
      using ih s1(6) by simp
    moreover have "uuidv4 lb (uuid_calls st) \<in> set (map t_id (textbook (prisma st')))"
      using ih s1(5) by blast
    ultimately show ?thesis by blast
  qed
  show ?case
  proof (intro conjI)
    show "uuid_calls st' = uuid_calls st + length (tb # rest)" using ih s1(1) by simp
    show "passageSet (prisma st') = passageSet (prisma st)" using ih s1(2) by simp
    show "question (prisma st') = question (prisma st)" using ih s1(3) by simp
    show "length (textbook (prisma st')) = length (textbook (prisma st)) + length (tb # rest)"
      using ih s1(4) by simp
    show "set (map t_id (textbook (prisma st))) \<subseteq> set (map t_id (textbook (prisma st')))"
      using ih s1(5) by blast
    show "\<forall>k. k \<notin> set (map mt_id (tb # rest)) \<longrightarrow> idMapping st' k = idMapping st k"
      using ih s1(6) by simp
    show "\<forall>k\<in>set (map mt_id (tb # rest)). \<exists>t. idMapping st' k = Some t \<and>
        t \<in> set (map t_id (textbook (prisma st')))"
    proof
      fix k assume "k \<in> set (map mt_id (tb # rest))"
      then have "k = mt_id tb \<or> k \<in> set (map mt_id rest)" by auto
      then show "\<exists>t. idMapping st' k = Some t \<and> t \<in> set (map t_id (textbook (prisma st')))"
        using ih here by blast
    qed
  qed
qed

lemma migrateTextbooks_loop_inv:
  "migrateTextbooks_loop lb tbs st = Inr st' \<Longrightarrow> inj (uuidv4 lb) \<Longrightarrow>
   mapping_inv lb st \<Longrightarrow> mapping_inv lb st'"
proof (induction tbs arbitrary: st)
  case Nil
  then show ?case by simp
next
  case (Cons tb rest)
  from Cons.prems(1) have rec: "migrateTextbooks_loop lb rest (textbook_step lb tb st) = Inr st'"
    by (simp only: migrateTextbooks_loop_Cons)
  show ?case
    by (rule Cons.IH [OF rec Cons.prems(2) mapping_inv_textbook_step [OF Cons.prems(2,3)]])
qed

lemma migratePassageSets_loop_facts:
  "migratePassageSets_loop lb pss st = Inr st' \<Longrightarrow>
     uuid_calls st' = uuid_calls st + length pss \<and>
     textbook (prisma st') = textbook (prisma st) \<and>
     question (prisma st') = question (prisma st) \<and>
     length (passageSet (prisma st')) = length (passageSet (prisma st)) + length pss \<and>
     set (map p_id (passageSet (prisma st'))) =
       set (map p_id (passageSet (prisma st))) \<union>
       uuidv4 lb ` {uuid_calls st ..< uuid_calls st + length pss} \<and>
     (\<forall>k. k \<notin> set (map mp_id pss) \<longrightarrow> idMapping st' k = idMapping st k) \<and>
     (\<forall>k\<in>set (map mp_id pss). \<exists>t. idMapping st' k = Some t \<and>
        t \<in> set (map p_id (passageSet (prisma st'))))"
proof (induction pss arbitrary: st)
  case Nil
  then show ?case by simp
next
  case (Cons ps rest)
  let ?st1 = "passageSet_step lb ps st"
  from Cons.prems have rec: "migratePassageSets_loop lb rest ?st1 = Inr st'"
    by (simp only: migratePassageSets_loop_Cons)
  note ih = Cons.IH [OF rec]
  have s1: "uuid_calls ?st1 = Suc (uuid_calls st)"
    "textbook (prisma ?st1) = textbook (prisma st)"
    "question (prisma ?st1) = question (prisma st)"
    "length (passageSet (prisma ?st1)) = Suc (length (passageSet (prisma st)))"
    "set (map p_id (passageSet (prisma ?st1))) =
       insert (uuidv4 lb (uuid_calls st)) (set (map p_id (passageSet (prisma st))))"
    "idMapping ?st1 = (idMapping st)(mp_id ps \<mapsto> uuidv4 lb (uuid_calls st))"
    by (simp_all add: passageSet_step_def)
  have ids: "set (map p_id (passageSet (prisma st'))) =
       set (map p_id (passageSet (prisma st))) \<union>
       uuidv4 lb ` {uuid_calls st ..< uuid_calls st + length (ps # rest)}"
  proof -
    have "{uuid_calls st ..< uuid_calls st + length (ps # rest)} =
        insert (uuid_calls st) {Suc (uuid_calls st) ..< Suc (uuid_calls st) + length rest}"
      by auto
    then show ?thesis using ih s1(1,5) by auto
  qed
  have here: "\<exists>t. idMapping st' (mp_id ps) = Some t \<and> t \<in> set (map p_id (passageSet (prisma st')))"
  proof (cases "mp_id ps \<in> set (map mp_id rest)")
    case True
    then show ?thesis using ih by blast
  next
    case False
    then have "idMapping st' (mp_id ps) = Some (uuidv4 lb (uuid_calls st))"
      using ih s1(6) by simp
    moreover have "uuidv4 lb (uuid_calls st) \<in> set (map p_id (passageSet (prisma st')))"
      using ids by simp
    ultimately show ?thesis by blast
  qed
  show ?case
  proof (intro conjI)
    show "uuid_calls st' = uuid_calls st + length (ps # rest)" using ih s1(1) by simp
    show "textbook (prisma st') = textbook (prisma st)" using ih s1(2) by simp
    show "question (prisma st') = question (prisma st)" using ih s1(3) by simp
    show "length (passageSet (prisma st')) = length (passageSet (prisma st)) + length (ps # rest)"
      using ih s1(4) by simp
    show "set (map p_id (passageSet (prisma st'))) =
       set (map p_id (passageSet (prisma st))) \<union>
       uuidv4 lb ` {uuid_calls st ..< uuid_calls st + length (ps # rest)}" by (rule ids)
    show "\<forall>k. k \<notin> set (map mp_id (ps # rest)) \<longrightarrow> idMapping st' k = idMapping st k"
      using ih s1(6) by simp
    show "\<forall>k\<in>set (map mp_id (ps # rest)). \<exists>t. idMapping st' k = Some t \<and>
        t \<in> set (map p_id (passageSet (prisma st')))"
    proof
      fix k assume "k \<in> set (map mp_id (ps # rest))"
      then have "k = mp_id ps \<or> k \<in> set (map mp_id rest)" by auto
      then show "\<exists>t. idMapping st' k = Some t \<and> t \<in> set (map p_id (passageSet (prisma st')))"
        using ih here by blast
    qed
  qed
qed

lemma migratePassageSets_loop_inv:
  "migratePassageSets_loop lb pss st = Inr st' \<Longrightarrow> inj (uuidv4 lb) \<Longrightarrow>
   mapping_inv lb st \<Longrightarrow> mapping_inv lb st'"
proof (induction pss arbitrary: st)
  case Nil
  then show ?case by simp
next
  case (Cons ps rest)
  from Cons.prems(1) have rec: "migratePassageSets_loop lb rest (passageSet_step lb ps st) = Inr st'"
    by (simp only: migratePassageSets_loop_Cons)
  show ?case
    by (rule Cons.IH [OF rec Cons.prems(2) mapping_inv_passageSet_step [OF Cons.prems(2,3)]])
qed

lemma migrateQuestions_loop_skip:
  "falsy (idMapping st (mq_setId q)) \<Longrightarrow>
   migrateQuestions_loop lb (q # rest) st =
     migrateQuestions_loop lb rest (st\<lparr>uuid_calls := Suc (uuid_calls st)\<rparr>)"
  by (simp add: Let_def)

lemma migrateQuestions_loop_create:
  "\<not> falsy (idMapping st (mq_setId q)) \<Longrightarrow>
   migrateQuestions_loop lb (q # rest) st = Inr st' \<longleftrightarrow>
     uuidv4 lb (uuid_calls st) \<notin> set (map q_id (question (prisma st))) \<and>
     the (idMapping st (mq_setId q)) \<in> set (map p_id (passageSet (prisma st))) \<and>
     migrateQuestions_loop lb rest (question_step lb q st) = Inr st'"
  by (simp add: Let_def question_create_def question_step_def)

lemma migrateQuestions_loop_facts:
  "migrateQuestions_loop lb qs st = Inr st' \<Longrightarrow>
     idMapping st' = idMapping st \<and>
     textbook (prisma st') = textbook (prisma st) \<and>
     passageSet (prisma st') = passageSet (prisma st) \<and>
     length (question (prisma st')) =
       length (question (prisma st)) +
       length (filter (\<lambda>q. \<not> falsy (idMapping st (mq_setId q))) qs) \<and>
     (\<forall>q\<in>set qs. \<not> falsy (idMapping st (mq_setId q)) \<longrightarrow>
        the (idMapping st (mq_setId q)) \<in> set (map p_id (passageSet (prisma st))))"
proof (induction qs arbitrary: st)
  case Nil
  then show ?case by simp
next
  case (Cons q rest)
  show ?case
  proof (cases "falsy (idMapping st (mq_setId q))")
    case True
    let ?st1 = "st\<lparr>uuid_calls := Suc (uuid_calls st)\<rparr>"
    have rec: "migrateQuestions_loop lb rest ?st1 = Inr st'"
      using migrateQuestions_loop_skip [OF True, of lb rest] Cons.prems by simp
    from Cons.IH [OF rec] True show ?thesis by simp
  next
    case False
    let ?st1 = "question_step lb q st"
    have fk: "the (idMapping st (mq_setId q)) \<in> set (map p_id (passageSet (prisma st)))"
      and rec: "migrateQuestions_loop lb rest ?st1 = Inr st'"
      using migrateQuestions_loop_create [OF False, of lb rest st'] Cons.prems by blast+
    have s1: "idMapping ?st1 = idMapping st" "textbook (prisma ?st1) = textbook (prisma st)"
      "passageSet (prisma ?st1) = passageSet (prisma st)"
      "length (question (prisma ?st1)) = Suc (length (question (prisma st)))"
      by (simp_all add: question_step_def)
    from Cons.IH [OF rec] False fk show ?thesis by (simp add: s1)
  qed
qed

lemma migrateSystemPrompts_loop_frame:
  "migrateSystemPrompts_loop lb xs st = Inr st' \<Longrightarrow>
     idMapping st' = idMapping st \<and>
     textbook (prisma st') = textbook (prisma st) \<and>
     passageSet (prisma st') = passageSet (prisma st) \<and>
     question (prisma st') = question (prisma st)"
proof (induction xs arbitrary: st)
  case Nil
  then show ?case by simp
next
  case (Cons x xs)
  from Cons.prems obtain d where
    "migrateSystemPrompts_loop lb xs (st\<lparr>uuid_calls := Suc (uuid_calls st), prisma := d\<rparr>) = Inr st'"
    and "textbook d = textbook (prisma st)" "passageSet d = passageSet (prisma st)"
      "question d = question (prisma st)"
    by (auto simp add: Let_def systemPrompt_create_def split: if_splits)
  then show ?case using Cons.IH by fastforce
qed

lemma migrateSystemPromptVersions_loop_frame:
  "migrateSystemPromptVersions_loop lb xs st = Inr st' \<Longrightarrow>
     idMapping st' = idMapping st \<and>
     textbook (prisma st') = textbook (prisma st) \<and>
     passageSet (prisma st') = passageSet (prisma st) \<and>
     question (prisma st') = question (prisma st)"
proof (induction xs arbitrary: st)
  case Nil
  then show ?case by simp
next
  case (Cons x xs)
  from Cons.prems obtain d where
    "migrateSystemPromptVersions_loop lb xs (st\<lparr>uuid_calls := Suc (uuid_calls st), prisma := d\<rparr>) = Inr st'"
    and "textbook d = textbook (prisma st)" "passageSet d = passageSet (prisma st)"
      "question d = question (prisma st)"
    by (auto simp add: Let_def systemPromptVersion_create_def split: if_splits)
  then show ?case using Cons.IH by fastforce
qed

lemma link_textbooks_fold: "link_textbooks p oids st = fold (link_step p) oids st"
  by (induction oids arbitrary: st) (simp_all add: Let_def link_step_def split: sum.splits)

lemma establishRelationships_loop_fold:
  "establishRelationships_loop pss st = fold passageSet_links pss st"
  by (induction pss arbitrary: st) (simp_all add: Let_def passageSet_links_def)

lemma same_entities_refl: "same_entities st st"
  by (simp add: same_entities_def)

lemma same_entities_trans:
  "same_entities a b \<Longrightarrow> same_entities b c \<Longrightarrow> same_entities a c"
  by (auto simp add: same_entities_def)

lemma link_step_same: "same_entities st (link_step p oid st)"
  by (auto simp add: link_step_def same_entities_def passageSetTextbook_create_def)

lemma fold_link_step_same: "same_entities st (fold (link_step p) oids st)"
proof (induction oids arbitrary: st)
  case Nil
  show ?case by (simp add: same_entities_refl)
next
  case (Cons oid oids)
  show ?case
    using same_entities_trans [OF link_step_same Cons.IH] by simp
qed

lemma passageSet_links_same: "same_entities st (passageSet_links ps st)"
  by (simp add: passageSet_links_def link_textbooks_fold fold_link_step_same same_entities_refl)

lemma fold_passageSet_links_same: "same_entities st (fold passageSet_links pss st)"
proof (induction pss arbitrary: st)
  case Nil
  show ?case by (simp add: same_entities_refl)
next
  case (Cons ps pss)
  show ?case
    using same_entities_trans [OF passageSet_links_same Cons.IH] by simp
qed

lemma link_step_links:
  assumes "idMapping st oid = Some t" and "t \<noteq> []"
    and "t \<in> set (map t_id (textbook (prisma st)))"
    and "p \<in> set (map p_id (passageSet (prisma st)))"
  shows "\<lparr>l_textbookId = t, l_passageSetId = p\<rparr> \<in> set (passageSetTextbook (prisma (link_step p oid st)))"
  using assms by (simp add: link_step_def falsy_def passageSetTextbook_create_def)

lemma fold_link_step_links:
  assumes "oid \<in> set oids" and "idMapping st oid = Some t" and "t \<noteq> []"
    and "t \<in> set (map t_id (textbook (prisma st)))"
    and "p \<in> set (map p_id (passageSet (prisma st)))"
  shows "\<lparr>l_textbookId = t, l_passageSetId = p\<rparr> \<in>
           set (passageSetTextbook (prisma (fold (link_step p) oids st)))"
  using assms
proof (induction oids arbitrary: st)
  case Nil
  then show ?case by simp
next
  case (Cons o1 oids)
  let ?st1 = "link_step p o1 st"
  have same: "same_entities st ?st1" by (rule link_step_same)
  show ?case
  proof (cases "o1 = oid")
    case True
    have "\<lparr>l_textbookId = t, l_passageSetId = p\<rparr> \<in> set (passageSetTextbook (prisma ?st1))"
      using link_step_links [OF Cons.prems(2-5)] True by simp
    then show ?thesis
      using fold_link_step_same [of ?st1 p oids] by (auto simp add: same_entities_def)
  next
    case False
    with Cons.prems(1) have "oid \<in> set oids" by simp
    moreover have "idMapping ?st1 oid = Some t"
      "t \<in> set (map t_id (textbook (prisma ?st1)))"
      "p \<in> set (map p_id (passageSet (prisma ?st1)))"
      using same Cons.prems(2,4,5) by (simp_all add: same_entities_def)
    ultimately show ?thesis
      using Cons.IH [of ?st1] Cons.prems(3) by simp
  qed
qed

lemma fold_passageSet_links_links:
  assumes "ps \<in> set pss" and "oid \<in> set (mp_textbooks ps)"
    and "idMapping st (mp_id ps) = Some p" and "p \<noteq> []"
    and "idMapping st oid = Some t" and "t \<noteq> []"
    and "t \<in> set (map t_id (textbook (prisma st)))"
    and "p \<in> set (map p_id (passageSet (prisma st)))"
  shows "\<lparr>l_textbookId = t, l_passageSetId = p\<rparr> \<in>
           set (passageSetTextbook (prisma (fold passageSet_links pss st)))"
  using assms
proof (induction pss arbitrary: st)
  case Nil
  then show ?case by simp
next
  case (Cons p1 pss)
  let ?st1 = "passageSet_links p1 st"
  have same: "same_entities st ?st1" by (rule passageSet_links_same)
  show ?case
  proof (cases "p1 = ps")
    case True
    have "?st1 = fold (link_step p) (mp_textbooks ps) st"
      using Cons.prems(3,4) True by (simp add: passageSet_links_def falsy_def link_textbooks_fold)
    then have "\<lparr>l_textbookId = t, l_passageSetId = p\<rparr> \<in> set (passageSetTextbook (prisma ?st1))"
      using fold_link_step_links [OF Cons.prems(2) Cons.prems(5-8)] by simp
    then show ?thesis
      using fold_passageSet_links_same [of ?st1 pss] by (auto simp add: same_entities_def)
  next
    case False
    with Cons.prems(1) have "ps \<in> set pss" by simp
    moreover have "idMapping ?st1 (mp_id ps) = Some p" "idMapping ?st1 oid = Some t"
      "t \<in> set (map t_id (textbook (prisma ?st1)))"
      "p \<in> set (map p_id (passageSet (prisma ?st1)))"
      using same Cons.prems(3,5,7,8) by (simp_all add: same_entities_def)
    ultimately show ?thesis
      using Cons.IH [of ?st1] Cons.prems(2,4,6) by simp
  qed
qed

lemma distinct_count_list_1: "distinct xs \<Longrightarrow> x \<in> set xs \<Longrightarrow> count_list xs x = 1"
  by (induction xs) auto

lemma thenE_Inr: "thenE r f = Inr y \<longleftrightarrow> (\<exists>x. r = Inr x \<and> f x = Inr y)"
  by (cases r) (simp_all add: thenE_def)

lemma import_entities_stages:
  assumes "import_entities lb m st0 = Inr st"
  obtains st1 st2 st3 st4 where
    "migrateTextbooks_loop lb (textbooks m) st0 = Inr st1"
    "migratePassageSets_loop lb (passagesets m) st1 = Inr st2"
    "migrateQuestions_loop lb (questions m) st2 = Inr st3"
    "migrateSystemPrompts_loop lb (systemprompts m) st3 = Inr st4"
    "migrateSystemPromptVersions_loop lb (systemprompversions m) st4 = Inr st"
  using assms
  unfolding import_entities_def thenE_Inr migrateTextbooks_def migratePassageSets_def
    migrateQuestions_def migrateSystemPrompts_def migrateSystemPromptVersions_def
  by blast

lemma setup_steps_Inr:
  "setupConnections w st = Inr x \<Longrightarrow> x = st"
  "backupExistingData w st = Inr x \<Longrightarrow> x = st"
  "initializeSQLite st = Inr x \<Longrightarrow> x = st"
  "(if b then backupExistingData w st else Inr st) = Inr x \<Longrightarrow> x = st"
  by (simp_all add: setupConnections_def backupExistingData_def initializeSQLite_def
      split: if_splits)

lemma before_verify_stages:
  assumes "before_verify lb w config m st0 = Inr st"
  obtains st5 where "import_entities lb m st0 = Inr st5"
    "st = fold passageSet_links (passagesets m) st5"
proof -
  from assms obtain a b c st5 where
    "setupConnections w st0 = Inr a"
    "(if backup_enabled config then backupExistingData w a else Inr a) = Inr b"
    "initializeSQLite b = Inr c"
    "import_entities lb m c = Inr st5"
    "establishRelationships m st5 = Inr st"
    unfolding before_verify_def thenE_Inr by blast
  then have "import_entities lb m st0 = Inr st5"
    "st = fold passageSet_links (passagesets m) st5"
    using setup_steps_Inr(1) [of w st0 a] setup_steps_Inr(4) [of "backup_enabled config" w a b]
      setup_steps_Inr(3) [of b c]
    by (simp_all add: establishRelationships_def establishRelationships_loop_fold)
  then show ?thesis by (rule that)
qed

lemma migrate_stages:
  assumes "migrate lb w config m st0 = Inr st"
  obtains st5 where "import_entities lb m st0 = Inr st5"
    "st = fold passageSet_links (passagesets m) st5"
    "verifyMigration m st = Inr st"
proof -
  from assms obtain st6 where b: "before_verify lb w config m st0 = Inr st6"
    and v: "verifyMigration m st6 = Inr st"
    unfolding migrate_def thenE_Inr by blast
  from v have e: "st = st6" by (simp add: verifyMigration_def split: if_splits)
  from b obtain st5 where "import_entities lb m st0 = Inr st5"
    "st6 = fold passageSet_links (passagesets m) st5"
    by (rule before_verify_stages)
  then show ?thesis using that v e by simp
qed

lemma mapping_inv_new: "mapping_inv lb (new_migrator d)"
  by (simp add: mapping_inv_def new_migrator_def)

lemma migrateTextbooks_loop_uuid:
  "migrateTextbooks_loop lb tbs st = Inr st' \<Longrightarrow>
     uuid_calls st' = uuid_calls st + length tbs"
  by (drule migrateTextbooks_loop_facts) (elim conjE, assumption)

lemma migrateTextbooks_loop_passageSet:
  "migrateTextbooks_loop lb tbs st = Inr st' \<Longrightarrow>
     passageSet (prisma st') = passageSet (prisma st)"
  by (drule migrateTextbooks_loop_facts) (elim conjE, assumption)

lemma migrateTextbooks_loop_question:
  "migrateTextbooks_loop lb tbs st = Inr st' \<Longrightarrow>
     question (prisma st') = question (prisma st)"
  by (drule migrateTextbooks_loop_facts) (elim conjE, assumption)

lemma migrateTextbooks_loop_length:
  "migrateTextbooks_loop lb tbs st = Inr st' \<Longrightarrow>
     length (textbook (prisma st')) = length (textbook (prisma st)) + length tbs"
  by (drule migrateTextbooks_loop_facts) (elim conjE, assumption)

lemma migrateTextbooks_loop_mono:
  "migrateTextbooks_loop lb tbs st = Inr st' \<Longrightarrow>
     set (map t_id (textbook (prisma st))) \<subseteq> set (map t_id (textbook (prisma st')))"
  by (drule migrateTextbooks_loop_facts) (elim conjE, assumption)

lemma migrateTextbooks_loop_other:
  "migrateTextbooks_loop lb tbs st = Inr st' \<Longrightarrow>
     (\<forall>k. k \<notin> set (map mt_id tbs) \<longrightarrow> idMapping st' k = idMapping st k)"
  by (drule migrateTextbooks_loop_facts) (elim conjE, assumption)

lemma migrateTextbooks_loop_here:
  "migrateTextbooks_loop lb tbs st = Inr st' \<Longrightarrow>
     (\<forall>k\<in>set (map mt_id tbs). \<exists>t. idMapping st' k = Some t \<and>
        t \<in> set (map t_id (textbook (prisma st'))))"
  by (drule migrateTextbooks_loop_facts) (elim conjE, assumption)

lemma migratePassageSets_loop_uuid:
  "migratePassageSets_loop lb pss st = Inr st' \<Longrightarrow>
     uuid_calls st' = uuid_calls st + length pss"
  by (drule migratePassageSets_loop_facts) (elim conjE, assumption)

lemma migratePassageSets_loop_textbook:
  "migratePassageSets_loop lb pss st = Inr st' \<Longrightarrow>
     textbook (prisma st') = textbook (prisma st)"
  by (drule migratePassageSets_loop_facts) (elim conjE, assumption)

lemma migratePassageSets_loop_question:
  "migratePassageSets_loop lb pss st = Inr st' \<Longrightarrow>
     question (prisma st') = question (prisma st)"
  by (drule migratePassageSets_loop_facts) (elim conjE, assumption)

lemma migratePassageSets_loop_length:
  "migratePassageSets_loop lb pss st = Inr st' \<Longrightarrow>
     length (passageSet (prisma st')) = length (passageSet (prisma st)) + length pss"
  by (drule migratePassageSets_loop_facts) (elim conjE, assumption)

lemma migratePassageSets_loop_ids:
  "migratePassageSets_loop lb pss st = Inr st' \<Longrightarrow>
     set (map p_id (passageSet (prisma st'))) =
       set (map p_id (passageSet (prisma st))) \<union>
       uuidv4 lb ` {uuid_calls st ..< uuid_calls st + length pss}"
  by (drule migratePassageSets_loop_facts) (elim conjE, assumption)

lemma migratePassageSets_loop_other:
  "migratePassageSets_loop lb pss st = Inr st' \<Longrightarrow>
     (\<forall>k. k \<notin> set (map mp_id pss) \<longrightarrow> idMapping st' k = idMapping st k)"
  by (drule migratePassageSets_loop_facts) (elim conjE, assumption)

lemma migratePassageSets_loop_here:
  "migratePassageSets_loop lb pss st = Inr st' \<Longrightarrow>
     (\<forall>k\<in>set (map mp_id pss). \<exists>t. idMapping st' k = Some t \<and>
        t \<in> set (map p_id (passageSet (prisma st'))))"
  by (drule migratePassageSets_loop_facts) (elim conjE, assumption)

lemma migrateQuestions_loop_idMapping:
  "migrateQuestions_loop lb qs st = Inr st' \<Longrightarrow>
     idMapping st' = idMapping st"
  by (drule migrateQuestions_loop_facts) (elim conjE, assumption)

lemma migrateQuestions_loop_textbook:
  "migrateQuestions_loop lb qs st = Inr st' \<Longrightarrow>
     textbook (prisma st') = textbook (prisma st)"
  by (drule migrateQuestions_loop_facts) (elim conjE, assumption)

lemma migrateQuestions_loop_passageSet:
  "migrateQuestions_loop lb qs st = Inr st' \<Longrightarrow>
     passageSet (prisma st') = passageSet (prisma st)"
  by (drule migrateQuestions_loop_facts) (elim conjE, assumption)

lemma migrateQuestions_loop_length:
  "migrateQuestions_loop lb qs st = Inr st' \<Longrightarrow>
     length (question (prisma st')) =
       length (question (prisma st)) +
       length (filter (\<lambda>q. \<not> falsy (idMapping st (mq_setId q))) qs)"
  by (drule migrateQuestions_loop_facts) (elim conjE, assumption)

lemma migrateQuestions_loop_fk:
  "migrateQuestions_loop lb qs st = Inr st' \<Longrightarrow>
     (\<forall>q\<in>set qs. \<not> falsy (idMapping st (mq_setId q)) \<longrightarrow>
        the (idMapping st (mq_setId q)) \<in> set (map p_id (passageSet (prisma st))))"
  by (drule migrateQuestions_loop_facts) (elim conjE, assumption)

lemma migrateSystemPrompts_loop_idMapping:
  "migrateSystemPrompts_loop lb xs st = Inr st' \<Longrightarrow>
     idMapping st' = idMapping st"
  by (drule migrateSystemPrompts_loop_frame) (elim conjE, assumption)

lemma migrateSystemPrompts_loop_textbook:
  "migrateSystemPrompts_loop lb xs st = Inr st' \<Longrightarrow>
     textbook (prisma st') = textbook (prisma st)"
  by (drule migrateSystemPrompts_loop_frame) (elim conjE, assumption)

lemma migrateSystemPrompts_loop_passageSet:
  "migrateSystemPrompts_loop lb xs st = Inr st' \<Longrightarrow>
     passageSet (prisma st') = passageSet (prisma st)"
  by (drule migrateSystemPrompts_loop_frame) (elim conjE, assumption)

lemma migrateSystemPrompts_loop_question:
  "migrateSystemPrompts_loop lb xs st = Inr st' \<Longrightarrow>
     question (prisma st') = question (prisma st)"
  by (drule migrateSystemPrompts_loop_frame) (elim conjE, assumption)

lemma migrateSystemPromptVersions_loop_idMapping:
  "migrateSystemPromptVersions_loop lb xs st = Inr st' \<Longrightarrow>
     idMapping st' = idMapping st"
  by (drule migrateSystemPromptVersions_loop_frame) (elim conjE, assumption)

lemma migrateSystemPromptVersions_loop_textbook:
  "migrateSystemPromptVersions_loop lb xs st = Inr st' \<Longrightarrow>
     textbook (prisma st') = textbook (prisma st)"
  by (drule migrateSystemPromptVersions_loop_frame) (elim conjE, assumption)

lemma migrateSystemPromptVersions_loop_passageSet:
  "migrateSystemPromptVersions_loop lb xs st = Inr st' \<Longrightarrow>
     passageSet (prisma st') = passageSet (prisma st)"
  by (drule migrateSystemPromptVersions_loop_frame) (elim conjE, assumption)

lemma migrateSystemPromptVersions_loop_question:
  "migrateSystemPromptVersions_loop lb xs st = Inr st' \<Longrightarrow>
     question (prisma st') = question (prisma st)"
  by (drule migrateSystemPromptVersions_loop_frame) (elim conjE, assumption)

lemma no_orphans:
  assumes i: "inj (uuidv4 lb)"
    and fk: "set (map q_setId (question d)) \<subseteq> set (map p_id (passageSet d))"
    and r: "migrate lb w config m (new_migrator d) = Inr st"
  shows "\<forall>q\<in>set (questions m). mq_setId q \<in> set (map mp_id (passagesets m))"
proof -
  from r obtain st5 where imp: "import_entities lb m (new_migrator d) = Inr st5"
    and st: "st = fold passageSet_links (passagesets m) st5"
    and v: "verifyMigration m st = Inr st"
    by (rule migrate_stages)
  from imp obtain st1 st2 st3 st4 where
    l1: "migrateTextbooks_loop lb (textbooks m) (new_migrator d) = Inr st1" and
    l2: "migratePassageSets_loop lb (passagesets m) st1 = Inr st2" and
    l3: "migrateQuestions_loop lb (questions m) st2 = Inr st3" and
    l4: "migrateSystemPrompts_loop lb (systemprompts m) st3 = Inr st4" and
    l5: "migrateSystemPromptVersions_loop lb (systemprompversions m) st4 = Inr st5"
    by (rule import_entities_stages)
  have same: "same_entities st5 st" unfolding st by (rule fold_passageSet_links_same)
  have inv1: "mapping_inv lb st1"
    by (rule migrateTextbooks_loop_inv [OF l1 i mapping_inv_new])
  have cnt_ps: "length (passagesets m) = length (passageSet (prisma st))"
    and cnt_q: "length (questions m) = length (question (prisma st))"
    using v by (simp_all add: verifyMigration_def split: if_splits)
  have ps_tbl: "passageSet (prisma st) = passageSet (prisma st2)"
    using same migrateQuestions_loop_passageSet [OF l3]
      migrateSystemPrompts_loop_passageSet [OF l4]
      migrateSystemPromptVersions_loop_passageSet [OF l5]
    by (simp add: same_entities_def)
  have q_tbl: "question (prisma st) = question (prisma st3)"
    using same migrateSystemPrompts_loop_question [OF l4]
      migrateSystemPromptVersions_loop_question [OF l5]
    by (simp add: same_entities_def)
  have p1: "passageSet (prisma st1) = passageSet d"
    using migrateTextbooks_loop_passageSet [OF l1] by (simp add: new_migrator_def)
  have q1: "question (prisma st1) = question d"
    using migrateTextbooks_loop_question [OF l1] by (simp add: new_migrator_def)
  have "length (passageSet (prisma st2)) = length (passageSet d) + length (passagesets m)"
    using migratePassageSets_loop_length [OF l2] p1 by simp
  with cnt_ps ps_tbl have pd: "passageSet d = []" by simp
  with fk have qd: "question d = []" by simp
  have q2: "question (prisma st2) = []"
    using migratePassageSets_loop_question [OF l2] q1 qd by simp
  let ?ok = "\<lambda>q. \<not> falsy (idMapping st2 (mq_setId q))"
  have len: "length (filter ?ok (questions m)) = length (questions m)"
    using migrateQuestions_loop_length [OF l3] q2 q_tbl cnt_q by simp
  have all_ok: "\<forall>q\<in>set (questions m). ?ok q"
  proof (rule ccontr)
    assume "\<not> (\<forall>q\<in>set (questions m). ?ok q)"
    then obtain q where "q \<in> set (questions m)" "\<not> ?ok q" by blast
    then have "length (filter ?ok (questions m)) < length (questions m)"
      by (rule length_filter_less)
    with len show False by simp
  qed
  have pids: "set (map p_id (passageSet (prisma st2))) =
      uuidv4 lb ` {uuid_calls st1 ..< uuid_calls st1 + length (passagesets m)}"
    using migratePassageSets_loop_ids [OF l2] p1 pd by simp
  show ?thesis
  proof
    fix q assume q: "q \<in> set (questions m)"
    with all_ok have ok: "?ok q" by blast
    then obtain v where v: "idMapping st2 (mq_setId q) = Some v"
      by (cases "idMapping st2 (mq_setId q)") (simp_all add: falsy_def)
    have "the (idMapping st2 (mq_setId q)) \<in> set (map p_id (passageSet (prisma st2)))"
      using migrateQuestions_loop_fk [OF l3] q ok by blast
    then have "v \<in> uuidv4 lb ` {uuid_calls st1 ..< uuid_calls st1 + length (passagesets m)}"
      unfolding pids using v by simp
    then obtain j where j: "uuid_calls st1 \<le> j" "v = uuidv4 lb j" by auto
    show "mq_setId q \<in> set (map mp_id (passagesets m))"
    proof (rule ccontr)
      assume "mq_setId q \<notin> set (map mp_id (passagesets m))"
      then have "idMapping st2 (mq_setId q) = idMapping st1 (mq_setId q)"
        using migratePassageSets_loop_other [OF l2] by blast
      with v have "idMapping st1 (mq_setId q) = Some v" by simp
      moreover from inv1 have "\<forall>k v. idMapping st1 k = Some v \<longrightarrow> (\<exists>j<uuid_calls st1. v = uuidv4 lb j)"
        unfolding mapping_inv_def by (rule conjunct1)
      ultimately obtain j' where "j' < uuid_calls st1" "v = uuidv4 lb j'" by blast
      with j i show False by (auto dest: injD)
    qed
  qed
qed

lemma ex_lib_inj: "inj (uuidv4 ex_lib)"
  by (simp add: inj_def ex_lib_def)

lemma not_isl_projr: "\<not> isl r \<Longrightarrow> r = Inr (projr r)"
  by (cases r) simp_all

subsection \<open>Amended claims about the identifier map\<close>

text \<open>
  C6 (amended). Assigning a target identifier to a source identifier that is already in
  the map is not an error: the import step of a textbook, and of a passage set, issues a
  new identifier and overwrites the existing entry. (The step fails only when the row
  insert itself is rejected.)
\<close>

theorem assignment_overwrites_existing:
  "(idMapping st (mt_id tb) = Some old \<and>
    uuidv4 lb (uuid_calls st) \<notin> set (map t_id (textbook (prisma st))) \<longrightarrow>
      (\<exists>st'. migrateTextbooks_loop lb [tb] st = Inr st' \<and>
             idMapping st' (mt_id tb) = Some (uuidv4 lb (uuid_calls st)))) \<and>
   (idMapping st (mp_id ps) = Some old \<and>
    uuidv4 lb (uuid_calls st) \<notin> set (map p_id (passageSet (prisma st))) \<and>
    mp_qrCode ps \<notin> set (map p_qrCode (passageSet (prisma st))) \<longrightarrow>
      (\<exists>st'. migratePassageSets_loop lb [ps] st = Inr st' \<and>
             idMapping st' (mp_id ps) = Some (uuidv4 lb (uuid_calls st))))"
  by (simp add: Let_def textbook_create_def passageSet_create_def)

text \<open>
  Witness for C6 (amended): once the textbook \<open>a\<close> is imported and mapped to \<open>u\<close>,
  importing a textbook or a passage set with the same source identifier succeeds and maps
  \<open>a\<close> to the new identifier \<open>uu\<close>.
\<close>

theorem assignment_overwrites_existing_witness:
  "idMapping (projr (migrateTextbooks ex_lib src_same_id (new_migrator empty_sqlite))) ''a'' =
     Some ''u'' \<and>
   (\<exists>st'. migrateTextbooks_loop ex_lib [mk_textbook ''a'']
       (projr (migrateTextbooks ex_lib src_same_id (new_migrator empty_sqlite))) = Inr st' \<and>
     idMapping st' ''a'' = Some ''uu'') \<and>
   (\<exists>st'. migratePassageSets_loop ex_lib [mk_passageSet ''a'' ''qr1'' []]
       (projr (migrateTextbooks ex_lib src_same_id (new_migrator empty_sqlite))) = Inr st' \<and>
     idMapping st' ''a'' = Some ''uu'')"
proof -
  let ?st = "projr (migrateTextbooks ex_lib src_same_id (new_migrator empty_sqlite))"
  have a: "idMapping ?st (mt_id (mk_textbook ''a'')) = Some ''u''"
    "idMapping ?st (mp_id (mk_passageSet ''a'' ''qr1'' [])) = Some ''u''"
    by (simp_all add: ex_defs run_defs)
  have b: "uuidv4 ex_lib (uuid_calls ?st) \<notin> set (map t_id (textbook (prisma ?st)))"
    "uuidv4 ex_lib (uuid_calls ?st) \<notin> set (map p_id (passageSet (prisma ?st)))"
    "mp_qrCode (mk_passageSet ''a'' ''qr1'' []) \<notin> set (map p_qrCode (passageSet (prisma ?st)))"
    by (simp_all add: ex_defs run_defs)
  have c: "uuidv4 ex_lib (uuid_calls ?st) = ''uu''" "mt_id (mk_textbook ''a'') = ''a''"
    "mp_id (mk_passageSet ''a'' ''qr1'' []) = ''a''"
    by (simp_all add: ex_defs run_defs)
  show ?thesis
    using assignment_overwrites_existing [of ?st "mk_textbook ''a''" "''u''" ex_lib
        "mk_passageSet ''a'' ''qr1'' []"] a b c
    by simp
qed

text \<open>
  C5 (amended). When the import of a run has succeeded and \<^verbatim>\<open>uuidv4\<close> never repeats
  a value: for every PassageSet of the source, looking its source identifier up in
  \<^verbatim>\<open>idMapping\<close> gives the identifier of a PassageSet row of the target, and no other
  source identifier maps to it; the same holds, with a Textbook row, for every Textbook
  whose source identifier is not also that of a PassageSet. A source identifier that is
  neither a Textbook's nor a PassageSet's has no entry: a Question, a SystemPrompt or a
  SystemPromptVersion is resolved only when its identifier is also that of a Textbook or
  a PassageSet. The lookup \<^verbatim>\<open>idMapping.get\<close> returns the entry of the map and changes
  nothing, so repeating it gives the same answer.
\<close>

theorem idMapping_resolves_imported:
  assumes i: "inj (uuidv4 lb)" and r: "import_entities lb m (new_migrator d) = Inr st"
  shows "(\<forall>s\<in>set (map mp_id (passagesets m)).
            \<exists>t. idMapping st s = Some t \<and> t \<in> set (map p_id (passageSet (prisma st))) \<and>
                (\<forall>s'. s' \<noteq> s \<longrightarrow> idMapping st s' \<noteq> Some t)) \<and>
         (\<forall>s\<in>set (map mt_id (textbooks m)). s \<notin> set (map mp_id (passagesets m)) \<longrightarrow>
            (\<exists>t. idMapping st s = Some t \<and> t \<in> set (map t_id (textbook (prisma st))) \<and>
                (\<forall>s'. s' \<noteq> s \<longrightarrow> idMapping st s' \<noteq> Some t))) \<and>
         (\<forall>s. s \<notin> set (map mt_id (textbooks m)) \<and> s \<notin> set (map mp_id (passagesets m)) \<longrightarrow>
            idMapping st s = None) \<and>
         (\<forall>s. fst (idMapping_get s st) = idMapping st s \<and> snd (idMapping_get s st) = st \<and>
            idMapping_get s (snd (idMapping_get s st)) = idMapping_get s st)"
proof -
  from r obtain st1 st2 st3 st4 where
    l1: "migrateTextbooks_loop lb (textbooks m) (new_migrator d) = Inr st1" and
    l2: "migratePassageSets_loop lb (passagesets m) st1 = Inr st2" and
    l3: "migrateQuestions_loop lb (questions m) st2 = Inr st3" and
    l4: "migrateSystemPrompts_loop lb (systemprompts m) st3 = Inr st4" and
    l5: "migrateSystemPromptVersions_loop lb (systemprompversions m) st4 = Inr st"
    by (rule import_entities_stages)
  have inv2: "mapping_inv lb st2"
    by (rule migratePassageSets_loop_inv [OF l2 i
          migrateTextbooks_loop_inv [OF l1 i mapping_inv_new]])
  have map: "idMapping st = idMapping st2"
    using migrateQuestions_loop_idMapping [OF l3] migrateSystemPrompts_loop_idMapping [OF l4]
      migrateSystemPromptVersions_loop_idMapping [OF l5] by simp
  have tb: "textbook (prisma st) = textbook (prisma st1)"
    using migratePassageSets_loop_textbook [OF l2] migrateQuestions_loop_textbook [OF l3]
      migrateSystemPrompts_loop_textbook [OF l4]
      migrateSystemPromptVersions_loop_textbook [OF l5] by simp
  have ps: "passageSet (prisma st) = passageSet (prisma st2)"
    using migrateQuestions_loop_passageSet [OF l3] migrateSystemPrompts_loop_passageSet [OF l4]
      migrateSystemPromptVersions_loop_passageSet [OF l5] by simp
  have inj: "\<And>s s' t. idMapping st s = Some t \<Longrightarrow> s' \<noteq> s \<Longrightarrow> idMapping st s' \<noteq> Some t"
  proof
    fix s s' t assume a: "idMapping st s = Some t" "s' \<noteq> s" "idMapping st s' = Some t"
    from inv2 have "\<forall>k k' v. idMapping st2 k = Some v \<longrightarrow> idMapping st2 k' = Some v \<longrightarrow> k = k'"
      unfolding mapping_inv_def by (rule conjunct2)
    with a show False unfolding map by blast
  qed
  show ?thesis
  proof (intro conjI; (intro ballI impI)?)
    fix s assume "s \<in> set (map mp_id (passagesets m))"
    then obtain t where "idMapping st2 s = Some t" "t \<in> set (map p_id (passageSet (prisma st2)))"
      using migratePassageSets_loop_here [OF l2] by blast
    then have "idMapping st s = Some t \<and> t \<in> set (map p_id (passageSet (prisma st)))"
      by (simp add: map ps)
    then show "\<exists>t. idMapping st s = Some t \<and> t \<in> set (map p_id (passageSet (prisma st))) \<and>
                (\<forall>s'. s' \<noteq> s \<longrightarrow> idMapping st s' \<noteq> Some t)"
      using inj by blast
  next
    fix s assume a: "s \<in> set (map mt_id (textbooks m))" "s \<notin> set (map mp_id (passagesets m))"
    from a(1) obtain t where "idMapping st1 s = Some t" "t \<in> set (map t_id (textbook (prisma st1)))"
      using migrateTextbooks_loop_here [OF l1] by blast
    moreover have "idMapping st2 s = idMapping st1 s"
      using migratePassageSets_loop_other [OF l2] a(2) by blast
    ultimately have "idMapping st s = Some t \<and> t \<in> set (map t_id (textbook (prisma st)))"
      by (simp add: map tb)
    then show "\<exists>t. idMapping st s = Some t \<and> t \<in> set (map t_id (textbook (prisma st))) \<and>
                (\<forall>s'. s' \<noteq> s \<longrightarrow> idMapping st s' \<noteq> Some t)"
      using inj by blast
  next
    show "\<forall>s. s \<notin> set (map mt_id (textbooks m)) \<and> s \<notin> set (map mp_id (passagesets m)) \<longrightarrow>
            idMapping st s = None"
    proof (intro allI impI)
      fix s assume a: "s \<notin> set (map mt_id (textbooks m)) \<and> s \<notin> set (map mp_id (passagesets m))"
      have "idMapping st2 s = idMapping st1 s"
        using migratePassageSets_loop_other [OF l2] a by blast
      also have "\<dots> = idMapping (new_migrator d) s"
        using migrateTextbooks_loop_other [OF l1] a by blast
      also have "\<dots> = None" by (simp add: new_migrator_def)
      finally show "idMapping st s = None" by (simp add: map)
    qed
  next
    show "\<forall>s. fst (idMapping_get s st) = idMapping st s \<and> snd (idMapping_get s st) = st \<and>
            idMapping_get s (snd (idMapping_get s st)) = idMapping_get s st"
      by (simp add: idMapping_get_def)
  qed
qed

text \<open>
  Witness for C5 (amended): after the import of the example with one textbook, one
  passage set and one question, \<open>p1\<close> and \<open>t1\<close> resolve to the identifiers of their rows,
  nothing else maps to the passage set's identifier, and the question's identifier \<open>q1\<close>
  has no entry.
\<close>

theorem idMapping_resolves_imported_witness:
  "inj (uuidv4 ex_lib) \<and>
   \<not> isl (import_entities ex_lib src_linked (new_migrator empty_sqlite)) \<and>
   ''p1'' \<in> set (map mp_id (passagesets src_linked)) \<and>
   ''t1'' \<in> set (map mt_id (textbooks src_linked)) \<and>
   ''t1'' \<notin> set (map mp_id (passagesets src_linked)) \<and>
   idMapping (projr (import_entities ex_lib src_linked (new_migrator empty_sqlite))) ''p1'' = Some ''uu'' \<and>
   idMapping (projr (import_entities ex_lib src_linked (new_migrator empty_sqlite))) ''t1'' = Some ''u'' \<and>
   ''uu'' \<in> set (map p_id (passageSet (prisma (projr
      (import_entities ex_lib src_linked (new_migrator empty_sqlite)))))) \<and>
   ''u'' \<in> set (map t_id (textbook (prisma (projr
      (import_entities ex_lib src_linked (new_migrator empty_sqlite)))))) \<and>
   \<not> (\<exists>s'. s' \<noteq> ''p1'' \<and>
      idMapping (projr (import_entities ex_lib src_linked (new_migrator empty_sqlite))) s' =
        Some ''uu'') \<and>
   ''q1'' \<notin> set (map mt_id (textbooks src_linked)) \<and>
   ''q1'' \<notin> set (map mp_id (passagesets src_linked)) \<and>
   idMapping (projr (import_entities ex_lib src_linked (new_migrator empty_sqlite))) ''q1'' = None \<and>
   fst (idMapping_get ''p1''
     (projr (import_entities ex_lib src_linked (new_migrator empty_sqlite)))) = Some ''uu''"
proof -
  let ?st = "projr (import_entities ex_lib src_linked (new_migrator empty_sqlite))"
  have ok: "\<not> isl (import_entities ex_lib src_linked (new_migrator empty_sqlite))"
    by (simp add: ex_defs run_defs)
  have p: "''p1'' \<in> set (map mp_id (passagesets src_linked))"
    and t: "''t1'' \<in> set (map mt_id (textbooks src_linked))"
    and tn: "''t1'' \<notin> set (map mp_id (passagesets src_linked))"
    by (simp_all add: ex_defs)
  have mp: "idMapping ?st ''p1'' = Some ''uu''" and mt: "idMapping ?st ''t1'' = Some ''u''"
    by (simp_all add: ex_defs run_defs)
  have qt: "''q1'' \<notin> set (map mt_id (textbooks src_linked))"
    and qp: "''q1'' \<notin> set (map mp_id (passagesets src_linked))"
    by (simp_all add: ex_defs)
  note c5 = idMapping_resolves_imported [OF ex_lib_inj not_isl_projr [OF ok]]
  note c5p = c5 [THEN conjunct1] and c5t = c5 [THEN conjunct2, THEN conjunct1]
    and c5n = c5 [THEN conjunct2, THEN conjunct2, THEN conjunct1]
    and c5g = c5 [THEN conjunct2, THEN conjunct2, THEN conjunct2]
  from c5p p mp have a: "''uu'' \<in> set (map p_id (passageSet (prisma ?st))) \<and>
      (\<forall>s'. s' \<noteq> ''p1'' \<longrightarrow> idMapping ?st s' \<noteq> Some ''uu'')"
    by fastforce
  from c5t t tn mt have b: "''u'' \<in> set (map t_id (textbook (prisma ?st)))"
    by fastforce
  from c5n qt qp have n: "idMapping ?st ''q1'' = None"
    by (elim allE [of _ "''q1''"]) simp
  from a have a1: "''uu'' \<in> set (map p_id (passageSet (prisma ?st)))"
    by (rule conjunct1)
  have a2: "\<not> (\<exists>s'. s' \<noteq> ''p1'' \<and> idMapping ?st s' = Some ''uu'')"
  proof
    assume "\<exists>s'. s' \<noteq> ''p1'' \<and> idMapping ?st s' = Some ''uu''"
    then obtain s' where s: "s' \<noteq> ''p1''" "idMapping ?st s' = Some ''uu''" by blast
    from a s show False by blast
  qed
  from c5g have "fst (idMapping_get ''p1'' ?st) = idMapping ?st ''p1''"
    by (elim allE [of _ "''p1''"]) (rule conjunct1)
  then have g: "fst (idMapping_get ''p1'' ?st) = Some ''uu''" by (simp only: mp)
  show ?thesis
    using ex_lib_inj ok p t tn mp mt a1 b a2 qt qp n g by (intro conjI) assumption+
qed

subsection \<open>Relationship linking\<close>

text \<open>
  C7. \<^verbatim>\<open>establishRelationships\<close> always returns (no error leaves it). When no pair
  occurs twice in the junction table before, none does after; and every pair of a
  textbook row and a passage set row that the source links, however often, occurs in the
  junction table exactly once afterwards.
\<close>

theorem establishRelationships_links_once:
  assumes "distinct (passageSetTextbook (prisma st))"
  shows "\<exists>st'. establishRelationships m st = Inr st' \<and>
           distinct (passageSetTextbook (prisma st')) \<and>
           (\<forall>ps\<in>set (passagesets m). \<forall>oid\<in>set (mp_textbooks ps). \<forall>t p.
              idMapping st (mp_id ps) = Some p \<and> p \<noteq> [] \<and>
              idMapping st oid = Some t \<and> t \<noteq> [] \<and>
              t \<in> set (map t_id (textbook (prisma st))) \<and>
              p \<in> set (map p_id (passageSet (prisma st))) \<longrightarrow>
              count_list (passageSetTextbook (prisma st'))
                \<lparr>l_textbookId = t, l_passageSetId = p\<rparr> = 1)"
proof -
  let ?st' = "fold passageSet_links (passagesets m) st"
  have r: "establishRelationships m st = Inr ?st'"
    by (simp add: establishRelationships_def establishRelationships_loop_fold)
  have d: "distinct (passageSetTextbook (prisma ?st'))"
    using fold_passageSet_links_same [of st "passagesets m"] assms
    by (simp add: same_entities_def)
  have "\<forall>ps\<in>set (passagesets m). \<forall>oid\<in>set (mp_textbooks ps). \<forall>t p.
              idMapping st (mp_id ps) = Some p \<and> p \<noteq> [] \<and>
              idMapping st oid = Some t \<and> t \<noteq> [] \<and>
              t \<in> set (map t_id (textbook (prisma st))) \<and>
              p \<in> set (map p_id (passageSet (prisma st))) \<longrightarrow>
              count_list (passageSetTextbook (prisma ?st'))
                \<lparr>l_textbookId = t, l_passageSetId = p\<rparr> = 1"
    using fold_passageSet_links_links [of _ "passagesets m" _ st] distinct_count_list_1 [OF d]
    by blast
  with r d show ?thesis by blast
qed

text \<open>
  Witness for C7: the passage set of the example lists its textbook twice; after the
  relationship step the junction table holds the pair once.
\<close>

theorem establishRelationships_links_once_witness:
  "distinct (passageSetTextbook (prisma (projr (import_entities ex_lib src_linked (new_migrator empty_sqlite))))) \<and>
   mp_textbooks (mk_passageSet ''p1'' ''qr1'' [''t1'', ''t1'']) = [''t1'', ''t1''] \<and>
   (\<exists>st'. establishRelationships src_linked
        (projr (import_entities ex_lib src_linked (new_migrator empty_sqlite))) = Inr st' \<and>
      count_list (passageSetTextbook (prisma st'))
        \<lparr>l_textbookId = ''u'', l_passageSetId = ''uu''\<rparr> = 1)"
proof -
  let ?st = "projr (import_entities ex_lib src_linked (new_migrator empty_sqlite))"
  have d: "distinct (passageSetTextbook (prisma ?st))"
    by (simp add: ex_defs run_defs)
  have ps: "mk_passageSet ''p1'' ''qr1'' [''t1'', ''t1''] \<in> set (passagesets src_linked)"
    and oid: "''t1'' \<in> set (mp_textbooks (mk_passageSet ''p1'' ''qr1'' [''t1'', ''t1'']))"
    and tw: "mp_textbooks (mk_passageSet ''p1'' ''qr1'' [''t1'', ''t1'']) = [''t1'', ''t1'']"
    by (simp_all add: ex_defs)
  have m: "idMapping ?st (mp_id (mk_passageSet ''p1'' ''qr1'' [''t1'', ''t1''])) = Some ''uu''"
    "idMapping ?st ''t1'' = Some ''u''"
    "''u'' \<in> set (map t_id (textbook (prisma ?st)))"
    "''uu'' \<in> set (map p_id (passageSet (prisma ?st)))"
    by (simp_all add: ex_defs run_defs)
  from establishRelationships_links_once [OF d, of src_linked] obtain st' where
    r: "establishRelationships src_linked ?st = Inr st'" and
    c: "\<forall>ps\<in>set (passagesets src_linked). \<forall>oid\<in>set (mp_textbooks ps). \<forall>t p.
          idMapping ?st (mp_id ps) = Some p \<and> p \<noteq> [] \<and> idMapping ?st oid = Some t \<and> t \<noteq> [] \<and>
          t \<in> set (map t_id (textbook (prisma ?st))) \<and>
          p \<in> set (map p_id (passageSet (prisma ?st))) \<longrightarrow>
          count_list (passageSetTextbook (prisma st')) \<lparr>l_textbookId = t, l_passageSetId = p\<rparr> = 1"
    by blast
  have "count_list (passageSetTextbook (prisma st')) \<lparr>l_textbookId = ''u'', l_passageSetId = ''uu''\<rparr> = 1"
    using c [rule_format, OF ps oid, of "''uu''" "''u''"] m by simp
  with r d tw show ?thesis by blast
qed

subsection \<open>Amended claim about count reconciliation\<close>

lemma migrateTextbooks_loop_versions:
  "migrateTextbooks_loop lb tbs st = Inr st' \<Longrightarrow>
   systemPromptVersion (prisma st') = systemPromptVersion (prisma st)"
proof (induction tbs arbitrary: st)
  case Nil
  then show ?case by simp
next
  case (Cons tb rest)
  from Cons.prems have "migrateTextbooks_loop lb rest (textbook_step lb tb st) = Inr st'"
    by (simp only: migrateTextbooks_loop_Cons)
  from Cons.IH [OF this] show ?case by (simp add: textbook_step_def)
qed

lemma migratePassageSets_loop_versions:
  "migratePassageSets_loop lb pss st = Inr st' \<Longrightarrow>
   systemPromptVersion (prisma st') = systemPromptVersion (prisma st)"
proof (induction pss arbitrary: st)
  case Nil
  then show ?case by simp
next
  case (Cons ps rest)
  from Cons.prems have "migratePassageSets_loop lb rest (passageSet_step lb ps st) = Inr st'"
    by (simp only: migratePassageSets_loop_Cons)
  from Cons.IH [OF this] show ?case by (simp add: passageSet_step_def)
qed

lemma migrateQuestions_loop_versions:
  "migrateQuestions_loop lb qs st = Inr st' \<Longrightarrow>
   systemPromptVersion (prisma st') = systemPromptVersion (prisma st)"
proof (induction qs arbitrary: st)
  case Nil
  then show ?case by simp
next
  case (Cons q rest)
  show ?case
  proof (cases "falsy (idMapping st (mq_setId q))")
    case True
    have "migrateQuestions_loop lb rest (st\<lparr>uuid_calls := Suc (uuid_calls st)\<rparr>) = Inr st'"
      using migrateQuestions_loop_skip [OF True, of lb rest] Cons.prems by simp
    from Cons.IH [OF this] show ?thesis by simp
  next
    case False
    have "migrateQuestions_loop lb rest (question_step lb q st) = Inr st'"
      using migrateQuestions_loop_create [OF False, of lb rest st'] Cons.prems by blast
    from Cons.IH [OF this] show ?thesis by (simp add: question_step_def)
  qed
qed

lemma migrateSystemPrompts_loop_versions:
  "migrateSystemPrompts_loop lb xs st = Inr st' \<Longrightarrow>
   systemPromptVersion (prisma st') = systemPromptVersion (prisma st)"
proof (induction xs arbitrary: st)
  case Nil
  then show ?case by simp
next
  case (Cons x xs)
  from Cons.prems obtain d where
    "migrateSystemPrompts_loop lb xs (st\<lparr>uuid_calls := Suc (uuid_calls st), prisma := d\<rparr>) = Inr st'"
    and "systemPromptVersion d = systemPromptVersion (prisma st)"
    by (auto simp add: Let_def systemPrompt_create_def split: if_splits)
  then show ?case using Cons.IH by fastforce
qed

lemma migrateSystemPromptVersions_loop_length:
  "migrateSystemPromptVersions_loop lb xs st = Inr st' \<Longrightarrow>
   length (systemPromptVersion (prisma st')) = length (systemPromptVersion (prisma st)) + length xs"
proof (induction xs arbitrary: st)
  case Nil
  then show ?case by simp
next
  case (Cons x xs)
  from Cons.prems obtain d where
    "migrateSystemPromptVersions_loop lb xs (st\<lparr>uuid_calls := Suc (uuid_calls st), prisma := d\<rparr>) = Inr st'"
    and "length (systemPromptVersion d) = Suc (length (systemPromptVersion (prisma st)))"
    by (auto simp add: Let_def systemPromptVersion_create_def split: if_splits)
  then show ?case using Cons.IH by fastforce
qed

lemma version_count:
  assumes r: "migrate lb w config m (new_migrator d) = Inr st"
  shows "length (systemPromptVersion (prisma st)) =
           length (systemPromptVersion d) + length (systemprompversions m)"
proof -
  from r obtain st5 where imp: "import_entities lb m (new_migrator d) = Inr st5"
    and st: "st = fold passageSet_links (passagesets m) st5"
    by (rule migrate_stages)
  from imp obtain st1 st2 st3 st4 where
    l1: "migrateTextbooks_loop lb (textbooks m) (new_migrator d) = Inr st1" and
    l2: "migratePassageSets_loop lb (passagesets m) st1 = Inr st2" and
    l3: "migrateQuestions_loop lb (questions m) st2 = Inr st3" and
    l4: "migrateSystemPrompts_loop lb (systemprompts m) st3 = Inr st4" and
    l5: "migrateSystemPromptVersions_loop lb (systemprompversions m) st4 = Inr st5"
    by (rule import_entities_stages)
  have "same_entities st5 st" unfolding st by (rule fold_passageSet_links_same)
  then have "systemPromptVersion (prisma st) = systemPromptVersion (prisma st5)"
    by (simp add: same_entities_def)
  moreover have "systemPromptVersion (prisma st4) = systemPromptVersion d"
    using migrateTextbooks_loop_versions [OF l1] migratePassageSets_loop_versions [OF l2]
      migrateQuestions_loop_versions [OF l3] migrateSystemPrompts_loop_versions [OF l4]
    by (simp add: new_migrator_def)
  ultimately show ?thesis
    using migrateSystemPromptVersions_loop_length [OF l5] by simp
qed

text \<open>
  C2 (amended). After a run that completes successfully, for each of Textbook,
  PassageSet, Question and SystemPrompt the source count equals the target count, and the
  target's SystemPromptVersion count (which the verifier does not compare) is the source
  count plus the number of version rows the target held before the run. When \<^verbatim>\<open>uuidv4\<close>
  never repeats a value and every Question row that the target holds before the run
  references a PassageSet row of the target, a run on a source with a Question whose
  PassageSet is absent fails, with the count mismatch of the verifier whenever all steps
  before the verification succeed.
\<close>

theorem successful_run_counts_reconciled:
  "(\<forall>st. migrate lb w config m (new_migrator d) = Inr st \<longrightarrow>
            length (textbooks m) = length (textbook (prisma st)) \<and>
            length (passagesets m) = length (passageSet (prisma st)) \<and>
            length (questions m) = length (question (prisma st)) \<and>
            length (systemprompts m) = length (systemPrompt (prisma st)) \<and>
            length (systemPromptVersion (prisma st)) =
              length (systemPromptVersion d) + length (systemprompversions m)) \<and>
   (inj (uuidv4 lb) \<and>
    set (map q_setId (question d)) \<subseteq> set (map p_id (passageSet d)) \<and>
    (\<exists>q\<in>set (questions m). mq_setId q \<notin> set (map mp_id (passagesets m))) \<longrightarrow>
      isl (migrate lb w config m (new_migrator d)) \<and>
      (\<not> isl (before_verify lb w config m (new_migrator d)) \<longrightarrow>
         migrate lb w config m (new_migrator d) = Inl CountMismatch))"
proof -
  have counts: "\<forall>st. migrate lb w config m (new_migrator d) = Inr st \<longrightarrow>
            length (textbooks m) = length (textbook (prisma st)) \<and>
            length (passagesets m) = length (passageSet (prisma st)) \<and>
            length (questions m) = length (question (prisma st)) \<and>
            length (systemprompts m) = length (systemPrompt (prisma st)) \<and>
            length (systemPromptVersion (prisma st)) =
              length (systemPromptVersion d) + length (systemprompversions m)"
  proof (intro allI impI)
    fix st assume r: "migrate lb w config m (new_migrator d) = Inr st"
    then have "verifyMigration m st = Inr st" by (rule migrate_stages)
    then have "length (textbooks m) = length (textbook (prisma st)) \<and>
            length (passagesets m) = length (passageSet (prisma st)) \<and>
            length (questions m) = length (question (prisma st)) \<and>
            length (systemprompts m) = length (systemPrompt (prisma st))"
      by (simp add: verifyMigration_def split: if_splits)
    with version_count [OF r]
    show "length (textbooks m) = length (textbook (prisma st)) \<and>
            length (passagesets m) = length (passageSet (prisma st)) \<and>
            length (questions m) = length (question (prisma st)) \<and>
            length (systemprompts m) = length (systemPrompt (prisma st)) \<and>
            length (systemPromptVersion (prisma st)) =
              length (systemPromptVersion d) + length (systemprompversions m)"
      by simp
  qed
  have orphan: "isl (migrate lb w config m (new_migrator d)) \<and>
            (\<not> isl (before_verify lb w config m (new_migrator d)) \<longrightarrow>
               migrate lb w config m (new_migrator d) = Inl CountMismatch)"
    if i: "inj (uuidv4 lb)"
      and fk: "set (map q_setId (question d)) \<subseteq> set (map p_id (passageSet d))"
      and o: "\<exists>q\<in>set (questions m). mq_setId q \<notin> set (map mp_id (passagesets m))"
  proof -
    have fails: "isl (migrate lb w config m (new_migrator d))"
    proof (cases "migrate lb w config m (new_migrator d)")
      case (Inl e)
      then show ?thesis by simp
    next
      case (Inr st)
      from no_orphans [OF i fk Inr] o show ?thesis by blast
    qed
    have "migrate lb w config m (new_migrator d) = Inl CountMismatch"
      if "\<not> isl (before_verify lb w config m (new_migrator d))"
    proof -
      from that obtain st' where "before_verify lb w config m (new_migrator d) = Inr st'"
        by (cases "before_verify lb w config m (new_migrator d)") simp_all
      then show ?thesis
        using fails by (simp add: migrate_def thenE_def verifyMigration_def split: if_splits)
    qed
    with fails show ?thesis by blast
  qed
  from counts orphan show ?thesis by blast
qed

text \<open>
  Witness for C2 (amended): the example with one textbook, one passage set and one
  question is migrated with equal counts; the source with two orphan questions reaches
  the verification and fails there.
\<close>

theorem successful_run_counts_reconciled_witness:
  "inj (uuidv4 ex_lib) \<and>
   set (map q_setId (question empty_sqlite)) \<subseteq> set (map p_id (passageSet empty_sqlite)) \<and>
   \<not> isl (migrate ex_lib ok_world main_config src_linked (new_migrator empty_sqlite)) \<and>
   length (questions src_linked) = 1 \<and>
   length (question (prisma (projr
     (migrate ex_lib ok_world main_config src_linked (new_migrator empty_sqlite))))) = 1 \<and>
   length (systemPromptVersion (prisma (projr
     (migrate ex_lib ok_world main_config src_linked (new_migrator empty_sqlite))))) =
     length (systemprompversions src_linked) \<and>
   (\<exists>q\<in>set (questions src_orphans). mq_setId q \<notin> set (map mp_id (passagesets src_orphans))) \<and>
   \<not> isl (before_verify ex_lib ok_world main_config src_orphans (new_migrator empty_sqlite)) \<and>
   migrate ex_lib ok_world main_config src_orphans (new_migrator empty_sqlite) = Inl CountMismatch"
proof -
  have fk: "set (map q_setId (question empty_sqlite)) \<subseteq> set (map p_id (passageSet empty_sqlite))"
    by (simp add: empty_sqlite_def)
  have ok: "\<not> isl (migrate ex_lib ok_world main_config src_linked (new_migrator empty_sqlite))"
    by (simp add: ex_defs run_defs)
  have n: "length (questions src_linked) = 1" by (simp add: ex_defs)
  have e: "length (systemPromptVersion empty_sqlite) = 0" by (simp add: empty_sqlite_def)
  have o: "\<exists>q\<in>set (questions src_orphans). mq_setId q \<notin> set (map mp_id (passagesets src_orphans))"
    by (auto simp add: ex_defs)
  have b: "\<not> isl (before_verify ex_lib ok_world main_config src_orphans (new_migrator empty_sqlite))"
    by (simp add: ex_defs run_defs)
  let ?st = "projr (migrate ex_lib ok_world main_config src_linked (new_migrator empty_sqlite))"
  note c = successful_run_counts_reconciled
    [where lb = ex_lib and w = ok_world and config = main_config and d = empty_sqlite]
  from c [where m = src_linked, THEN conjunct1] not_isl_projr [OF ok]
  have "length (questions src_linked) = length (question (prisma ?st)) \<and>
      length (systemPromptVersion (prisma ?st)) =
        length (systemPromptVersion empty_sqlite) + length (systemprompversions src_linked)"
    by blast
  then have q: "length (question (prisma ?st)) = 1"
    and v: "length (systemPromptVersion (prisma ?st)) = length (systemprompversions src_linked)"
    using n e by simp_all
  from c [where m = src_orphans, THEN conjunct2] ex_lib_inj fk o b
  have f: "migrate ex_lib ok_world main_config src_orphans (new_migrator empty_sqlite) =
      Inl CountMismatch"
    by blast
  show ?thesis
    using ex_lib_inj fk ok n q v o b f by (intro conjI) assumption+
qed

end
